theory Spec2Isabelle
  imports Main "HOL-Library.Word" "HOL-Library.Char_ord" "HOL-Library.List_Lexorder"
    "HOL-Library.While_Combinator"
begin

unbundle bit_operations_syntax

section \<open>Connection strings of go-mssqldb (conn\_str.go)\<close>

text \<open>
  A Go \<open>string\<close> is a sequence of bytes: \<^typ>\<open>string\<close>, one \<^typ>\<open>char\<close> per byte.
  A byte is read as a number with \<open>of_char\<close>. A \<open>rune\<close> is a Unicode code point, a
  natural number. The functions of Go's standard library that \<open>conn_str.go\<close> calls
  (\<open>strconv\<close>, \<open>strings\<close>, \<open>unicode\<close>, \<open>unicode/utf8\<close>, \<open>net/url\<close>, \<open>net\<close>) are
  written out below as far as the file uses them, from the library's sources (Go 1.21).
\<close>

type_synonym rune = nat

definition byte :: "char \<Rightarrow> nat" where
  "byte c = of_char c"

definition chr :: "nat \<Rightarrow> char" where
  "chr n = char_of n"

subsection \<open>Errors\<close>

text \<open>\<open>strconv.NumError\<close>: the two errors \<open>ParseUint\<close> and \<open>ParseBool\<close> return.\<close>

datatype NumError = ErrSyntax | ErrRange

text \<open>
  The errors of \<open>net/url\<close>: \<open>EscapeError\<close> and \<open>InvalidHostError\<close> carry the offending
  text, the others are \<open>errors.New\<close> with a message.
\<close>

datatype urlError = EscapeError string | InvalidHostError string | UrlError string

text \<open>
  One constructor for each \<open>fmt.Errorf\<close> of the file, carrying the values the message
  prints; \<open>UrlParseError\<close> is the error of \<open>url.Parse\<close>, returned as it is; \<open>IndexOutOfRange\<close>
  is the run-time panic of an index or slice expression out of range.
\<close>

datatype error =
    InvalidLog string NumError
  | InvalidPort string NumError
  | InvalidPacketSize string NumError
  | InvalidConnTimeout string NumError
  | InvalidDialTimeout string NumError
  | InvalidKeepAlive string NumError
  | InvalidEncrypt string NumError
  | InvalidColumnEncryption string NumError
  | InvalidKeyStoreAuthentication string
  | InvalidKeyStoreLocation string
  | KeyStoreNotFound string
  | InvalidTrustServerCertificate string NumError
  | DatabaseMustBeSpecified
  | InvalidFailOverPort string NumError
  | UnexpectedEquals nat
  | UnexpectedCharacter rune nat
  | UnexpectedEndOfBracedValue nat
  | UrlParseError urlError
  | SchemeNotRecognized string
  | KeyProvidedMoreThanOnce string
  | IndexOutOfRange

subsection \<open>strconv\<close>

text \<open>\<open>lower(c) = c | ('x' - 'X')\<close>, on the byte's number.\<close>

definition lower :: "char \<Rightarrow> nat" where
  "lower c = byte c OR 32"

text \<open>The digit a byte stands for in \<open>ParseUint\<close>'s loop, before the check against the base.\<close>

definition digitVal :: "char \<Rightarrow> nat option" where
  "digitVal c =
     (if 48 \<le> byte c \<and> byte c \<le> 57 then Some (byte c - 48)
      else if 97 \<le> lower c \<and> lower c \<le> 122 then Some (lower c - 97 + 10)
      else None)"

text \<open>
  The loop of \<open>ParseUint\<close> over the bytes after the base prefix. \<open>n\<close> is a \<open>uint64\<close>:
  the product and the sum wrap at \<open>2 ^ 64\<close>, as the code's overflow checks expect.
\<close>

fun parseUintLoop :: "nat \<Rightarrow> bool \<Rightarrow> nat \<Rightarrow> nat \<Rightarrow> string \<Rightarrow> bool \<Rightarrow> nat \<Rightarrow> NumError + (nat \<times> bool)" where
  "parseUintLoop base base0 cutoff maxVal [] underscores n = Inr (n, underscores)"
| "parseUintLoop base base0 cutoff maxVal (c # cs) underscores n =
     (if c = CHR ''_'' \<and> base0 then parseUintLoop base base0 cutoff maxVal cs True n
      else case digitVal c of
        None \<Rightarrow> Inl ErrSyntax
      | Some d \<Rightarrow>
          if d \<ge> base then Inl ErrSyntax
          else if n \<ge> cutoff then Inl ErrRange
          else let n' = (n * base) mod 2 ^ 64; n1 = (n' + d) mod 2 ^ 64
               in if n1 < n' \<or> n1 > maxVal then Inl ErrRange
                  else parseUintLoop base base0 cutoff maxVal cs underscores n1)"

text \<open>\<open>underscoreOK\<close>: underscores only between digits, or between the base prefix and a digit.\<close>

datatype saw = SawBegin | SawDigit | SawUnderscore | SawOther

fun underscoreLoop :: "bool \<Rightarrow> saw \<Rightarrow> string \<Rightarrow> bool" where
  "underscoreLoop hex s [] = (s \<noteq> SawUnderscore)"
| "underscoreLoop hex s (c # cs) =
     (if (48 \<le> byte c \<and> byte c \<le> 57) \<or> (hex \<and> 97 \<le> lower c \<and> lower c \<le> 102)
      then underscoreLoop hex SawDigit cs
      else if c = CHR ''_'' then (if s \<noteq> SawDigit then False else underscoreLoop hex SawUnderscore cs)
      else if s = SawUnderscore then False
      else underscoreLoop hex SawOther cs)"

definition underscoreOK :: "string \<Rightarrow> bool" where
  "underscoreOK s0 =
     (let s = (case s0 of c # cs \<Rightarrow> if c = CHR ''-'' \<or> c = CHR ''+'' then cs else s0 | [] \<Rightarrow> s0)
      in case s of
           c0 # c1 # cs \<Rightarrow>
             if c0 = CHR ''0'' \<and> (lower c1 = 98 \<or> lower c1 = 111 \<or> lower c1 = 120)
             then underscoreLoop (lower c1 = 120) SawDigit cs
             else underscoreLoop False SawBegin s
         | _ \<Rightarrow> underscoreLoop False SawBegin s)"

text \<open>
  \<open>strconv.ParseUint(s, base, bitSize)\<close> for the bases \<open>0\<close> and \<open>2..36\<close> and the bit
  sizes \<open>1..64\<close>, which are the ones the file passes (\<open>10\<close> and \<open>0\<close>; \<open>16\<close> and \<open>64\<close>).
  With base \<open>0\<close> the prefix chooses the base and underscores may separate digits.
\<close>

definition basePrefix :: "string \<Rightarrow> nat \<times> string" where
  "basePrefix s =
     (case s of
        c0 # rest \<Rightarrow>
          if c0 = CHR ''0'' then
            (case rest of
               c1 # rest' \<Rightarrow>
                 if length s \<ge> 3 \<and> lower c1 = 98 then (2, rest')
                 else if length s \<ge> 3 \<and> lower c1 = 111 then (8, rest')
                 else if length s \<ge> 3 \<and> lower c1 = 120 then (16, rest')
                 else (8, rest)
             | [] \<Rightarrow> (8, rest))
          else (10, s)
      | [] \<Rightarrow> (10, s))"

definition ParseUint :: "string \<Rightarrow> nat \<Rightarrow> nat \<Rightarrow> NumError + nat" where
  "ParseUint s base bitSize =
     (if s = [] then Inl ErrSyntax
      else let base0 = (base = 0);
               (b, digits) = (if base0 then basePrefix s else (base, s));
               cutoff = (2 ^ 64 - 1) div b + 1;
               maxVal = 2 ^ bitSize - 1
           in case parseUintLoop b base0 cutoff maxVal digits False 0 of
                Inl e \<Rightarrow> Inl e
              | Inr (n, underscores) \<Rightarrow>
                  if underscores \<and> \<not> underscoreOK s then Inl ErrSyntax else Inr n)"

text \<open>\<open>strconv.ParseBool\<close>.\<close>

definition ParseBool :: "string \<Rightarrow> NumError + bool" where
  "ParseBool str =
     (if str \<in> set [''1'', ''t'', ''T'', ''TRUE'', ''true'', ''True''] then Inr True
      else if str \<in> set [''0'', ''f'', ''F'', ''FALSE'', ''false'', ''False''] then Inr False
      else Inl ErrSyntax)"

text \<open>
  \<open>strconv.FormatUint(n, 10)\<close>, which is also what \<open>%d\<close> prints for a \<open>uint64\<close>. The digit
  is read from the table \<open>"0123456789"\<close>, as the library does.
\<close>

definition digitChar :: "nat \<Rightarrow> char" where
  "digitChar d = ''0123456789'' ! d"

fun FormatUint :: "nat \<Rightarrow> string" where
  "FormatUint n = (if n < 10 then [digitChar n] else FormatUint (n div 10) @ [digitChar (n mod 10)])"

declare FormatUint.simps [simp del]

subsection \<open>unicode/utf8 and unicode\<close>

definition RuneError :: rune where
  "RuneError = 65533"

text \<open>
  The table \<open>first\<close> of \<open>unicode/utf8\<close> for a leading byte from \<open>0x80\<close> on: the length of
  the sequence and the range its second byte must lie in; \<open>None\<close> for a byte that starts
  no sequence.
\<close>

definition firstByte :: "nat \<Rightarrow> (nat \<times> nat \<times> nat) option" where
  "firstByte b =
     (if b < 194 then None
      else if b \<le> 223 then Some (2, 128, 191)
      else if b = 224 then Some (3, 160, 191)
      else if b \<le> 236 then Some (3, 128, 191)
      else if b = 237 then Some (3, 128, 159)
      else if b \<le> 239 then Some (3, 128, 191)
      else if b = 240 then Some (4, 144, 191)
      else if b \<le> 243 then Some (4, 128, 191)
      else if b = 244 then Some (4, 128, 143)
      else None)"

text \<open>
  \<open>utf8.DecodeRuneInString\<close>: the first rune of the string and its width in bytes. The
  masks and shifts of the code are written as \<open>mod\<close> and multiplication.
\<close>

definition DecodeRuneInString :: "string \<Rightarrow> rune \<times> nat" where
  "DecodeRuneInString s =
     (case s of
        [] \<Rightarrow> (RuneError, 0)
      | c0 # _ \<Rightarrow>
          let s0 = byte c0 in
          if s0 < 128 then (s0, 1)
          else case firstByte s0 of
            None \<Rightarrow> (RuneError, 1)
          | Some (sz, lo, hi) \<Rightarrow>
              if length s < sz then (RuneError, 1)
              else let s1 = byte (s ! 1) in
                if s1 < lo \<or> hi < s1 then (RuneError, 1)
                else if sz \<le> 2 then ((s0 mod 32) * 64 + s1 mod 64, 2)
                else let s2 = byte (s ! 2) in
                  if s2 < 128 \<or> 191 < s2 then (RuneError, 1)
                  else if sz \<le> 3 then ((s0 mod 16) * 4096 + (s1 mod 64) * 64 + s2 mod 64, 3)
                  else let s3 = byte (s ! 3) in
                    if s3 < 128 \<or> 191 < s3 then (RuneError, 1)
                    else ((s0 mod 8) * 262144 + (s1 mod 64) * 4096 + (s2 mod 64) * 64 + s3 mod 64, 4))"

text \<open>
  \<open>for i, c := range s\<close>: the byte offsets and runes the loop visits. \<open>skip\<close> counts the
  bytes of the current rune that are still to pass.
\<close>

fun rangeFrom :: "nat \<Rightarrow> nat \<Rightarrow> string \<Rightarrow> (nat \<times> rune) list" where
  "rangeFrom i skip [] = []"
| "rangeFrom i skip (c # cs) =
     (if skip > 0 then rangeFrom (i + 1) (skip - 1) cs
      else (i, fst (DecodeRuneInString (c # cs)))
           # rangeFrom (i + 1) (snd (DecodeRuneInString (c # cs)) - 1) cs)"

definition rangeString :: "string \<Rightarrow> (nat \<times> rune) list" where
  "rangeString s = rangeFrom 0 0 s"

text \<open>\<open>utf8.DecodeLastRuneInString\<close>: the last rune of the string and its width.\<close>

definition RuneStart :: "char \<Rightarrow> bool" where
  "RuneStart c = (\<not> (128 \<le> byte c \<and> byte c < 192))"

definition DecodeLastRuneInString :: "string \<Rightarrow> rune \<times> nat" where
  "DecodeLastRuneInString s =
     (let end = length s in
      if end = 0 then (RuneError, 0)
      else let r = byte (s ! (end - 1)) in
        if r < 128 then (r, 1)
        else let lim = end - 4;
                 start = (case List.find (\<lambda>i. RuneStart (s ! i)) (rev [lim ..< end - 1]) of
                            Some i \<Rightarrow> i
                          | None \<Rightarrow> lim - 1);
                 (r', size') = DecodeRuneInString (drop start s)
             in if start + size' \<noteq> end then (RuneError, 1) else (r', size'))"

text \<open>\<open>string(c)\<close> for a rune \<open>c\<close>: its UTF-8 encoding (\<open>utf8.AppendRune\<close>).\<close>

definition encodeRune :: "rune \<Rightarrow> string" where
  "encodeRune r =
     (if r \<le> 127 then [chr r]
      else if r \<le> 2047 then [chr (192 + r div 64), chr (128 + r mod 64)]
      else if r > 1114111 \<or> (55296 \<le> r \<and> r \<le> 57343) then [chr 239, chr 191, chr 189]
      else if r \<le> 65535 then
        [chr (224 + r div 4096), chr (128 + (r div 64) mod 64), chr (128 + r mod 64)]
      else
        [chr (240 + r div 262144), chr (128 + (r div 4096) mod 64),
         chr (128 + (r div 64) mod 64), chr (128 + r mod 64)])"

text \<open>\<open>unicode.IsSpace\<close>: the Latin-1 spaces and the table \<open>White_Space\<close>.\<close>

definition IsSpace :: "rune \<Rightarrow> bool" where
  "IsSpace r =
     (if r \<le> 255 then r \<in> set [9, 10, 11, 12, 13, 32, 133, 160]
      else r = 5760 \<or> (8192 \<le> r \<and> r \<le> 8202) \<or> r = 8232 \<or> r = 8233 \<or> r = 8239
           \<or> r = 8287 \<or> r = 12288)"

subsection \<open>strings\<close>

definition HasPrefix :: "string \<Rightarrow> string \<Rightarrow> bool" where
  "HasPrefix s pre = (length s \<ge> length pre \<and> take (length pre) s = pre)"

text \<open>\<open>strings.Cut(s, sep)\<close> for a separator of one byte: \<open>None\<close> when it does not occur.\<close>

fun Cut :: "char \<Rightarrow> string \<Rightarrow> (string \<times> string) option" where
  "Cut sep [] = None"
| "Cut sep (c # cs) =
     (if c = sep then Some ([], cs)
      else case Cut sep cs of None \<Rightarrow> None | Some (before, after) \<Rightarrow> Some (c # before, after))"

text \<open>\<open>strings.Split(s, sep)\<close> for a separator of one byte; \<open>Split("", sep)\<close> is \<open>[""]\<close>.\<close>

fun Split :: "char \<Rightarrow> string \<Rightarrow> string list" where
  "Split sep [] = [[]]"
| "Split sep (c # cs) =
     (if c = sep then [] # Split sep cs
      else case Split sep cs of [] \<Rightarrow> [[c]] | part # parts \<Rightarrow> (c # part) # parts)"

text \<open>\<open>strings.SplitN(s, sep, 2)\<close> for a separator of one byte: one or two parts.\<close>

definition SplitN2 :: "char \<Rightarrow> string \<Rightarrow> string list" where
  "SplitN2 sep s = (case Cut sep s of None \<Rightarrow> [s] | Some (before, after) \<Rightarrow> [before, after])"

text \<open>
  \<open>strings.TrimLeftFunc(s, unicode.IsSpace)\<close>: drop the runes at the front that are
  spaces (\<open>indexFunc\<close> ranges over the runes).
\<close>

fun dropSpaceRunes :: "(nat \<times> rune) list \<Rightarrow> nat option" where
  "dropSpaceRunes [] = None"
| "dropSpaceRunes ((i, r) # rs) = (if \<not> IsSpace r then Some i else dropSpaceRunes rs)"

definition TrimLeftSpace :: "string \<Rightarrow> string" where
  "TrimLeftSpace s = (case dropSpaceRunes (rangeString s) of None \<Rightarrow> [] | Some i \<Rightarrow> drop i s)"

text \<open>
  \<open>strings.TrimRightFunc(s, unicode.IsSpace)\<close>: \<open>lastIndexFunc\<close> walks back from the end
  one rune at a time, as long as the rune is a space; \<open>n\<close> bounds the walk by the length
  of the string, since every step takes at least one byte off.
\<close>

fun lastIndexNotSpace :: "nat \<Rightarrow> string \<Rightarrow> nat option" where
  "lastIndexNotSpace 0 s = None"
| "lastIndexNotSpace (Suc n) s =
     (if s = [] then None
      else let (r, size') = DecodeLastRuneInString s;
               i = length s - size'
           in if \<not> IsSpace r then Some i else lastIndexNotSpace n (take i s))"

definition TrimRightSpace :: "string \<Rightarrow> string" where
  "TrimRightSpace s =
     (case lastIndexNotSpace (length s) s of
        None \<Rightarrow> []
      | Some i \<Rightarrow>
          if byte (s ! i) \<ge> 128 then take (i + snd (DecodeRuneInString (drop i s))) s
          else take (i + 1) s)"

text \<open>\<open>strings.TrimSpace\<close>: its fast path for ASCII gives what \<open>TrimFunc\<close> gives.\<close>

definition TrimSpace :: "string \<Rightarrow> string" where
  "TrimSpace s = TrimRightSpace (TrimLeftSpace s)"

subsection \<open>unicode: the letter case of a rune\<close>

text \<open>
  The tables of package \<open>unicode\<close> are those of Unicode 15.0.0, the version of Go 1.21.
  \<open>CaseRanges\<close> is the table \<open>_CaseRanges\<close>: a range of runes \<open>Lo\<close> to \<open>Hi\<close> with the
  three numbers \<open>Delta\<close> to add for upper, lower and title case. The delta \<open>UpperLower\<close>
  marks a range in which upper and lower case letters alternate.
\<close>

definition MaxRune :: rune where
  "MaxRune = 0x10FFFF"

definition MaxASCII :: rune where
  "MaxASCII = 0x7F"

definition RuneSelf :: nat where
  "RuneSelf = 0x80"

definition ReplacementChar :: rune where
  "ReplacementChar = 0xFFFD"

definition UpperCase :: nat where
  "UpperCase = 0"

definition LowerCase :: nat where
  "LowerCase = 1"

definition TitleCase :: nat where
  "TitleCase = 2"

definition MaxCase :: nat where
  "MaxCase = 3"

definition UpperLower :: int where
  "UpperLower = 0x110000"

type_synonym CaseRange = "rune \<times> rune \<times> int list"

definition upperLower :: "int list" where
  "upperLower = [UpperLower, UpperLower, UpperLower]"

definition CaseRanges :: "CaseRange list" where
  "CaseRanges =
    [
     (0x0041, 0x005A, [0, 32, 0]), (0x0061, 0x007A, [- 32, 0, - 32]),
     (0x00B5, 0x00B5, [743, 0, 743]), (0x00C0, 0x00D6, [0, 32, 0]), (0x00D8, 0x00DE, [0, 32, 0]),
     (0x00E0, 0x00F6, [- 32, 0, - 32]), (0x00F8, 0x00FE, [- 32, 0, - 32]),
     (0x00FF, 0x00FF, [121, 0, 121]), (0x0100, 0x012F, upperLower),
     (0x0130, 0x0130, [0, - 199, 0]), (0x0131, 0x0131, [- 232, 0, - 232]),
     (0x0132, 0x0137, upperLower), (0x0139, 0x0148, upperLower), (0x014A, 0x0177, upperLower),
     (0x0178, 0x0178, [0, - 121, 0]), (0x0179, 0x017E, upperLower),
     (0x017F, 0x017F, [- 300, 0, - 300]), (0x0180, 0x0180, [195, 0, 195]),
     (0x0181, 0x0181, [0, 210, 0]), (0x0182, 0x0185, upperLower), (0x0186, 0x0186, [0, 206, 0]),
     (0x0187, 0x0188, upperLower), (0x0189, 0x018A, [0, 205, 0]), (0x018B, 0x018C, upperLower),
     (0x018E, 0x018E, [0, 79, 0]), (0x018F, 0x018F, [0, 202, 0]), (0x0190, 0x0190, [0, 203, 0]),
     (0x0191, 0x0192, upperLower), (0x0193, 0x0193, [0, 205, 0]), (0x0194, 0x0194, [0, 207, 0]),
     (0x0195, 0x0195, [97, 0, 97]), (0x0196, 0x0196, [0, 211, 0]), (0x0197, 0x0197, [0, 209, 0]),
     (0x0198, 0x0199, upperLower), (0x019A, 0x019A, [163, 0, 163]),
     (0x019C, 0x019C, [0, 211, 0]), (0x019D, 0x019D, [0, 213, 0]),
     (0x019E, 0x019E, [130, 0, 130]), (0x019F, 0x019F, [0, 214, 0]),
     (0x01A0, 0x01A5, upperLower), (0x01A6, 0x01A6, [0, 218, 0]), (0x01A7, 0x01A8, upperLower),
     (0x01A9, 0x01A9, [0, 218, 0]), (0x01AC, 0x01AD, upperLower), (0x01AE, 0x01AE, [0, 218, 0]),
     (0x01AF, 0x01B0, upperLower), (0x01B1, 0x01B2, [0, 217, 0]), (0x01B3, 0x01B6, upperLower),
     (0x01B7, 0x01B7, [0, 219, 0]), (0x01B8, 0x01B9, upperLower), (0x01BC, 0x01BD, upperLower),
     (0x01BF, 0x01BF, [56, 0, 56]), (0x01C4, 0x01C4, [0, 2, 1]), (0x01C5, 0x01C5, [- 1, 1, 0]),
     (0x01C6, 0x01C6, [- 2, 0, - 1]), (0x01C7, 0x01C7, [0, 2, 1]), (0x01C8, 0x01C8, [- 1, 1, 0]),
     (0x01C9, 0x01C9, [- 2, 0, - 1]), (0x01CA, 0x01CA, [0, 2, 1]), (0x01CB, 0x01CB, [- 1, 1, 0]),
     (0x01CC, 0x01CC, [- 2, 0, - 1]), (0x01CD, 0x01DC, upperLower),
     (0x01DD, 0x01DD, [- 79, 0, - 79]), (0x01DE, 0x01EF, upperLower),
     (0x01F1, 0x01F1, [0, 2, 1]), (0x01F2, 0x01F2, [- 1, 1, 0]), (0x01F3, 0x01F3, [- 2, 0, - 1]),
     (0x01F4, 0x01F5, upperLower), (0x01F6, 0x01F6, [0, - 97, 0]),
     (0x01F7, 0x01F7, [0, - 56, 0]), (0x01F8, 0x021F, upperLower),
     (0x0220, 0x0220, [0, - 130, 0]), (0x0222, 0x0233, upperLower),
     (0x023A, 0x023A, [0, 10795, 0]), (0x023B, 0x023C, upperLower),
     (0x023D, 0x023D, [0, - 163, 0]), (0x023E, 0x023E, [0, 10792, 0]),
     (0x023F, 0x0240, [10815, 0, 10815]), (0x0241, 0x0242, upperLower),
     (0x0243, 0x0243, [0, - 195, 0]), (0x0244, 0x0244, [0, 69, 0]), (0x0245, 0x0245, [0, 71, 0]),
     (0x0246, 0x024F, upperLower), (0x0250, 0x0250, [10783, 0, 10783]),
     (0x0251, 0x0251, [10780, 0, 10780]), (0x0252, 0x0252, [10782, 0, 10782]),
     (0x0253, 0x0253, [- 210, 0, - 210]), (0x0254, 0x0254, [- 206, 0, - 206]),
     (0x0256, 0x0257, [- 205, 0, - 205]), (0x0259, 0x0259, [- 202, 0, - 202]),
     (0x025B, 0x025B, [- 203, 0, - 203]), (0x025C, 0x025C, [42319, 0, 42319]),
     (0x0260, 0x0260, [- 205, 0, - 205]), (0x0261, 0x0261, [42315, 0, 42315]),
     (0x0263, 0x0263, [- 207, 0, - 207]), (0x0265, 0x0265, [42280, 0, 42280]),
     (0x0266, 0x0266, [42308, 0, 42308]), (0x0268, 0x0268, [- 209, 0, - 209]),
     (0x0269, 0x0269, [- 211, 0, - 211]), (0x026A, 0x026A, [42308, 0, 42308]),
     (0x026B, 0x026B, [10743, 0, 10743]), (0x026C, 0x026C, [42305, 0, 42305]),
     (0x026F, 0x026F, [- 211, 0, - 211]), (0x0271, 0x0271, [10749, 0, 10749]),
     (0x0272, 0x0272, [- 213, 0, - 213]), (0x0275, 0x0275, [- 214, 0, - 214]),
     (0x027D, 0x027D, [10727, 0, 10727]), (0x0280, 0x0280, [- 218, 0, - 218]),
     (0x0282, 0x0282, [42307, 0, 42307]), (0x0283, 0x0283, [- 218, 0, - 218]),
     (0x0287, 0x0287, [42282, 0, 42282]), (0x0288, 0x0288, [- 218, 0, - 218]),
     (0x0289, 0x0289, [- 69, 0, - 69]), (0x028A, 0x028B, [- 217, 0, - 217]),
     (0x028C, 0x028C, [- 71, 0, - 71]), (0x0292, 0x0292, [- 219, 0, - 219]),
     (0x029D, 0x029D, [42261, 0, 42261]), (0x029E, 0x029E, [42258, 0, 42258]),
     (0x0345, 0x0345, [84, 0, 84]), (0x0370, 0x0373, upperLower), (0x0376, 0x0377, upperLower),
     (0x037B, 0x037D, [130, 0, 130]), (0x037F, 0x037F, [0, 116, 0]),
     (0x0386, 0x0386, [0, 38, 0]), (0x0388, 0x038A, [0, 37, 0]), (0x038C, 0x038C, [0, 64, 0]),
     (0x038E, 0x038F, [0, 63, 0]), (0x0391, 0x03A1, [0, 32, 0]), (0x03A3, 0x03AB, [0, 32, 0]),
     (0x03AC, 0x03AC, [- 38, 0, - 38]), (0x03AD, 0x03AF, [- 37, 0, - 37]),
     (0x03B1, 0x03C1, [- 32, 0, - 32]), (0x03C2, 0x03C2, [- 31, 0, - 31]),
     (0x03C3, 0x03CB, [- 32, 0, - 32]), (0x03CC, 0x03CC, [- 64, 0, - 64]),
     (0x03CD, 0x03CE, [- 63, 0, - 63]), (0x03CF, 0x03CF, [0, 8, 0]),
     (0x03D0, 0x03D0, [- 62, 0, - 62]), (0x03D1, 0x03D1, [- 57, 0, - 57]),
     (0x03D5, 0x03D5, [- 47, 0, - 47]), (0x03D6, 0x03D6, [- 54, 0, - 54]),
     (0x03D7, 0x03D7, [- 8, 0, - 8]), (0x03D8, 0x03EF, upperLower),
     (0x03F0, 0x03F0, [- 86, 0, - 86]), (0x03F1, 0x03F1, [- 80, 0, - 80]),
     (0x03F2, 0x03F2, [7, 0, 7]), (0x03F3, 0x03F3, [- 116, 0, - 116]),
     (0x03F4, 0x03F4, [0, - 60, 0]), (0x03F5, 0x03F5, [- 96, 0, - 96]),
     (0x03F7, 0x03F8, upperLower), (0x03F9, 0x03F9, [0, - 7, 0]), (0x03FA, 0x03FB, upperLower),
     (0x03FD, 0x03FF, [0, - 130, 0]), (0x0400, 0x040F, [0, 80, 0]), (0x0410, 0x042F, [0, 32, 0]),
     (0x0430, 0x044F, [- 32, 0, - 32]), (0x0450, 0x045F, [- 80, 0, - 80]),
     (0x0460, 0x0481, upperLower), (0x048A, 0x04BF, upperLower), (0x04C0, 0x04C0, [0, 15, 0]),
     (0x04C1, 0x04CE, upperLower), (0x04CF, 0x04CF, [- 15, 0, - 15]),
     (0x04D0, 0x052F, upperLower), (0x0531, 0x0556, [0, 48, 0]),
     (0x0561, 0x0586, [- 48, 0, - 48]), (0x10A0, 0x10C5, [0, 7264, 0]),
     (0x10C7, 0x10C7, [0, 7264, 0]), (0x10CD, 0x10CD, [0, 7264, 0]),
     (0x10D0, 0x10FA, [3008, 0, 0]), (0x10FD, 0x10FF, [3008, 0, 0]),
     (0x13A0, 0x13EF, [0, 38864, 0]), (0x13F0, 0x13F5, [0, 8, 0]),
     (0x13F8, 0x13FD, [- 8, 0, - 8]), (0x1C80, 0x1C80, [- 6254, 0, - 6254]),
     (0x1C81, 0x1C81, [- 6253, 0, - 6253]), (0x1C82, 0x1C82, [- 6244, 0, - 6244]),
     (0x1C83, 0x1C84, [- 6242, 0, - 6242]), (0x1C85, 0x1C85, [- 6243, 0, - 6243]),
     (0x1C86, 0x1C86, [- 6236, 0, - 6236]), (0x1C87, 0x1C87, [- 6181, 0, - 6181]),
     (0x1C88, 0x1C88, [35266, 0, 35266]), (0x1C90, 0x1CBA, [0, - 3008, 0]),
     (0x1CBD, 0x1CBF, [0, - 3008, 0]), (0x1D79, 0x1D79, [35332, 0, 35332]),
     (0x1D7D, 0x1D7D, [3814, 0, 3814]), (0x1D8E, 0x1D8E, [35384, 0, 35384]),
     (0x1E00, 0x1E95, upperLower), (0x1E9B, 0x1E9B, [- 59, 0, - 59]),
     (0x1E9E, 0x1E9E, [0, - 7615, 0]), (0x1EA0, 0x1EFF, upperLower), (0x1F00, 0x1F07, [8, 0, 8]),
     (0x1F08, 0x1F0F, [0, - 8, 0]), (0x1F10, 0x1F15, [8, 0, 8]), (0x1F18, 0x1F1D, [0, - 8, 0]),
     (0x1F20, 0x1F27, [8, 0, 8]), (0x1F28, 0x1F2F, [0, - 8, 0]), (0x1F30, 0x1F37, [8, 0, 8]),
     (0x1F38, 0x1F3F, [0, - 8, 0]), (0x1F40, 0x1F45, [8, 0, 8]), (0x1F48, 0x1F4D, [0, - 8, 0]),
     (0x1F51, 0x1F51, [8, 0, 8]), (0x1F53, 0x1F53, [8, 0, 8]), (0x1F55, 0x1F55, [8, 0, 8]),
     (0x1F57, 0x1F57, [8, 0, 8]), (0x1F59, 0x1F59, [0, - 8, 0]), (0x1F5B, 0x1F5B, [0, - 8, 0]),
     (0x1F5D, 0x1F5D, [0, - 8, 0]), (0x1F5F, 0x1F5F, [0, - 8, 0]), (0x1F60, 0x1F67, [8, 0, 8]),
     (0x1F68, 0x1F6F, [0, - 8, 0]), (0x1F70, 0x1F71, [74, 0, 74]), (0x1F72, 0x1F75, [86, 0, 86]),
     (0x1F76, 0x1F77, [100, 0, 100]), (0x1F78, 0x1F79, [128, 0, 128]),
     (0x1F7A, 0x1F7B, [112, 0, 112]), (0x1F7C, 0x1F7D, [126, 0, 126]),
     (0x1F80, 0x1F87, [8, 0, 8]), (0x1F88, 0x1F8F, [0, - 8, 0]), (0x1F90, 0x1F97, [8, 0, 8]),
     (0x1F98, 0x1F9F, [0, - 8, 0]), (0x1FA0, 0x1FA7, [8, 0, 8]), (0x1FA8, 0x1FAF, [0, - 8, 0]),
     (0x1FB0, 0x1FB1, [8, 0, 8]), (0x1FB3, 0x1FB3, [9, 0, 9]), (0x1FB8, 0x1FB9, [0, - 8, 0]),
     (0x1FBA, 0x1FBB, [0, - 74, 0]), (0x1FBC, 0x1FBC, [0, - 9, 0]),
     (0x1FBE, 0x1FBE, [- 7205, 0, - 7205]), (0x1FC3, 0x1FC3, [9, 0, 9]),
     (0x1FC8, 0x1FCB, [0, - 86, 0]), (0x1FCC, 0x1FCC, [0, - 9, 0]), (0x1FD0, 0x1FD1, [8, 0, 8]),
     (0x1FD8, 0x1FD9, [0, - 8, 0]), (0x1FDA, 0x1FDB, [0, - 100, 0]), (0x1FE0, 0x1FE1, [8, 0, 8]),
     (0x1FE5, 0x1FE5, [7, 0, 7]), (0x1FE8, 0x1FE9, [0, - 8, 0]), (0x1FEA, 0x1FEB, [0, - 112, 0]),
     (0x1FEC, 0x1FEC, [0, - 7, 0]), (0x1FF3, 0x1FF3, [9, 0, 9]), (0x1FF8, 0x1FF9, [0, - 128, 0]),
     (0x1FFA, 0x1FFB, [0, - 126, 0]), (0x1FFC, 0x1FFC, [0, - 9, 0]),
     (0x2126, 0x2126, [0, - 7517, 0]), (0x212A, 0x212A, [0, - 8383, 0]),
     (0x212B, 0x212B, [0, - 8262, 0]), (0x2132, 0x2132, [0, 28, 0]),
     (0x214E, 0x214E, [- 28, 0, - 28]), (0x2160, 0x216F, [0, 16, 0]),
     (0x2170, 0x217F, [- 16, 0, - 16]), (0x2183, 0x2184, upperLower),
     (0x24B6, 0x24CF, [0, 26, 0]), (0x24D0, 0x24E9, [- 26, 0, - 26]),
     (0x2C00, 0x2C2F, [0, 48, 0]), (0x2C30, 0x2C5F, [- 48, 0, - 48]),
     (0x2C60, 0x2C61, upperLower), (0x2C62, 0x2C62, [0, - 10743, 0]),
     (0x2C63, 0x2C63, [0, - 3814, 0]), (0x2C64, 0x2C64, [0, - 10727, 0]),
     (0x2C65, 0x2C65, [- 10795, 0, - 10795]), (0x2C66, 0x2C66, [- 10792, 0, - 10792]),
     (0x2C67, 0x2C6C, upperLower), (0x2C6D, 0x2C6D, [0, - 10780, 0]),
     (0x2C6E, 0x2C6E, [0, - 10749, 0]), (0x2C6F, 0x2C6F, [0, - 10783, 0]),
     (0x2C70, 0x2C70, [0, - 10782, 0]), (0x2C72, 0x2C73, upperLower),
     (0x2C75, 0x2C76, upperLower), (0x2C7E, 0x2C7F, [0, - 10815, 0]),
     (0x2C80, 0x2CE3, upperLower), (0x2CEB, 0x2CEE, upperLower), (0x2CF2, 0x2CF3, upperLower),
     (0x2D00, 0x2D25, [- 7264, 0, - 7264]), (0x2D27, 0x2D27, [- 7264, 0, - 7264]),
     (0x2D2D, 0x2D2D, [- 7264, 0, - 7264]), (0xA640, 0xA66D, upperLower),
     (0xA680, 0xA69B, upperLower), (0xA722, 0xA72F, upperLower), (0xA732, 0xA76F, upperLower),
     (0xA779, 0xA77C, upperLower), (0xA77D, 0xA77D, [0, - 35332, 0]),
     (0xA77E, 0xA787, upperLower), (0xA78B, 0xA78C, upperLower),
     (0xA78D, 0xA78D, [0, - 42280, 0]), (0xA790, 0xA793, upperLower),
     (0xA794, 0xA794, [48, 0, 48]), (0xA796, 0xA7A9, upperLower),
     (0xA7AA, 0xA7AA, [0, - 42308, 0]), (0xA7AB, 0xA7AB, [0, - 42319, 0]),
     (0xA7AC, 0xA7AC, [0, - 42315, 0]), (0xA7AD, 0xA7AD, [0, - 42305, 0]),
     (0xA7AE, 0xA7AE, [0, - 42308, 0]), (0xA7B0, 0xA7B0, [0, - 42258, 0]),
     (0xA7B1, 0xA7B1, [0, - 42282, 0]), (0xA7B2, 0xA7B2, [0, - 42261, 0]),
     (0xA7B3, 0xA7B3, [0, 928, 0]), (0xA7B4, 0xA7C3, upperLower), (0xA7C4, 0xA7C4, [0, - 48, 0]),
     (0xA7C5, 0xA7C5, [0, - 42307, 0]), (0xA7C6, 0xA7C6, [0, - 35384, 0]),
     (0xA7C7, 0xA7CA, upperLower), (0xA7D0, 0xA7D1, upperLower), (0xA7D6, 0xA7D9, upperLower),
     (0xA7F5, 0xA7F6, upperLower), (0xAB53, 0xAB53, [- 928, 0, - 928]),
     (0xAB70, 0xABBF, [- 38864, 0, - 38864]), (0xFF21, 0xFF3A, [0, 32, 0]),
     (0xFF41, 0xFF5A, [- 32, 0, - 32]), (0x10400, 0x10427, [0, 40, 0]),
     (0x10428, 0x1044F, [- 40, 0, - 40]), (0x104B0, 0x104D3, [0, 40, 0]),
     (0x104D8, 0x104FB, [- 40, 0, - 40]), (0x10570, 0x1057A, [0, 39, 0]),
     (0x1057C, 0x1058A, [0, 39, 0]), (0x1058C, 0x10592, [0, 39, 0]),
     (0x10594, 0x10595, [0, 39, 0]), (0x10597, 0x105A1, [- 39, 0, - 39]),
     (0x105A3, 0x105B1, [- 39, 0, - 39]), (0x105B3, 0x105B9, [- 39, 0, - 39]),
     (0x105BB, 0x105BC, [- 39, 0, - 39]), (0x10C80, 0x10CB2, [0, 64, 0]),
     (0x10CC0, 0x10CF2, [- 64, 0, - 64]), (0x118A0, 0x118BF, [0, 32, 0]),
     (0x118C0, 0x118DF, [- 32, 0, - 32]), (0x16E40, 0x16E5F, [0, 32, 0]),
     (0x16E60, 0x16E7F, [- 32, 0, - 32]), (0x1E900, 0x1E921, [0, 34, 0]),
     (0x1E922, 0x1E943, [- 34, 0, - 34])
    ]"

text \<open>
  \<open>to(_case, r, caseRange)\<close>: the binary search for the range that holds \<open>r\<close>. In a
  range of alternating letters the offset from \<open>Lo\<close> gets its lowest bit from \<open>_case\<close>:
  \<open>(r - Lo) &^ 1 | _case & 1\<close>.
\<close>

function to_search :: "nat \<Rightarrow> rune \<Rightarrow> CaseRange list \<Rightarrow> nat \<Rightarrow> nat \<Rightarrow> rune \<times> bool" where
  "to_search c r caseRange lo hi =
     (if lo < hi then
        (let m = lo + (hi - lo) div 2;
             crLo = fst (caseRange ! m);
             crHi = fst (snd (caseRange ! m));
             delta = snd (snd (caseRange ! m)) ! c
         in if crLo \<le> r \<and> r \<le> crHi then
              (if delta > int MaxRune then (crLo + (2 * ((r - crLo) div 2) + c mod 2), True)
               else (nat (int r + delta), True))
            else if r < crLo then to_search c r caseRange lo m
            else to_search c r caseRange (m + 1) hi)
      else (r, False))"
  by pat_completeness auto
termination
  by (relation "measure (\<lambda>(c, r, caseRange, lo, hi). hi - lo)") auto

declare to_search.simps [simp del]

definition to :: "nat \<Rightarrow> rune \<Rightarrow> CaseRange list \<Rightarrow> rune \<times> bool" where
  "to c r caseRange =
     (if MaxCase \<le> c then (ReplacementChar, False)
      else to_search c r caseRange 0 (length caseRange))"

definition To :: "nat \<Rightarrow> rune \<Rightarrow> rune" where
  "To c r = fst (to c r CaseRanges)"

text \<open>\<open>unicode.ToUpper\<close> and \<open>unicode.ToLower\<close>, with their branch for ASCII.\<close>

definition unicode_ToUpper :: "rune \<Rightarrow> rune" where
  "unicode_ToUpper r =
     (if r \<le> MaxASCII then (if 97 \<le> r \<and> r \<le> 122 then r - 32 else r)
      else To UpperCase r)"

definition unicode_ToLower :: "rune \<Rightarrow> rune" where
  "unicode_ToLower r =
     (if r \<le> MaxASCII then (if 65 \<le> r \<and> r \<le> 90 then r + 32 else r)
      else To LowerCase r)"

text \<open>
  \<open>unicode.SimpleFold\<close> walks through the runes that are equal under Unicode's simple
  case folding: it returns the smallest such rune above \<open>r\<close>, and the smallest of all when
  there is none above. Go reads this from the tables \<open>asciiFold\<close> and \<open>caseOrbit\<close> and
  from \<open>ToLower\<close> and \<open>ToUpper\<close>; its generator computes the two tables from the
  foldings of kind \<open>C\<close> and \<open>S\<close> in \<open>CaseFolding.txt\<close>. Here the function is computed from
  these foldings themselves. An entry \<open>(lo, hi, stride, f)\<close> of \<open>foldRanges\<close> says that the
  runes \<open>lo\<close>, \<open>lo + stride\<close>, ... up to \<open>hi\<close> fold to \<open>f\<close>, \<open>f + stride\<close>, ...; a rune in no
  entry folds to itself.
\<close>

type_synonym foldRange = "rune \<times> rune \<times> nat \<times> rune"

definition foldRanges :: "foldRange list" where
  "foldRanges =
    [
     (0x0041, 0x005A, 1, 0x0061), (0x00B5, 0x00B5, 1, 0x03BC), (0x00C0, 0x00D6, 1, 0x00E0),
     (0x00D8, 0x00DE, 1, 0x00F8), (0x0100, 0x012E, 2, 0x0101), (0x0132, 0x0136, 2, 0x0133),
     (0x0139, 0x0147, 2, 0x013A), (0x014A, 0x0176, 2, 0x014B), (0x0178, 0x0178, 1, 0x00FF),
     (0x0179, 0x017D, 2, 0x017A), (0x017F, 0x017F, 1, 0x0073), (0x0181, 0x0181, 1, 0x0253),
     (0x0182, 0x0184, 2, 0x0183), (0x0186, 0x0186, 1, 0x0254), (0x0187, 0x0187, 1, 0x0188),
     (0x0189, 0x018A, 1, 0x0256), (0x018B, 0x018B, 1, 0x018C), (0x018E, 0x018E, 1, 0x01DD),
     (0x018F, 0x018F, 1, 0x0259), (0x0190, 0x0190, 1, 0x025B), (0x0191, 0x0191, 1, 0x0192),
     (0x0193, 0x0193, 1, 0x0260), (0x0194, 0x0194, 1, 0x0263), (0x0196, 0x0196, 1, 0x0269),
     (0x0197, 0x0197, 1, 0x0268), (0x0198, 0x0198, 1, 0x0199), (0x019C, 0x019C, 1, 0x026F),
     (0x019D, 0x019D, 1, 0x0272), (0x019F, 0x019F, 1, 0x0275), (0x01A0, 0x01A4, 2, 0x01A1),
     (0x01A6, 0x01A6, 1, 0x0280), (0x01A7, 0x01A7, 1, 0x01A8), (0x01A9, 0x01A9, 1, 0x0283),
     (0x01AC, 0x01AC, 1, 0x01AD), (0x01AE, 0x01AE, 1, 0x0288), (0x01AF, 0x01AF, 1, 0x01B0),
     (0x01B1, 0x01B2, 1, 0x028A), (0x01B3, 0x01B5, 2, 0x01B4), (0x01B7, 0x01B7, 1, 0x0292),
     (0x01B8, 0x01B8, 1, 0x01B9), (0x01BC, 0x01BC, 1, 0x01BD), (0x01C4, 0x01C4, 1, 0x01C6),
     (0x01C5, 0x01C5, 1, 0x01C6), (0x01C7, 0x01C7, 1, 0x01C9), (0x01C8, 0x01C8, 1, 0x01C9),
     (0x01CA, 0x01CA, 1, 0x01CC), (0x01CB, 0x01DB, 2, 0x01CC), (0x01DE, 0x01EE, 2, 0x01DF),
     (0x01F1, 0x01F1, 1, 0x01F3), (0x01F2, 0x01F4, 2, 0x01F3), (0x01F6, 0x01F6, 1, 0x0195),
     (0x01F7, 0x01F7, 1, 0x01BF), (0x01F8, 0x021E, 2, 0x01F9), (0x0220, 0x0220, 1, 0x019E),
     (0x0222, 0x0232, 2, 0x0223), (0x023A, 0x023A, 1, 0x2C65), (0x023B, 0x023B, 1, 0x023C),
     (0x023D, 0x023D, 1, 0x019A), (0x023E, 0x023E, 1, 0x2C66), (0x0241, 0x0241, 1, 0x0242),
     (0x0243, 0x0243, 1, 0x0180), (0x0244, 0x0244, 1, 0x0289), (0x0245, 0x0245, 1, 0x028C),
     (0x0246, 0x024E, 2, 0x0247), (0x0345, 0x0345, 1, 0x03B9), (0x0370, 0x0372, 2, 0x0371),
     (0x0376, 0x0376, 1, 0x0377), (0x037F, 0x037F, 1, 0x03F3), (0x0386, 0x0386, 1, 0x03AC),
     (0x0388, 0x038A, 1, 0x03AD), (0x038C, 0x038C, 1, 0x03CC), (0x038E, 0x038F, 1, 0x03CD),
     (0x0391, 0x03A1, 1, 0x03B1), (0x03A3, 0x03AB, 1, 0x03C3), (0x03C2, 0x03C2, 1, 0x03C3),
     (0x03CF, 0x03CF, 1, 0x03D7), (0x03D0, 0x03D0, 1, 0x03B2), (0x03D1, 0x03D1, 1, 0x03B8),
     (0x03D5, 0x03D5, 1, 0x03C6), (0x03D6, 0x03D6, 1, 0x03C0), (0x03D8, 0x03EE, 2, 0x03D9),
     (0x03F0, 0x03F0, 1, 0x03BA), (0x03F1, 0x03F1, 1, 0x03C1), (0x03F4, 0x03F4, 1, 0x03B8),
     (0x03F5, 0x03F5, 1, 0x03B5), (0x03F7, 0x03F7, 1, 0x03F8), (0x03F9, 0x03F9, 1, 0x03F2),
     (0x03FA, 0x03FA, 1, 0x03FB), (0x03FD, 0x03FF, 1, 0x037B), (0x0400, 0x040F, 1, 0x0450),
     (0x0410, 0x042F, 1, 0x0430), (0x0460, 0x0480, 2, 0x0461), (0x048A, 0x04BE, 2, 0x048B),
     (0x04C0, 0x04C0, 1, 0x04CF), (0x04C1, 0x04CD, 2, 0x04C2), (0x04D0, 0x052E, 2, 0x04D1),
     (0x0531, 0x0556, 1, 0x0561), (0x10A0, 0x10C5, 1, 0x2D00), (0x10C7, 0x10C7, 1, 0x2D27),
     (0x10CD, 0x10CD, 1, 0x2D2D), (0x13F8, 0x13FD, 1, 0x13F0), (0x1C80, 0x1C80, 1, 0x0432),
     (0x1C81, 0x1C81, 1, 0x0434), (0x1C82, 0x1C82, 1, 0x043E), (0x1C83, 0x1C84, 1, 0x0441),
     (0x1C85, 0x1C85, 1, 0x0442), (0x1C86, 0x1C86, 1, 0x044A), (0x1C87, 0x1C87, 1, 0x0463),
     (0x1C88, 0x1C88, 1, 0xA64B), (0x1C90, 0x1CBA, 1, 0x10D0), (0x1CBD, 0x1CBF, 1, 0x10FD),
     (0x1E00, 0x1E94, 2, 0x1E01), (0x1E9B, 0x1E9B, 1, 0x1E61), (0x1E9E, 0x1E9E, 1, 0x00DF),
     (0x1EA0, 0x1EFE, 2, 0x1EA1), (0x1F08, 0x1F0F, 1, 0x1F00), (0x1F18, 0x1F1D, 1, 0x1F10),
     (0x1F28, 0x1F2F, 1, 0x1F20), (0x1F38, 0x1F3F, 1, 0x1F30), (0x1F48, 0x1F4D, 1, 0x1F40),
     (0x1F59, 0x1F5F, 2, 0x1F51), (0x1F68, 0x1F6F, 1, 0x1F60), (0x1F88, 0x1F8F, 1, 0x1F80),
     (0x1F98, 0x1F9F, 1, 0x1F90), (0x1FA8, 0x1FAF, 1, 0x1FA0), (0x1FB8, 0x1FB9, 1, 0x1FB0),
     (0x1FBA, 0x1FBB, 1, 0x1F70), (0x1FBC, 0x1FBC, 1, 0x1FB3), (0x1FBE, 0x1FBE, 1, 0x03B9),
     (0x1FC8, 0x1FCB, 1, 0x1F72), (0x1FCC, 0x1FCC, 1, 0x1FC3), (0x1FD8, 0x1FD9, 1, 0x1FD0),
     (0x1FDA, 0x1FDB, 1, 0x1F76), (0x1FE8, 0x1FE9, 1, 0x1FE0), (0x1FEA, 0x1FEB, 1, 0x1F7A),
     (0x1FEC, 0x1FEC, 1, 0x1FE5), (0x1FF8, 0x1FF9, 1, 0x1F78), (0x1FFA, 0x1FFB, 1, 0x1F7C),
     (0x1FFC, 0x1FFC, 1, 0x1FF3), (0x2126, 0x2126, 1, 0x03C9), (0x212A, 0x212A, 1, 0x006B),
     (0x212B, 0x212B, 1, 0x00E5), (0x2132, 0x2132, 1, 0x214E), (0x2160, 0x216F, 1, 0x2170),
     (0x2183, 0x2183, 1, 0x2184), (0x24B6, 0x24CF, 1, 0x24D0), (0x2C00, 0x2C2F, 1, 0x2C30),
     (0x2C60, 0x2C60, 1, 0x2C61), (0x2C62, 0x2C62, 1, 0x026B), (0x2C63, 0x2C63, 1, 0x1D7D),
     (0x2C64, 0x2C64, 1, 0x027D), (0x2C67, 0x2C6B, 2, 0x2C68), (0x2C6D, 0x2C6D, 1, 0x0251),
     (0x2C6E, 0x2C6E, 1, 0x0271), (0x2C6F, 0x2C6F, 1, 0x0250), (0x2C70, 0x2C70, 1, 0x0252),
     (0x2C72, 0x2C72, 1, 0x2C73), (0x2C75, 0x2C75, 1, 0x2C76), (0x2C7E, 0x2C7F, 1, 0x023F),
     (0x2C80, 0x2CE2, 2, 0x2C81), (0x2CEB, 0x2CED, 2, 0x2CEC), (0x2CF2, 0x2CF2, 1, 0x2CF3),
     (0xA640, 0xA66C, 2, 0xA641), (0xA680, 0xA69A, 2, 0xA681), (0xA722, 0xA72E, 2, 0xA723),
     (0xA732, 0xA76E, 2, 0xA733), (0xA779, 0xA77B, 2, 0xA77A), (0xA77D, 0xA77D, 1, 0x1D79),
     (0xA77E, 0xA786, 2, 0xA77F), (0xA78B, 0xA78B, 1, 0xA78C), (0xA78D, 0xA78D, 1, 0x0265),
     (0xA790, 0xA792, 2, 0xA791), (0xA796, 0xA7A8, 2, 0xA797), (0xA7AA, 0xA7AA, 1, 0x0266),
     (0xA7AB, 0xA7AB, 1, 0x025C), (0xA7AC, 0xA7AC, 1, 0x0261), (0xA7AD, 0xA7AD, 1, 0x026C),
     (0xA7AE, 0xA7AE, 1, 0x026A), (0xA7B0, 0xA7B0, 1, 0x029E), (0xA7B1, 0xA7B1, 1, 0x0287),
     (0xA7B2, 0xA7B2, 1, 0x029D), (0xA7B3, 0xA7B3, 1, 0xAB53), (0xA7B4, 0xA7C2, 2, 0xA7B5),
     (0xA7C4, 0xA7C4, 1, 0xA794), (0xA7C5, 0xA7C5, 1, 0x0282), (0xA7C6, 0xA7C6, 1, 0x1D8E),
     (0xA7C7, 0xA7C9, 2, 0xA7C8), (0xA7D0, 0xA7D0, 1, 0xA7D1), (0xA7D6, 0xA7D8, 2, 0xA7D7),
     (0xA7F5, 0xA7F5, 1, 0xA7F6), (0xAB70, 0xABBF, 1, 0x13A0), (0xFF21, 0xFF3A, 1, 0xFF41),
     (0x10400, 0x10427, 1, 0x10428), (0x104B0, 0x104D3, 1, 0x104D8),
     (0x10570, 0x1057A, 1, 0x10597), (0x1057C, 0x1058A, 1, 0x105A3),
     (0x1058C, 0x10592, 1, 0x105B3), (0x10594, 0x10595, 1, 0x105BB),
     (0x10C80, 0x10CB2, 1, 0x10CC0), (0x118A0, 0x118BF, 1, 0x118C0),
     (0x16E40, 0x16E5F, 1, 0x16E60), (0x1E900, 0x1E921, 1, 0x1E922)
    ]"

text \<open>The folding of a rune, and the runes of the entries that fold to a given rune.\<close>

fun foldIn :: "rune \<Rightarrow> foldRange list \<Rightarrow> rune" where
  "foldIn r [] = r"
| "foldIn r ((lo, hi, stride, f) # rest) =
     (if lo \<le> r \<and> r \<le> hi \<and> (r - lo) mod stride = 0 then f + (r - lo) else foldIn r rest)"

fun foldedTo :: "rune \<Rightarrow> foldRange list \<Rightarrow> rune list" where
  "foldedTo f [] = []"
| "foldedTo f ((lo, hi, stride, g) # rest) =
     (if g \<le> f \<and> lo + (f - g) \<le> hi \<and> (f - g) mod stride = 0
      then (lo + (f - g)) # foldedTo f rest
      else foldedTo f rest)"

definition caseFold :: "rune \<Rightarrow> rune" where
  "caseFold r = foldIn r foldRanges"

text \<open>The runes with the folding of \<open>r\<close>, in increasing order.\<close>

definition foldOrbit :: "rune \<Rightarrow> rune list" where
  "foldOrbit r =
     (let f = caseFold r
      in sort (remdups (filter (\<lambda>x. caseFold x = f) (f # foldedTo f foldRanges))))"

definition SimpleFold :: "rune \<Rightarrow> rune" where
  "SimpleFold r =
     (case filter (\<lambda>x. r < x) (foldOrbit r) of
        x # _ \<Rightarrow> x
      | [] \<Rightarrow> (case foldOrbit r of x # _ \<Rightarrow> x | [] \<Rightarrow> r))"

subsection \<open>strings: letter case\<close>

text \<open>\<open>utf8.RuneLen\<close>: the number of bytes of a rune's encoding, \<open>-1\<close> when it has none.\<close>

definition RuneLen :: "rune \<Rightarrow> int" where
  "RuneLen r =
     (if r \<le> 0x7F then 1
      else if r \<le> 0x7FF then 2
      else if 0xD800 \<le> r \<and> r \<le> 0xDFFF then - 1
      else if r \<le> 0xFFFF then 3
      else if r \<le> MaxRune then 4
      else - 1)"

text \<open>
  \<open>strings.Map(mapping, s)\<close>. The first loop looks for the first rune that \<open>mapping\<close>
  changes, or that is a byte that is not UTF-8; without one the string is returned as it
  is. The second loop writes the mapped runes of what follows. A negative result of
  \<open>mapping\<close>, which drops the rune, does not occur with the mappings of this file.
\<close>

fun mapRest :: "(rune \<Rightarrow> rune) \<Rightarrow> (nat \<times> rune) list \<Rightarrow> string" where
  "mapRest mapping [] = []"
| "mapRest mapping ((i, c) # rest) = encodeRune (mapping c) @ mapRest mapping rest"

fun mapFirst :: "(rune \<Rightarrow> rune) \<Rightarrow> string \<Rightarrow> (nat \<times> rune) list \<Rightarrow> string" where
  "mapFirst mapping s [] = s"
| "mapFirst mapping s ((i, c) # rest) =
     (let r = mapping c in
      if r = c \<and> c \<noteq> RuneError then mapFirst mapping s rest
      else
        let width = (if c = RuneError then int (snd (DecodeRuneInString (drop i s)))
                     else RuneLen c)
        in if c = RuneError \<and> width \<noteq> 1 \<and> r = c then mapFirst mapping s rest
           else take i s @ encodeRune r
                @ mapRest mapping (rangeString (drop (nat (int i + width)) s)))"

definition Map :: "(rune \<Rightarrow> rune) \<Rightarrow> string \<Rightarrow> string" where
  "Map mapping s = mapFirst mapping s (rangeString s)"

text \<open>
  \<open>strings.ToLower\<close> and \<open>strings.ToUpper\<close>: a string of ASCII bytes is mapped byte by
  byte (and returned as it is when no byte changes), any other string goes through \<open>Map\<close>.
\<close>

definition isASCII :: "string \<Rightarrow> bool" where
  "isASCII s = list_all (\<lambda>c. byte c < RuneSelf) s"

definition hasUpper :: "string \<Rightarrow> bool" where
  "hasUpper s = list_ex (\<lambda>c. 65 \<le> byte c \<and> byte c \<le> 90) s"

definition hasLower :: "string \<Rightarrow> bool" where
  "hasLower s = list_ex (\<lambda>c. 97 \<le> byte c \<and> byte c \<le> 122) s"

definition toLowerByte :: "char \<Rightarrow> char" where
  "toLowerByte c = (if 65 \<le> byte c \<and> byte c \<le> 90 then chr (byte c + 32) else c)"

definition toUpperByte :: "char \<Rightarrow> char" where
  "toUpperByte c = (if 97 \<le> byte c \<and> byte c \<le> 122 then chr (byte c - 32) else c)"

definition ToLower :: "string \<Rightarrow> string" where
  "ToLower s =
     (if isASCII s then (if \<not> hasUpper s then s else map toLowerByte s)
      else Map unicode_ToLower s)"

definition ToUpper :: "string \<Rightarrow> string" where
  "ToUpper s =
     (if isASCII s then (if \<not> hasLower s then s else map toUpperByte s)
      else Map unicode_ToUpper s)"

text \<open>
  \<open>strings.EqualFold\<close>. \<open>equalFoldBytes\<close> is the first loop, over the bytes of both
  strings as long as they are ASCII. \<open>equalFoldRunes\<close> is the loop after the label
  \<open>hasUnicode\<close>, over the runes of what is left of \<open>s\<close>, taking one rune off \<open>t\<close> each time.
  \<open>equalRunes\<close> is the comparison of the two runes, \<open>foldRunes\<close> its general case: from
  the smaller rune \<open>sr\<close>, \<open>SimpleFold\<close> is applied until the rune is \<open>sr\<close> again or is not
  below \<open>tr\<close>.
\<close>

definition foldRunes :: "rune \<Rightarrow> rune \<Rightarrow> bool" where
  "foldRunes sr tr =
     (case while_option (\<lambda>r. r \<noteq> sr \<and> r < tr) SimpleFold (SimpleFold sr) of
        Some r \<Rightarrow> r = tr
      | None \<Rightarrow> False)"

definition equalRunes :: "rune \<Rightarrow> rune \<Rightarrow> bool" where
  "equalRunes sr0 tr0 =
     (if tr0 = sr0 then True
      else
        let sr = min sr0 tr0;
            tr = max sr0 tr0
        in if tr < RuneSelf then 65 \<le> sr \<and> sr \<le> 90 \<and> tr = sr + 32
           else foldRunes sr tr)"

fun equalFoldRunes :: "rune list \<Rightarrow> string \<Rightarrow> bool" where
  "equalFoldRunes [] t = (t = [])"
| "equalFoldRunes (sr # rest) t =
     (if t = [] then False
      else
        let tr = (if byte (hd t) < RuneSelf then byte (hd t) else fst (DecodeRuneInString t));
            t' = (if byte (hd t) < RuneSelf then tl t else drop (snd (DecodeRuneInString t)) t)
        in if equalRunes sr tr then equalFoldRunes rest t' else False)"

fun equalFoldBytes :: "string \<Rightarrow> string \<Rightarrow> bool" where
  "equalFoldBytes (a # s) (b # t) =
     (if RuneSelf \<le> byte a \<or> RuneSelf \<le> byte b
      then equalFoldRunes (map snd (rangeString (a # s))) (b # t)
      else if b = a then equalFoldBytes s t
      else
        let sr = min (byte a) (byte b);
            tr = max (byte a) (byte b)
        in if 65 \<le> sr \<and> sr \<le> 90 \<and> tr = sr + 32 then equalFoldBytes s t else False)"
| "equalFoldBytes s t = (length s = length t)"

definition EqualFold :: "string \<Rightarrow> string \<Rightarrow> bool" where
  "EqualFold s t = equalFoldBytes s t"

subsection \<open>The resolved configuration\<close>

text \<open>
  \<open>connectParams\<close>. A \<open>uint64\<close> that only ever holds what \<open>ParseUint\<close> returned is a
  \<^typ>\<open>nat\<close>; \<open>packetSize\<close> is a \<open>uint16\<close> and \<open>typeFlags\<close> a \<open>uint8\<close>; a
  \<open>time.Duration\<close> is an \<open>int64\<close> of nanoseconds.
\<close>

record connectParams =
  logFlags :: nat
  port :: nat
  host :: string
  "instance" :: string
  database :: string
  user :: string
  password :: string
  dial_timeout :: "64 word"
  conn_timeout :: "64 word"
  keepAlive :: "64 word"
  encrypt :: bool
  disableEncryption :: bool
  trustServerCertificate :: bool
  certificate :: string
  hostInCertificate :: string
  hostInCertificateProvided :: bool
  serverSPN :: string
  workstation :: string
  appname :: string
  typeFlags :: "8 word"
  failOverPartner :: string
  failOverPort :: nat
  packetSize :: "16 word"
  fedAuthLibrary :: int
  fedAuthADALWorkflow :: "8 word"
  columnEncryption :: bool
  keyStoreAuthentication :: string
  keyStoreLocation :: string
  keyStoreSecret :: string

text \<open>
  What the file reads from outside itself. \<open>os.Stat\<close> and \<open>os.Hostname\<close> ask the
  operating system; \<open>fedAuthLibraryReserved\<close> and \<open>fReadOnlyIntent\<close> are constants of
  the package declared in another file. \<open>mapOrder\<close> is the order in which a \<open>range\<close>
  over a Go map visits the entries, which the language leaves open.
\<close>

record env =
  os_Stat :: "string \<Rightarrow> bool"
  os_Hostname :: "string option"
  fedAuthLibraryReserved :: int
  fReadOnlyIntent :: "8 word"
  mapOrder :: "(string \<times> string list) list \<Rightarrow> (string \<times> string list) list"

type_synonym params = "string \<rightharpoonup> string"

text \<open>\<open>params[k]\<close>: the empty string when the key is absent.\<close>

definition index :: "params \<Rightarrow> string \<Rightarrow> string" where
  "index m k = (case m k of None \<Rightarrow> [] | Some v \<Rightarrow> v)"

definition defaultServerPort :: nat where
  "defaultServerPort = 1433"

definition defaultPacketSize :: nat where
  "defaultPacketSize = 4096"

definition PFXKeystoreAuth :: string where
  "PFXKeystoreAuth = ''pfx''"

definition Second :: "64 word" where
  "Second = 1000000000"

definition resolveServerPort :: "nat \<Rightarrow> nat" where
  "resolveServerPort port' = (if port' = 0 then defaultServerPort else port')"

definition generateSpn :: "string \<Rightarrow> nat \<Rightarrow> string" where
  "generateSpn host' port' = ''MSSQLSvc/'' @ host' @ '':'' @ FormatUint port'"

text \<open>The zero value of the struct, with \<open>fedAuthLibrary: fedAuthLibraryReserved\<close>.\<close>

definition initialParams :: "env \<Rightarrow> connectParams" where
  "initialParams E =
     \<lparr> logFlags = 0, port = 0, host = [], instance = [], database = [], user = [],
       password = [], dial_timeout = 0, conn_timeout = 0, keepAlive = 0, encrypt = False,
       disableEncryption = False, trustServerCertificate = False, certificate = [],
       hostInCertificate = [], hostInCertificateProvided = False, serverSPN = [],
       workstation = [], appname = [], typeFlags = 0, failOverPartner = [],
       failOverPort = 0, packetSize = 0, fedAuthLibrary = fedAuthLibraryReserved E,
       fedAuthADALWorkflow = 0, columnEncryption = False, keyStoreAuthentication = [],
       keyStoreLocation = [], keyStoreSecret = [] \<rparr>"

subsection \<open>parseConnectParams, from the parameter map on\<close>

text \<open>
  The body of \<open>parseConnectParams\<close> after the tokenizer is a sequence of blocks, one for
  each parameter. Each block is a function from the struct \<open>p\<close> to the updated struct or
  the error the block returns; \<open>runBlocks\<close> runs them in the order of the source and
  stops at the first error. (On an error the Go function also returns the struct as far
  as it was filled; only the error is kept here.)
\<close>

type_synonym block = "connectParams \<Rightarrow> error + connectParams"

fun runBlocks :: "block list \<Rightarrow> block" where
  "runBlocks [] p = Inr p"
| "runBlocks (b # bs) p = (case b p of Inl e \<Rightarrow> Inl e | Inr p' \<Rightarrow> runBlocks bs p')"

definition blockLog :: "params \<Rightarrow> block" where
  "blockLog m p =
     (case m ''log'' of
        Some strlog \<Rightarrow>
          (case ParseUint strlog 10 64 of
             Inl err \<Rightarrow> Inl (InvalidLog strlog err)
           | Inr n \<Rightarrow> Inr (p\<lparr>logFlags := n\<rparr>))
      | None \<Rightarrow> Inr p)"

definition blockServer :: "params \<Rightarrow> block" where
  "blockServer m p =
     (let server = index m ''server'';
          parts = SplitN2 (CHR 0x5C) server
      in case parts of
           [] \<Rightarrow> Inl IndexOutOfRange
         | part0 # rest \<Rightarrow>
             let p1 = p\<lparr>host := part0\<rparr>;
                 p2 = (if host p1 = ''.'' \<or> ToUpper (host p1) = ''(LOCAL)'' \<or> host p1 = []
                       then p1\<lparr>host := ''localhost''\<rparr> else p1);
                 p3 = (if length parts > 1 then p2\<lparr>instance := parts ! 1\<rparr> else p2)
             in Inr (p3\<lparr>database := index m ''database'', user := index m ''user id'',
                        password := index m ''password''\<rparr>))"

definition blockPort :: "params \<Rightarrow> block" where
  "blockPort m p =
     (case m ''port'' of
        Some strport \<Rightarrow>
          (case ParseUint strport 10 16 of
             Inl err \<Rightarrow> Inl (InvalidPort strport err)
           | Inr n \<Rightarrow> Inr (p\<lparr>port := n\<rparr>))
      | None \<Rightarrow> Inr (p\<lparr>port := 0\<rparr>))"

text \<open>
  \<open>uint16(psize)\<close> is \<open>word_of_nat\<close>; the comparisons are those of \<open>uint16\<close>.
\<close>

definition blockPacketSize :: "params \<Rightarrow> block" where
  "blockPacketSize m p =
     (case m ''packet size'' of
        Some strpsize \<Rightarrow>
          (case ParseUint strpsize 0 16 of
             Inl err \<Rightarrow> Inl (InvalidPacketSize strpsize err)
           | Inr psize \<Rightarrow>
               let p1 = p\<lparr>packetSize := word_of_nat psize\<rparr>
               in Inr (if packetSize p1 < 512 then p1\<lparr>packetSize := 512\<rparr>
                       else if packetSize p1 > 32767 then p1\<lparr>packetSize := 32767\<rparr>
                       else p1))
      | None \<Rightarrow> Inr (p\<lparr>packetSize := word_of_nat defaultPacketSize\<rparr>))"

text \<open>\<open>time.Duration(timeout) * time.Second\<close>: the product of two \<open>int64\<close>, which wraps.\<close>

definition blockConnTimeout :: "params \<Rightarrow> block" where
  "blockConnTimeout m p =
     (case m ''connection timeout'' of
        Some strconntimeout \<Rightarrow>
          (case ParseUint strconntimeout 10 64 of
             Inl err \<Rightarrow> Inl (InvalidConnTimeout strconntimeout err)
           | Inr timeout \<Rightarrow> Inr (p\<lparr>conn_timeout := word_of_nat timeout * Second\<rparr>))
      | None \<Rightarrow> Inr p)"

definition blockDialTimeout :: "params \<Rightarrow> block" where
  "blockDialTimeout m p =
     (case m ''dial timeout'' of
        Some strdialtimeout \<Rightarrow>
          (case ParseUint strdialtimeout 10 64 of
             Inl err \<Rightarrow> Inl (InvalidDialTimeout strdialtimeout err)
           | Inr timeout \<Rightarrow> Inr (p\<lparr>dial_timeout := word_of_nat timeout * Second\<rparr>))
      | None \<Rightarrow> Inr (p\<lparr>dial_timeout := 15 * Second\<rparr>))"

definition blockKeepAlive :: "params \<Rightarrow> block" where
  "blockKeepAlive m p =
     (case m ''keepalive'' of
        Some keepAlive' \<Rightarrow>
          (case ParseUint keepAlive' 10 64 of
             Inl err \<Rightarrow> Inl (InvalidKeepAlive keepAlive' err)
           | Inr timeout \<Rightarrow> Inr (p\<lparr>keepAlive := word_of_nat timeout * Second\<rparr>))
      | None \<Rightarrow> Inr (p\<lparr>keepAlive := 30 * Second\<rparr>))"

definition blockEncrypt :: "params \<Rightarrow> block" where
  "blockEncrypt m p =
     (case m ''encrypt'' of
        Some encrypt' \<Rightarrow>
          if EqualFold encrypt' ''DISABLE'' then Inr (p\<lparr>disableEncryption := True\<rparr>)
          else (case ParseBool encrypt' of
                  Inl err \<Rightarrow> Inl (InvalidEncrypt encrypt' err)
                | Inr b \<Rightarrow> Inr (p\<lparr>encrypt := b\<rparr>))
      | None \<Rightarrow> Inr (p\<lparr>trustServerCertificate := True\<rparr>))"

definition blockColumnEncryption :: "params \<Rightarrow> block" where
  "blockColumnEncryption m p =
     (case m ''columnencryption'' of
        Some columnEncryption' \<Rightarrow>
          if EqualFold columnEncryption' ''true'' then Inr (p\<lparr>columnEncryption := True\<rparr>)
          else (case ParseBool columnEncryption' of
                  Inl err \<Rightarrow> Inl (InvalidColumnEncryption columnEncryption' err)
                | Inr b \<Rightarrow> Inr (p\<lparr>columnEncryption := b\<rparr>))
      | None \<Rightarrow> Inr (p\<lparr>columnEncryption := False\<rparr>))"

definition blockKeyStoreAuthentication :: "params \<Rightarrow> block" where
  "blockKeyStoreAuthentication m p =
     (case m ''keystoreauthentication'' of
        Some ksAuth \<Rightarrow>
          if ToLower ksAuth = ''pfx'' then Inr (p\<lparr>keyStoreAuthentication := PFXKeystoreAuth\<rparr>)
          else Inl (InvalidKeyStoreAuthentication ksAuth)
      | None \<Rightarrow> Inr p)"

definition blockKeyStoreLocation :: "env \<Rightarrow> params \<Rightarrow> block" where
  "blockKeyStoreLocation E m p =
     (case m ''keystorelocation'' of
        Some ksLocation \<Rightarrow>
          if ksLocation = [] then Inl (InvalidKeyStoreLocation ksLocation)
          else if \<not> os_Stat E ksLocation then Inl (KeyStoreNotFound ksLocation)
          else Inr (p\<lparr>keyStoreLocation := ksLocation\<rparr>)
      | None \<Rightarrow> Inr p)"

definition blockKeyStoreSecret :: "params \<Rightarrow> block" where
  "blockKeyStoreSecret m p =
     (case m ''keystoresecret'' of
        Some ksSecret \<Rightarrow> Inr (p\<lparr>keyStoreSecret := ksSecret\<rparr>)
      | None \<Rightarrow> Inr p)"

definition blockTrust :: "params \<Rightarrow> block" where
  "blockTrust m p =
     (case m ''trustservercertificate'' of
        Some trust \<Rightarrow>
          (case ParseBool trust of
             Inl err \<Rightarrow> Inl (InvalidTrustServerCertificate trust err)
           | Inr b \<Rightarrow> Inr (p\<lparr>trustServerCertificate := b\<rparr>))
      | None \<Rightarrow> Inr p)"

definition blockCertificate :: "params \<Rightarrow> block" where
  "blockCertificate m p =
     (let p1 = p\<lparr>certificate := index m ''certificate''\<rparr>
      in case m ''hostnameincertificate'' of
           Some v \<Rightarrow> Inr (p1\<lparr>hostInCertificate := v, hostInCertificateProvided := True\<rparr>)
         | None \<Rightarrow> Inr (p1\<lparr>hostInCertificate := host p1, hostInCertificateProvided := False\<rparr>))"

definition blockServerSPN :: "params \<Rightarrow> block" where
  "blockServerSPN m p =
     (case m ''serverspn'' of
        Some serverSPN' \<Rightarrow> Inr (p\<lparr>serverSPN := serverSPN'\<rparr>)
      | None \<Rightarrow> Inr (p\<lparr>serverSPN := generateSpn (host p) (resolveServerPort (port p))\<rparr>))"

definition blockWorkstation :: "env \<Rightarrow> params \<Rightarrow> block" where
  "blockWorkstation E m p =
     (case m ''workstation id'' of
        Some workstation' \<Rightarrow> Inr (p\<lparr>workstation := workstation'\<rparr>)
      | None \<Rightarrow>
          (case os_Hostname E of
             Some workstation' \<Rightarrow> Inr (p\<lparr>workstation := workstation'\<rparr>)
           | None \<Rightarrow> Inr p))"

definition blockAppname :: "params \<Rightarrow> block" where
  "blockAppname m p =
     (let appname' = (case m ''app name'' of Some v \<Rightarrow> v | None \<Rightarrow> ''go-mssqldb'')
      in Inr (p\<lparr>appname := appname'\<rparr>))"

definition blockAppIntent :: "env \<Rightarrow> params \<Rightarrow> block" where
  "blockAppIntent E m p =
     (case m ''applicationintent'' of
        Some appintent \<Rightarrow>
          if appintent = ''ReadOnly'' then
            (if database p = [] then Inl DatabaseMustBeSpecified
             else Inr (p\<lparr>typeFlags := typeFlags p OR fReadOnlyIntent E\<rparr>))
          else Inr p
      | None \<Rightarrow> Inr p)"

definition blockFailOver :: "params \<Rightarrow> block" where
  "blockFailOver m p =
     (let p1 = (case m ''failoverpartner'' of
                  Some failOverPartner' \<Rightarrow> p\<lparr>failOverPartner := failOverPartner'\<rparr>
                | None \<Rightarrow> p)
      in case m ''failoverport'' of
           Some failOverPort' \<Rightarrow>
             (case ParseUint failOverPort' 0 16 of
                Inl err \<Rightarrow> Inl (InvalidFailOverPort failOverPort' err)
              | Inr n \<Rightarrow> Inr (p1\<lparr>failOverPort := n\<rparr>))
         | None \<Rightarrow> Inr p1)"

text \<open>
  \<open>parseConnectParams\<close> from line 79 of the source to its end: the blocks in the order
  of the source, on the struct \<open>connectParams{fedAuthLibrary: fedAuthLibraryReserved}\<close>.
\<close>

definition resolveBlocks :: "env \<Rightarrow> params \<Rightarrow> block list" where
  "resolveBlocks E m =
     [blockLog m, blockServer m, blockPort m, blockPacketSize m, blockConnTimeout m,
      blockDialTimeout m, blockKeepAlive m, blockEncrypt m, blockColumnEncryption m,
      blockKeyStoreAuthentication m, blockKeyStoreLocation E m, blockKeyStoreSecret m,
      blockTrust m, blockCertificate m, blockServerSPN m, blockWorkstation E m,
      blockAppname m, blockAppIntent E m, blockFailOver m]"

definition resolveParams :: "env \<Rightarrow> params \<Rightarrow> error + connectParams" where
  "resolveParams E m = runBlocks (resolveBlocks E m) (initialParams E)"

subsection \<open>splitConnectionString: the semicolon syntax\<close>

text \<open>
  The body of the loop over \<open>strings.Split(dsn, ";")\<close>: \<open>part\<close> is one segment and
  \<open>res\<close> the map built so far. \<open>lst[0]\<close> exists because \<open>SplitN\<close> returns at least one
  part; were it missing, Go would panic.
\<close>

definition splitPart :: "string \<Rightarrow> params \<Rightarrow> params" where
  "splitPart part res =
     (if length part = 0 then res
      else let lst = SplitN2 (CHR ''='') part;
               name = TrimSpace (ToLower (case lst of [] \<Rightarrow> [] | l0 # _ \<Rightarrow> l0))
           in if length name = 0 then res
              else let value = (if length lst > 1 then TrimSpace (lst ! 1) else [])
                   in res(name \<mapsto> value))"

fun splitParts :: "string list \<Rightarrow> params \<Rightarrow> params" where
  "splitParts [] res = res"
| "splitParts (part # parts) res = splitParts parts (splitPart part res)"

definition splitConnectionString :: "string \<Rightarrow> params" where
  "splitConnectionString dsn = splitParts (Split (CHR '';'') dsn) Map.empty"

subsection \<open>splitConnectionStringOdbc: the ODBC syntax\<close>

datatype parserState =
    parserStateBeforeKey
  | parserStateKey
  | parserStateBeginValue
  | parserStateBareValue
  | parserStateBracedValue
  | parserStateBracedValueClosingBrace
  | parserStateEndValue

text \<open>The variables of the function: \<open>state\<close>, \<open>key\<close>, \<open>value\<close> and the map \<open>res\<close>.\<close>

record parser =
  state :: parserState
  key :: string
  "value" :: string
  res :: params

definition normalizeOdbcKey :: "string \<Rightarrow> string" where
  "normalizeOdbcKey s = ToLower (TrimRightSpace s)"

text \<open>
  One turn of \<open>for i, c := range dsn\<close>: the \<open>switch state\<close> on the rune \<open>c\<close> at byte
  offset \<open>i\<close>. The runes \<open>=\<close>, \<open>;\<close>, \<open>{\<close> and \<open>}\<close> are 61, 59, 123 and 125.
  \<open>key += string(c)\<close> appends the encoding of the rune.
\<close>

definition odbcStep :: "parser \<Rightarrow> nat \<times> rune \<Rightarrow> error + parser" where
  "odbcStep P ic =
     (let i = fst ic; c = snd ic in
      case state P of
        parserStateBeforeKey \<Rightarrow>
          if c = 61 then Inl (UnexpectedEquals i)
          else if \<not> IsSpace c \<and> c \<noteq> 59
          then Inr (P\<lparr>state := parserStateKey, key := key P @ encodeRune c\<rparr>)
          else Inr P
      | parserStateKey \<Rightarrow>
          if c = 61
          then Inr (P\<lparr>key := normalizeOdbcKey (key P), state := parserStateBeginValue\<rparr>)
          else if c = 59
          then Inr (P\<lparr>res := (res P)(normalizeOdbcKey (key P) \<mapsto> value P), key := [],
                       value := [], state := parserStateBeforeKey\<rparr>)
          else Inr (P\<lparr>key := key P @ encodeRune c\<rparr>)
      | parserStateBeginValue \<Rightarrow>
          if c = 123 then Inr (P\<lparr>state := parserStateBracedValue\<rparr>)
          else if c = 59
          then Inr (P\<lparr>res := (res P)(key P \<mapsto> value P), key := [],
                       state := parserStateBeforeKey\<rparr>)
          else if IsSpace c then Inr P
          else Inr (P\<lparr>state := parserStateBareValue, value := value P @ encodeRune c\<rparr>)
      | parserStateBareValue \<Rightarrow>
          if c = 59
          then Inr (P\<lparr>res := (res P)(key P \<mapsto> TrimRightSpace (value P)), key := [],
                       value := [], state := parserStateBeforeKey\<rparr>)
          else Inr (P\<lparr>value := value P @ encodeRune c\<rparr>)
      | parserStateBracedValue \<Rightarrow>
          if c = 125 then Inr (P\<lparr>state := parserStateBracedValueClosingBrace\<rparr>)
          else Inr (P\<lparr>value := value P @ encodeRune c\<rparr>)
      | parserStateBracedValueClosingBrace \<Rightarrow>
          if c = 125
          then Inr (P\<lparr>value := value P @ encodeRune c, state := parserStateBracedValue\<rparr>)
          else let P1 = P\<lparr>res := (res P)(key P \<mapsto> value P), key := [], value := [],
                          state := parserStateEndValue\<rparr>
               in if c = 59 then Inr (P1\<lparr>state := parserStateBeforeKey\<rparr>)
                  else if IsSpace c then Inr P1
                  else Inl (UnexpectedCharacter c i)
      | parserStateEndValue \<Rightarrow>
          if c = 59 then Inr (P\<lparr>state := parserStateBeforeKey\<rparr>)
          else if IsSpace c then Inr P
          else Inl (UnexpectedCharacter c i))"

fun odbcLoop :: "(nat \<times> rune) list \<Rightarrow> parser \<Rightarrow> error + parser" where
  "odbcLoop [] P = Inr P"
| "odbcLoop (ic # rest) P =
     (case odbcStep P ic of Inl e \<Rightarrow> Inl e | Inr P' \<Rightarrow> odbcLoop rest P')"

text \<open>The \<open>switch state\<close> after the loop; \<open>n\<close> is \<open>len(dsn)\<close>.\<close>

definition odbcFinish :: "nat \<Rightarrow> parser \<Rightarrow> error + params" where
  "odbcFinish n P =
     (case state P of
        parserStateBeforeKey \<Rightarrow> Inr (res P)
      | parserStateKey \<Rightarrow> Inr ((res P)(normalizeOdbcKey (key P) \<mapsto> value P))
      | parserStateBeginValue \<Rightarrow> Inr ((res P)(key P \<mapsto> value P))
      | parserStateBareValue \<Rightarrow> Inr ((res P)(key P \<mapsto> TrimRightSpace (value P)))
      | parserStateBracedValue \<Rightarrow> Inl (UnexpectedEndOfBracedValue n)
      | parserStateBracedValueClosingBrace \<Rightarrow> Inr ((res P)(key P \<mapsto> value P))
      | parserStateEndValue \<Rightarrow> Inr (res P))"

definition odbcStart :: parser where
  "odbcStart = \<lparr> state = parserStateBeforeKey, key = [], value = [], res = Map.empty \<rparr>"

definition splitConnectionStringOdbc :: "string \<Rightarrow> error + params" where
  "splitConnectionStringOdbc dsn =
     (case odbcLoop (rangeString dsn) odbcStart of
        Inl e \<Rightarrow> Inl e
      | Inr P \<Rightarrow> odbcFinish (length dsn) P)"

text \<open>
  How a value is written between braces: every \<open>}\<close> of the value twice, every other
  rune once. (Not part of the source: the inputs of the property of braced values.)
\<close>

definition doubleBraces :: "rune list \<Rightarrow> rune list" where
  "doubleBraces v = concat (map (\<lambda>c. if c = 125 then [125, 125] else [c]) v)"

subsection \<open>net/url\<close>

datatype encoding =
    encodePath
  | encodePathSegment
  | encodeHost
  | encodeZone
  | encodeUserPassword
  | encodeQueryComponent
  | encodeFragment

definition isAlpha :: "char \<Rightarrow> bool" where
  "isAlpha c = ((97 \<le> byte c \<and> byte c \<le> 122) \<or> (65 \<le> byte c \<and> byte c \<le> 90))"

definition isDigit :: "char \<Rightarrow> bool" where
  "isDigit c = (48 \<le> byte c \<and> byte c \<le> 57)"

text \<open>
  \<open>shouldEscape(c, mode)\<close>. The inner \<open>switch mode\<close> has no case for the host and zone
  modes: a reserved character falls through it to the end of the function there.
\<close>

definition shouldEscape :: "char \<Rightarrow> encoding \<Rightarrow> bool" where
  "shouldEscape c mode =
     (if isAlpha c \<or> isDigit c then False
      else if (mode = encodeHost \<or> mode = encodeZone)
              \<and> c \<in> set (''!$&()*+,;=:[]<>'' @ [CHR 0x27, CHR 0x22]) then False
      else if c \<in> set ''-_.~'' then False
      else if c \<in> set ''$&+,/:;=?@'' \<and> mode = encodePath then c = CHR ''?''
      else if c \<in> set ''$&+,/:;=?@'' \<and> mode = encodePathSegment then c \<in> set ''/;,?''
      else if c \<in> set ''$&+,/:;=?@'' \<and> mode = encodeUserPassword then c \<in> set ''@/?:''
      else if c \<in> set ''$&+,/:;=?@'' \<and> mode = encodeQueryComponent then True
      else if c \<in> set ''$&+,/:;=?@'' \<and> mode = encodeFragment then False
      else if mode = encodeFragment \<and> c \<in> set ''!()*'' then False
      else True)"

definition ishex :: "char \<Rightarrow> bool" where
  "ishex c = (isDigit c \<or> (97 \<le> byte c \<and> byte c \<le> 102) \<or> (65 \<le> byte c \<and> byte c \<le> 70))"

definition unhex :: "char \<Rightarrow> nat" where
  "unhex c =
     (if isDigit c then byte c - 48
      else if 97 \<le> byte c \<and> byte c \<le> 102 then byte c - 97 + 10
      else if 65 \<le> byte c \<and> byte c \<le> 70 then byte c - 65 + 10
      else 0)"

definition upperhex :: "nat \<Rightarrow> char" where
  "upperhex n = ''0123456789ABCDEF'' ! n"

text \<open>
  \<open>unescape(s, mode)\<close>. The code checks the whole string first and decodes it in a second
  pass; one pass from the left that stops at the first error returns the same.
\<close>

fun unescape :: "string \<Rightarrow> encoding \<Rightarrow> urlError + string" where
  "unescape [] mode = Inr []"
| "unescape (c # cs) mode =
     (if c = CHR ''%'' then
        (case cs of
           h1 # h2 # rest \<Rightarrow>
             if \<not> ishex h1 \<or> \<not> ishex h2 then Inl (EscapeError (take 3 (c # cs)))
             else if mode = encodeHost \<and> unhex h1 < 8 \<and> [c, h1, h2] \<noteq> ''%25''
             then Inl (EscapeError [c, h1, h2])
             else if mode = encodeZone \<and> [c, h1, h2] \<noteq> ''%25''
                     \<and> chr (unhex h1 * 16 + unhex h2) \<noteq> CHR '' ''
                     \<and> shouldEscape (chr (unhex h1 * 16 + unhex h2)) encodeHost
             then Inl (EscapeError [c, h1, h2])
             else (case unescape rest mode of
                     Inl e \<Rightarrow> Inl e
                   | Inr t \<Rightarrow> Inr (chr (unhex h1 * 16 + unhex h2) # t))
         | _ \<Rightarrow> Inl (EscapeError (take 3 (c # cs))))
      else if c = CHR ''+'' then
        (case unescape cs mode of
           Inl e \<Rightarrow> Inl e
         | Inr t \<Rightarrow> Inr ((if mode = encodeQueryComponent then CHR '' '' else CHR ''+'') # t))
      else if (mode = encodeHost \<or> mode = encodeZone) \<and> byte c < 128 \<and> shouldEscape c encodeHost
      then Inl (InvalidHostError [c])
      else (case unescape cs mode of Inl e \<Rightarrow> Inl e | Inr t \<Rightarrow> Inr (c # t)))"

definition escapeByte :: "encoding \<Rightarrow> char \<Rightarrow> string" where
  "escapeByte mode c =
     (if shouldEscape c mode then
        (if c = CHR '' '' \<and> mode = encodeQueryComponent then ''+''
         else [CHR ''%'', upperhex (byte c div 16), upperhex (byte c mod 16)])
      else [c])"

definition escape :: "string \<Rightarrow> encoding \<Rightarrow> string" where
  "escape s mode = concat (map (escapeByte mode) s)"

definition QueryEscape :: "string \<Rightarrow> string" where
  "QueryEscape s = escape s encodeQueryComponent"

definition QueryUnescape :: "string \<Rightarrow> urlError + string" where
  "QueryUnescape s = unescape s encodeQueryComponent"

text \<open>
  \<open>url.URL\<close>. \<open>User\<close> is \<open>nil\<close> or a \<open>Userinfo\<close>: the user name, and the password when
  one is set.
\<close>

record URL =
  Scheme :: string
  Opaque :: string
  User :: "(string \<times> string option) option"
  Host :: string
  Path :: string
  RawPath :: string
  OmitHost :: bool
  ForceQuery :: bool
  RawQuery :: string
  Fragment :: string
  RawFragment :: string

definition emptyURL :: URL where
  "emptyURL = \<lparr> Scheme = [], Opaque = [], User = None, Host = [], Path = [], RawPath = [],
                 OmitHost = False, ForceQuery = False, RawQuery = [], Fragment = [],
                 RawFragment = [] \<rparr>"

definition stringContainsCTLByte :: "string \<Rightarrow> bool" where
  "stringContainsCTLByte s = (\<exists>c \<in> set s. byte c < 32 \<or> byte c = 127)"

fun getSchemeLoop :: "nat \<Rightarrow> string \<Rightarrow> string \<Rightarrow> urlError + (string \<times> string)" where
  "getSchemeLoop i [] rawURL = Inr ([], rawURL)"
| "getSchemeLoop i (c # cs) rawURL =
     (if isAlpha c then getSchemeLoop (i + 1) cs rawURL
      else if isDigit c \<or> c = CHR ''+'' \<or> c = CHR ''-'' \<or> c = CHR ''.'' then
        (if i = 0 then Inr ([], rawURL) else getSchemeLoop (i + 1) cs rawURL)
      else if c = CHR '':'' then
        (if i = 0 then Inl (UrlError ''missing protocol scheme'')
         else Inr (take i rawURL, drop (i + 1) rawURL))
      else Inr ([], rawURL))"

definition getScheme :: "string \<Rightarrow> urlError + (string \<times> string)" where
  "getScheme rawURL = getSchemeLoop 0 rawURL rawURL"

text \<open>\<open>strings.Index\<close>, \<open>strings.LastIndex\<close> (for one byte) and \<open>strings.Index\<close> for a string.\<close>

fun Index :: "char \<Rightarrow> string \<Rightarrow> nat option" where
  "Index sep [] = None"
| "Index sep (c # cs) = (if c = sep then Some 0 else map_option Suc (Index sep cs))"

definition LastIndex :: "char \<Rightarrow> string \<Rightarrow> nat option" where
  "LastIndex sep s = map_option (\<lambda>i. length s - 1 - i) (Index sep (rev s))"

fun IndexString :: "string \<Rightarrow> string \<Rightarrow> nat option" where
  "IndexString sub [] = (if sub = [] then Some 0 else None)"
| "IndexString sub (c # cs) =
     (if HasPrefix (c # cs) sub then Some 0 else map_option Suc (IndexString sub cs))"

definition validOptionalPort :: "string \<Rightarrow> bool" where
  "validOptionalPort port' =
     (case port' of
        [] \<Rightarrow> True
      | c # cs \<Rightarrow> c = CHR '':'' \<and> (\<forall>b \<in> set cs. isDigit b))"

text \<open>
  \<open>validUserinfo\<close> ranges over runes and accepts ASCII letters, digits and some ASCII
  punctuation only; a byte from \<open>0x80\<close> on gives a rune from \<open>0x80\<close> on, which it refuses.
\<close>

definition validUserinfo :: "string \<Rightarrow> bool" where
  "validUserinfo s =
     (\<forall>c \<in> set s. isAlpha c \<or> isDigit c \<or> c \<in> set (''-._:~!$&()*+,;=%@'' @ [CHR 0x27]))"

definition parseHost :: "string \<Rightarrow> urlError + string" where
  "parseHost host' =
     (if HasPrefix host' ''['' then
        (case LastIndex (CHR '']'') host' of
           None \<Rightarrow> Inl (UrlError ''missing ] in host'')
         | Some i \<Rightarrow>
             if \<not> validOptionalPort (drop (i + 1) host')
             then Inl (UrlError (''invalid port after host: '' @ drop (i + 1) host'))
             else (case IndexString ''%25'' (take i host') of
                     Some zone \<Rightarrow>
                       (case unescape (take zone host') encodeHost of
                          Inl e \<Rightarrow> Inl e
                        | Inr host1 \<Rightarrow>
                            (case unescape (drop zone (take i host')) encodeZone of
                               Inl e \<Rightarrow> Inl e
                             | Inr host2 \<Rightarrow>
                                 (case unescape (drop i host') encodeHost of
                                    Inl e \<Rightarrow> Inl e
                                  | Inr host3 \<Rightarrow> Inr (host1 @ host2 @ host3))))
                   | None \<Rightarrow> unescape host' encodeHost))
      else (case LastIndex (CHR '':'') host' of
              Some i \<Rightarrow>
                if \<not> validOptionalPort (drop i host')
                then Inl (UrlError (''invalid port after host: '' @ drop i host'))
                else unescape host' encodeHost
            | None \<Rightarrow> unescape host' encodeHost))"

definition parseAuthority :: "string \<Rightarrow> urlError + ((string \<times> string option) option \<times> string)" where
  "parseAuthority authority =
     (case LastIndex (CHR ''@'') authority of
        None \<Rightarrow>
          (case parseHost authority of Inl e \<Rightarrow> Inl e | Inr host' \<Rightarrow> Inr (None, host'))
      | Some i \<Rightarrow>
          (case parseHost (drop (i + 1) authority) of
             Inl e \<Rightarrow> Inl e
           | Inr host' \<Rightarrow>
               let userinfo = take i authority in
               if \<not> validUserinfo userinfo then Inl (UrlError ''net/url: invalid userinfo'')
               else (case Cut (CHR '':'') userinfo of
                       None \<Rightarrow>
                         (case unescape userinfo encodeUserPassword of
                            Inl e \<Rightarrow> Inl e
                          | Inr username \<Rightarrow> Inr (Some (username, None), host'))
                     | Some (username0, password0) \<Rightarrow>
                         (case unescape username0 encodeUserPassword of
                            Inl e \<Rightarrow> Inl e
                          | Inr username \<Rightarrow>
                              (case unescape password0 encodeUserPassword of
                                 Inl e \<Rightarrow> Inl e
                               | Inr password' \<Rightarrow>
                                   Inr (Some (username, Some password'), host'))))))"

definition setPath :: "URL \<Rightarrow> string \<Rightarrow> urlError + URL" where
  "setPath u p =
     (case unescape p encodePath of
        Inl e \<Rightarrow> Inl e
      | Inr path \<Rightarrow>
          Inr (u\<lparr>Path := path, RawPath := (if p = escape path encodePath then [] else p)\<rparr>))"

definition setFragment :: "URL \<Rightarrow> string \<Rightarrow> urlError + URL" where
  "setFragment u f =
     (case unescape f encodeFragment of
        Inl e \<Rightarrow> Inl e
      | Inr frag \<Rightarrow>
          Inr (u\<lparr>Fragment := frag,
                 RawFragment := (if f = escape frag encodeFragment then [] else f)\<rparr>))"

text \<open>
  \<open>parse(rawURL, viaRequest)\<close> with \<open>viaRequest = false\<close>, as \<open>url.Parse\<close> calls it, in
  three parts. \<open>cutQuery\<close> is the step that takes the query off the text after the
  scheme: a single \<open>?\<close> at the very end sets \<open>ForceQuery\<close>, otherwise the text is cut at
  the first \<open>?\<close>.
\<close>

definition cutQuery :: "string \<Rightarrow> URL \<Rightarrow> string \<times> URL" where
  "cutQuery rest0 u =
     (if rest0 \<noteq> [] \<and> last rest0 = CHR ''?'' \<and> count_list rest0 (CHR ''?'') = 1
      then (butlast rest0, u\<lparr>ForceQuery := True\<rparr>)
      else case Cut (CHR ''?'') rest0 of
             None \<Rightarrow> (rest0, u)
           | Some (before, after) \<Rightarrow> (before, u\<lparr>RawQuery := after\<rparr>))"

text \<open>
  \<open>parseHier\<close> is the function from there on: a rootless path after a scheme is opaque;
  after \<open>//\<close> comes the authority, up to the next \<open>/\<close>; what is left is the path.
\<close>

definition parseHier :: "URL \<Rightarrow> string \<Rightarrow> urlError + URL" where
  "parseHier u rest =
     (if \<not> HasPrefix rest ''/'' \<and> Scheme u \<noteq> [] then Inr (u\<lparr>Opaque := rest\<rparr>)
      else if \<not> HasPrefix rest ''/''
              \<and> CHR '':'' \<in> set (case Cut (CHR ''/'') rest of
                                     None \<Rightarrow> rest
                                   | Some (segment, _) \<Rightarrow> segment)
      then Inl (UrlError ''first path segment in URL cannot contain colon'')
      else if (Scheme u \<noteq> [] \<or> \<not> HasPrefix rest ''///'') \<and> HasPrefix rest ''//'' then
        (let authority0 = drop 2 rest;
             authority = (case Cut (CHR ''/'') authority0 of
                            None \<Rightarrow> authority0
                          | Some (before, _) \<Rightarrow> before);
             rest' = drop (length authority) authority0
         in case parseAuthority authority of
              Inl e \<Rightarrow> Inl e
            | Inr (user', host') \<Rightarrow> setPath (u\<lparr>User := user', Host := host'\<rparr>) rest')
      else if Scheme u \<noteq> [] \<and> HasPrefix rest ''/'' then setPath (u\<lparr>OmitHost := True\<rparr>) rest
      else setPath u rest)"

definition parse :: "string \<Rightarrow> urlError + URL" where
  "parse rawURL =
     (if stringContainsCTLByte rawURL
      then Inl (UrlError ''net/url: invalid control character in URL'')
      else if rawURL = ''*'' then Inr (emptyURL\<lparr>Path := ''*''\<rparr>)
      else case getScheme rawURL of
        Inl e \<Rightarrow> Inl e
      | Inr (scheme, rest0) \<Rightarrow>
          (case cutQuery rest0 (emptyURL\<lparr>Scheme := ToLower scheme\<rparr>) of
             (rest, u) \<Rightarrow> parseHier u rest))"

text \<open>\<open>url.Parse\<close>: the fragment is cut off first and set last.\<close>

definition Parse :: "string \<Rightarrow> urlError + URL" where
  "Parse rawURL =
     (let u = (case Cut (CHR ''#'') rawURL of None \<Rightarrow> rawURL | Some (before, _) \<Rightarrow> before);
          frag = (case Cut (CHR ''#'') rawURL of None \<Rightarrow> [] | Some (_, after) \<Rightarrow> after)
      in case parse u of
           Inl e \<Rightarrow> Inl e
         | Inr url \<Rightarrow> if frag = [] then Inr url else setFragment url frag)"

text \<open>
  \<open>url.Values\<close> is a map from a key to the list of its values: here the list of its
  entries, with distinct keys, a new key at the end. \<open>Add\<close> appends a value to the list
  of its key.
\<close>

type_synonym Values = "(string \<times> string list) list"

fun Add :: "Values \<Rightarrow> string \<Rightarrow> string \<Rightarrow> Values" where
  "Add [] k v = [(k, [v])]"
| "Add ((k', vs) # rest) k v = (if k' = k then (k', vs @ [v]) # rest else (k', vs) # Add rest k v)"

text \<open>
  \<open>parseQuery\<close>: the pairs between \<open>&\<close>. A pair with a semicolon, an empty pair and a
  pair whose key or value does not unescape are left out; \<open>URL.Query\<close> drops the error
  that \<open>ParseQuery\<close> returns for them. \<open>acceptedPair\<close> is the key and value of a pair that
  is not left out.
\<close>

definition acceptedPair :: "string \<Rightarrow> (string \<times> string) option" where
  "acceptedPair pair =
     (if CHR '';'' \<in> set pair then None
      else if pair = [] then None
      else let kv = (case Cut (CHR ''='') pair of None \<Rightarrow> (pair, []) | Some (k, v) \<Rightarrow> (k, v))
           in case QueryUnescape (fst kv) of
                Inl _ \<Rightarrow> None
              | Inr key' \<Rightarrow>
                  (case QueryUnescape (snd kv) of
                     Inl _ \<Rightarrow> None
                   | Inr value' \<Rightarrow> Some (key', value')))"

definition parsePair :: "string \<Rightarrow> Values \<Rightarrow> Values" where
  "parsePair pair m = (case acceptedPair pair of None \<Rightarrow> m | Some (k, v) \<Rightarrow> Add m k v)"

fun parsePairs :: "string list \<Rightarrow> Values \<Rightarrow> Values" where
  "parsePairs [] m = m"
| "parsePairs (pair # pairs) m = parsePairs pairs (parsePair pair m)"

definition Query :: "URL \<Rightarrow> Values" where
  "Query u = (if RawQuery u = [] then [] else parsePairs (Split (CHR ''&'') (RawQuery u)) [])"

text \<open>
  The values that the pairs of the query give for a key, in their order: the occurrences
  of the key in the query. (Not part of the source: it states which DSNs repeat a key.)
\<close>

definition queryOccurrences :: "URL \<Rightarrow> string \<Rightarrow> string list" where
  "queryOccurrences u k =
     map snd (filter (\<lambda>kv. fst kv = k) (List.map_filter acceptedPair (Split (CHR ''&'') (RawQuery u))))"

text \<open>\<open>Values.Encode\<close>: the keys sorted, every value as \<open>key=value\<close>, joined by \<open>&\<close>.\<close>

fun joinAmp :: "string list \<Rightarrow> string" where
  "joinAmp [] = []"
| "joinAmp [x] = x"
| "joinAmp (x # y # rest) = x @ ''&'' @ joinAmp (y # rest)"

definition encodeEntry :: "string \<times> string list \<Rightarrow> string list" where
  "encodeEntry kv = map (\<lambda>v. QueryEscape (fst kv) @ ''='' @ QueryEscape v) (snd kv)"

definition Encode :: "Values \<Rightarrow> string" where
  "Encode v = joinAmp (concat (map encodeEntry (sort_key fst v)))"

text \<open>\<open>validEncoded\<close>, \<open>URL.EscapedPath\<close>, \<open>URL.EscapedFragment\<close>, \<open>Userinfo.String\<close> and \<open>URL.String\<close>.\<close>

definition validEncoded :: "string \<Rightarrow> encoding \<Rightarrow> bool" where
  "validEncoded s mode =
     (\<forall>c \<in> set s. c \<in> set (''!$&()*+,;=:@[]%'' @ [CHR 0x27]) \<or> \<not> shouldEscape c mode)"

definition EscapedPath :: "URL \<Rightarrow> string" where
  "EscapedPath u =
     (if RawPath u \<noteq> [] \<and> validEncoded (RawPath u) encodePath
         \<and> unescape (RawPath u) encodePath = Inr (Path u) then RawPath u
      else if Path u = ''*'' then ''*''
      else escape (Path u) encodePath)"

definition EscapedFragment :: "URL \<Rightarrow> string" where
  "EscapedFragment u =
     (if RawFragment u \<noteq> [] \<and> validEncoded (RawFragment u) encodeFragment
         \<and> unescape (RawFragment u) encodeFragment = Inr (Fragment u) then RawFragment u
      else escape (Fragment u) encodeFragment)"

definition UserinfoString :: "string \<times> string option \<Rightarrow> string" where
  "UserinfoString ui =
     escape (fst ui) encodeUserPassword
     @ (case snd ui of None \<Rightarrow> [] | Some pw \<Rightarrow> '':'' @ escape pw encodeUserPassword)"

definition URLString :: "URL \<Rightarrow> string" where
  "URLString u =
     (let buf1 = (if Scheme u \<noteq> [] then Scheme u @ '':'' else []);
          buf2 =
            (if Opaque u \<noteq> [] then buf1 @ Opaque u
             else
               let buf3 =
                     (if (Scheme u \<noteq> [] \<or> Host u \<noteq> [] \<or> User u \<noteq> None)
                         \<and> \<not> (OmitHost u \<and> Host u = [] \<and> User u = None)
                      then buf1
                           @ (if Host u \<noteq> [] \<or> Path u \<noteq> [] \<or> User u \<noteq> None then ''//'' else [])
                           @ (case User u of None \<Rightarrow> [] | Some ui \<Rightarrow> UserinfoString ui @ ''@'')
                           @ (if Host u \<noteq> [] then escape (Host u) encodeHost else [])
                      else buf1);
                   path = EscapedPath u;
                   buf4 = (if path \<noteq> [] \<and> hd path \<noteq> CHR ''/'' \<and> Host u \<noteq> []
                           then buf3 @ ''/'' else buf3);
                   buf5 = (if buf4 = []
                              \<and> CHR '':'' \<in> set (case Cut (CHR ''/'') path of
                                                     None \<Rightarrow> path
                                                   | Some (segment, _) \<Rightarrow> segment)
                           then ''./'' else buf4)
               in buf5 @ path);
          buf6 = (if ForceQuery u \<or> RawQuery u \<noteq> [] then buf2 @ ''?'' @ RawQuery u else buf2)
      in if Fragment u \<noteq> [] then buf6 @ ''#'' @ EscapedFragment u else buf6)"

subsection \<open>net.SplitHostPort\<close>

text \<open>The host and the port of \<open>host:port\<close> or \<open>[host]:port\<close>; \<open>None\<close> for an \<open>AddrError\<close>.\<close>

definition SplitHostPort :: "string \<Rightarrow> (string \<times> string) option" where
  "SplitHostPort hostport =
     (case LastIndex (CHR '':'') hostport of
        None \<Rightarrow> None
      | Some i \<Rightarrow>
          if hd hostport = CHR ''['' then
            (case Index (CHR '']'') hostport of
               None \<Rightarrow> None
             | Some end' \<Rightarrow>
                 if end' + 1 = length hostport then None
                 else if end' + 1 \<noteq> i then None
                 else if CHR ''['' \<in> set (drop 1 hostport) then None
                 else if CHR '']'' \<in> set (drop (end' + 1) hostport) then None
                 else Some (drop 1 (take end' hostport), drop (i + 1) hostport))
          else if CHR '':'' \<in> set (take i hostport) then None
          else if CHR ''['' \<in> set hostport then None
          else if CHR '']'' \<in> set hostport then None
          else Some (take i hostport, drop (i + 1) hostport))"

subsection \<open>splitConnectionStringURL: the URL syntax\<close>

text \<open>
  The loop \<open>for k, v := range query\<close> over the entries of the map in the order the
  \<open>range\<close> visits them. \<open>v[0]\<close> on an empty list would panic.
\<close>

fun queryLoop :: "(string \<times> string list) list \<Rightarrow> params \<Rightarrow> error + params" where
  "queryLoop [] res0 = Inr res0"
| "queryLoop ((k, v) # rest) res0 =
     (if length v > 1 then Inl (KeyProvidedMoreThanOnce k)
      else case v of
             [] \<Rightarrow> Inl IndexOutOfRange
           | v0 # _ \<Rightarrow> queryLoop rest (res0(ToLower k \<mapsto> v0)))"

text \<open>
  The function from the parsed URL on: the user, the server and the port, then the
  query. \<open>u.Path[1:]\<close> is \<open>tl\<close> of a path that is not empty.
\<close>

definition urlParams :: "env \<Rightarrow> URL \<Rightarrow> error + params" where
  "urlParams E u =
     (if Scheme u \<noteq> ''sqlserver'' then Inl (SchemeNotRecognized (Scheme u))
      else let res1 = (case User u of
                         None \<Rightarrow> Map.empty
                       | Some (username, None) \<Rightarrow> [''user id'' \<mapsto> username]
                       | Some (username, Some p) \<Rightarrow> [''user id'' \<mapsto> username, ''password'' \<mapsto> p]);
               host' = (case SplitHostPort (Host u) of None \<Rightarrow> Host u | Some (h, _) \<Rightarrow> h);
               port' = (case SplitHostPort (Host u) of None \<Rightarrow> [] | Some (_, p) \<Rightarrow> p);
               res2 = (if length (Path u) > 0
                       then res1(''server'' \<mapsto> host' @ [CHR 0x5C] @ tl (Path u))
                       else res1(''server'' \<mapsto> host'));
               res3 = (if length port' > 0 then res2(''port'' \<mapsto> port') else res2)
           in queryLoop (mapOrder E (Query u)) res3)"

definition splitConnectionStringURL :: "env \<Rightarrow> string \<Rightarrow> error + params" where
  "splitConnectionStringURL E dsn =
     (case Parse dsn of
        Inl err \<Rightarrow> Inl (UrlParseError err)
      | Inr u \<Rightarrow> urlParams E u)"

subsection \<open>parseConnectParams\<close>

definition parseConnectParams :: "env \<Rightarrow> string \<Rightarrow> error + connectParams" where
  "parseConnectParams E dsn =
     (if HasPrefix dsn ''odbc:'' then
        (case splitConnectionStringOdbc (drop (length ''odbc:'') dsn) of
           Inl err \<Rightarrow> Inl err
         | Inr parameters \<Rightarrow> resolveParams E parameters)
      else if HasPrefix dsn ''sqlserver://'' then
        (case splitConnectionStringURL E dsn of
           Inl err \<Rightarrow> Inl err
         | Inr parameters \<Rightarrow> resolveParams E parameters)
      else resolveParams E (splitConnectionString dsn))"

subsection \<open>toUrl\<close>

text \<open>The first part of the function: the query \<open>q\<close>, a \<open>url.Values\<close>.\<close>

definition toUrlValues :: "connectParams \<Rightarrow> Values" where
  "toUrlValues p =
     (let q0 = ([] :: Values);
          q1 = (if database p \<noteq> [] then Add q0 ''database'' (database p) else q0);
          q2 = (if logFlags p \<noteq> 0 then Add q1 ''log'' (FormatUint (logFlags p)) else q1);
          q3 = (if columnEncryption p then Add q2 ''columnEncryption'' ''true'' else q2);
          q4 = (if keyStoreAuthentication p \<noteq> []
                then Add q3 ''keyStoreAuthentication'' (keyStoreAuthentication p) else q3);
          q5 = (if keyStoreLocation p \<noteq> []
                then Add q4 ''keyStoreLocation'' (keyStoreLocation p) else q4)
      in if keyStoreSecret p \<noteq> []
         then Add q5 ''keyStoreSecret'' (keyStoreSecret p) else q5)"

definition toUrl :: "connectParams \<Rightarrow> URL" where
  "toUrl p =
     (let q = toUrlValues p;
          res0 = emptyURL\<lparr>Scheme := ''sqlserver'', Host := host p,
                          User := Some (user p, Some (password p))\<rparr>;
          res1 = (if instance p \<noteq> [] then res0\<lparr>Path := instance p\<rparr> else res0)
      in if length q > 0 then res1\<lparr>RawQuery := Encode q\<rparr> else res1)"

subsection \<open>An environment for the examples\<close>

text \<open>
  One file exists, the machine has a name, the two constants have the values \<open>0x7F\<close>
  and \<open>32\<close>, and a \<open>range\<close> over a map visits the entries in the order they were added.
\<close>

definition exampleEnv :: env where
  "exampleEnv =
     \<lparr> os_Stat = (\<lambda>path. path = ''/etc/keys/store.pfx''),
       os_Hostname = Some ''devbox'',
       fedAuthLibraryReserved = 127,
       fReadOnlyIntent = 32,
       mapOrder = (\<lambda>entries. entries) \<rparr>"
section \<open>Properties\<close>

subsection \<open>The walk of EqualFold through the runes of a folding ends\<close>

text \<open>
  \<open>foldOrbit r\<close> holds exactly the runes with the folding of \<open>r\<close>, so it is the same list
  for each of them, and \<open>SimpleFold\<close> steps through it cyclically.
\<close>

lemma foldIn_cases:
  "foldIn x t = f \<Longrightarrow> x = f \<or> x \<in> set (foldedTo f t)"
proof (induction t)
  case Nil
  then show ?case
    by simp
next
  case (Cons e t)
  obtain lo hi stride g where e: "e = (lo, hi, stride, g)"
    by (cases e) auto
  show ?case
  proof (cases "lo \<le> x \<and> x \<le> hi \<and> (x - lo) mod stride = 0")
    case True
    with Cons.prems e have f: "f = g + (x - lo)"
      by simp
    with True have "g \<le> f" and "f - g = x - lo"
      by arith+
    with True e show ?thesis
      by simp
  next
    case False
    with Cons.prems e have "foldIn x t = f"
      by auto
    from Cons.IH [OF this] e show ?thesis
      by auto
  qed
qed

lemma set_foldOrbit:
  "set (foldOrbit r) = {x. caseFold x = caseFold r}"
proof -
  have "x \<in> set (caseFold r # foldedTo (caseFold r) foldRanges)" if "caseFold x = caseFold r" for x
    using foldIn_cases [of x foldRanges "caseFold r"] that by (auto simp: caseFold_def)
  then show ?thesis
    by (auto simp: foldOrbit_def Let_def)
qed

lemma foldOrbit_sorted:
  "sorted (foldOrbit r)" "distinct (foldOrbit r)"
  by (simp_all add: foldOrbit_def Let_def)

lemma foldOrbit_eq:
  "caseFold x = caseFold r \<Longrightarrow> foldOrbit x = foldOrbit r"
  by (simp add: foldOrbit_def)

lemma filter_above_nth:
  "sorted xs \<Longrightarrow> distinct xs \<Longrightarrow> i < length xs \<Longrightarrow>
     filter (\<lambda>x. xs ! i < x) xs = drop (Suc i) (xs :: nat list)"
proof (induction xs arbitrary: i)
  case Nil
  then show ?case
    by simp
next
  case (Cons a as)
  show ?case
  proof (cases i)
    case 0
    have "\<forall>x \<in> set as. a < x"
      using Cons.prems(1,2) by (auto simp: order_less_le)
    then have "filter (\<lambda>x. a < x) as = as"
      by (simp add: filter_id_conv)
    with 0 show ?thesis
      by simp
  next
    case (Suc j)
    with Cons.prems have j: "j < length as" and "a \<le> as ! j"
      by auto
    then have "\<not> as ! j < a"
      by simp
    moreover have "filter (\<lambda>x. as ! j < x) as = drop (Suc j) as"
      using Cons.IH [of j] Cons.prems(1,2) j by simp
    ultimately show ?thesis
      using Suc by simp
  qed
qed

lemma SimpleFold_nth:
  assumes "i < length (foldOrbit r)"
  shows "SimpleFold (foldOrbit r ! i) = foldOrbit r ! (Suc i mod length (foldOrbit r))"
proof -
  let ?xs = "foldOrbit r"
  have "?xs ! i \<in> set ?xs"
    using assms by simp
  then have "caseFold (?xs ! i) = caseFold r"
    by (simp add: set_foldOrbit)
  then have orbit: "foldOrbit (?xs ! i) = ?xs"
    by (rule foldOrbit_eq)
  have above: "filter (\<lambda>x. ?xs ! i < x) ?xs = drop (Suc i) ?xs"
    using foldOrbit_sorted assms by (rule filter_above_nth)
  show ?thesis
  proof (cases "Suc i < length ?xs")
    case True
    then have "drop (Suc i) ?xs = ?xs ! Suc i # drop (Suc (Suc i)) ?xs"
      by (simp add: Cons_nth_drop_Suc)
    with True above orbit show ?thesis
      by (simp add: SimpleFold_def)
  next
    case False
    with assms have len: "Suc i = length ?xs"
      by simp
    then obtain x xs' where xs: "?xs = x # xs'"
      by (cases ?xs) auto
    from len above have "filter (\<lambda>x. ?xs ! i < x) ?xs = []"
      by simp
    with orbit len show ?thesis
      by (simp add: SimpleFold_def xs del: nth_Cons_Suc)
  qed
qed

lemma SimpleFold_funpow:
  assumes "i < length (foldOrbit r)"
  shows "(SimpleFold ^^ k) (foldOrbit r ! i) = foldOrbit r ! ((i + k) mod length (foldOrbit r))"
proof (induction k)
  case 0
  with assms show ?case
    by simp
next
  case (Suc k)
  let ?n = "length (foldOrbit r)"
  have "0 < ?n"
    using assms by auto
  then have "(i + k) mod ?n < ?n"
    by simp
  then have "SimpleFold (foldOrbit r ! ((i + k) mod ?n)) = foldOrbit r ! (Suc ((i + k) mod ?n) mod ?n)"
    by (rule SimpleFold_nth)
  also have "Suc ((i + k) mod ?n) mod ?n = (i + Suc k) mod ?n"
    by (simp add: mod_Suc_eq)
  finally show ?case
    using Suc.IH by simp
qed

lemma SimpleFold_returns:
  "(SimpleFold ^^ length (foldOrbit r)) r = r"
proof -
  have "r \<in> set (foldOrbit r)"
    by (simp add: set_foldOrbit)
  then obtain i where i: "i < length (foldOrbit r)" "foldOrbit r ! i = r"
    by (auto simp: in_set_conv_nth)
  from SimpleFold_funpow [OF i(1), of "length (foldOrbit r)"] i show ?thesis
    by simp
qed

text \<open>
  The loop \<open>for r != sr && r < tr\<close> of \<open>EqualFold\<close> returns: \<open>SimpleFold\<close> comes back to
  \<open>sr\<close>, at the latest.
\<close>

lemma foldRunes_walk_ends:
  "\<exists>r. while_option (\<lambda>r. r \<noteq> sr \<and> r < tr) SimpleFold (SimpleFold sr) = Some r"
proof -
  let ?n = "length (foldOrbit sr)"
  have "sr \<in> set (foldOrbit sr)"
    by (simp add: set_foldOrbit)
  then have "0 < ?n"
    by (cases "foldOrbit sr") auto
  then obtain k where k: "?n = Suc k"
    by (cases ?n) auto
  have "(SimpleFold ^^ k) (SimpleFold sr) = (SimpleFold ^^ ?n) sr"
    by (simp add: k funpow_swap1)
  then have "(SimpleFold ^^ k) (SimpleFold sr) = sr"
    by (simp add: SimpleFold_returns)
  then have "\<exists>k. \<not> ((SimpleFold ^^ k) (SimpleFold sr) \<noteq> sr \<and> (SimpleFold ^^ k) (SimpleFold sr) < tr)"
    by (intro exI [of _ k]) simp
  then show ?thesis
    by (simp add: while_option_def)
qed

subsection \<open>The case functions outside ASCII\<close>

text \<open>
  Some values of the functions on runes and bytes that are not ASCII: the Kelvin sign
  \<open>U+212A\<close> and the dotted capital I \<open>U+0130\<close> in lower case, a byte that is not UTF-8,
  and the orbit of the letter S, which holds the long s \<open>U+017F\<close>.
\<close>

lemmas case_eval =
  ToLower_def ToUpper_def isASCII_def hasUpper_def hasLower_def byte_def chr_def char_of_def
  bit_Suc_0_iff RuneSelf_def Map_def rangeString_def DecodeRuneInString_def firstByte_def
  RuneError_def unicode_ToLower_def unicode_ToUpper_def MaxASCII_def To_def to_def MaxCase_def
  LowerCase_def UpperCase_def to_search.simps CaseRanges_def upperLower_def UpperLower_def
  MaxRune_def RuneLen_def encodeRune_def Let_def

lemma ToLower_not_ASCII:
  "ToLower [chr 0xE2, chr 0x84, chr 0xAA] = ''k''"
  "ToLower [chr 0xC4, chr 0xB0] = ''i''"
  "ToLower [chr 0xFF] = [chr 0xEF, chr 0xBF, chr 0xBD]"
  "ToUpper [chr 0xC5, chr 0xBF] = ''S''"
  by (simp_all add: case_eval)

lemma SimpleFold_S:
  "SimpleFold 0x53 = 0x73" "SimpleFold 0x73 = 0x17F" "SimpleFold 0x17F = 0x53"
  by (simp_all add: SimpleFold_def foldOrbit_def caseFold_def foldRanges_def Let_def)

lemma EqualFold_long_s:
  "EqualFold (''di'' @ [chr 0xC5, chr 0xBF] @ ''able'') ''DISABLE''"
  by (simp add: EqualFold_def byte_def chr_def char_of_def bit_Suc_0_iff RuneSelf_def
      rangeString_def DecodeRuneInString_def firstByte_def RuneError_def equalRunes_def
      foldRunes_def while_option_unfold SimpleFold_S Let_def)

subsection \<open>Running the blocks\<close>

lemmas block_defs =
  blockLog_def blockServer_def blockPort_def blockPacketSize_def blockConnTimeout_def
  blockDialTimeout_def blockKeepAlive_def blockEncrypt_def blockColumnEncryption_def
  blockKeyStoreAuthentication_def blockKeyStoreLocation_def blockKeyStoreSecret_def
  blockTrust_def blockCertificate_def blockServerSPN_def blockWorkstation_def
  blockAppname_def blockAppIntent_def blockFailOver_def

text \<open>Rewrite rules that evaluate the library functions on literal strings.\<close>

lemmas eval_defs =
  DecodeRuneInString_def DecodeLastRuneInString_def firstByte_def RuneError_def RuneStart_def
  byte_def chr_def IsSpace_def rangeString_def TrimSpace_def TrimLeftSpace_def
  TrimRightSpace_def ToLower_def ToUpper_def EqualFold_def toLowerByte_def toUpperByte_def
  isASCII_def hasUpper_def hasLower_def RuneSelf_def
  char_of_def bit_Suc_0_iff encodeRune_def SplitN2_def HasPrefix_def lower_def digitVal_def
  basePrefix_def ParseUint_def underscoreOK_def ParseBool_def FormatUint.simps digitChar_def
  index_def

lemmas resolve_defs =
  resolveParams_def resolveBlocks_def initialParams_def exampleEnv_def defaultPacketSize_def
  defaultServerPort_def resolveServerPort_def generateSpn_def PFXKeystoreAuth_def Second_def

lemmas tokenizer_defs =
  parseConnectParams_def splitConnectionString_def splitPart_def splitConnectionStringOdbc_def
  odbcStep_def odbcFinish_def odbcStart_def normalizeOdbcKey_def

lemmas url_defs =
  Parse_def parse_def cutQuery_def parseHier_def getScheme_def stringContainsCTLByte_def
  isAlpha_def isDigit_def parseAuthority_def parseHost_def LastIndex_def validOptionalPort_def
  validUserinfo_def setPath_def setFragment_def escape_def escapeByte_def shouldEscape_def
  ishex_def unhex_def upperhex_def emptyURL_def Query_def parsePair_def acceptedPair_def
  QueryUnescape_def
  QueryEscape_def splitConnectionStringURL_def urlParams_def SplitHostPort_def Encode_def
  encodeEntry_def EscapedPath_def EscapedFragment_def UserinfoString_def URLString_def
  validEncoded_def toUrl_def toUrlValues_def

lemma runBlocks_Cons_Inr:
  "runBlocks (b # bs) p = Inr q \<longleftrightarrow> (\<exists>p'. b p = Inr p' \<and> runBlocks bs p' = Inr q)"
  by (auto split: sum.splits)

lemma runBlocks_append_Inr:
  "runBlocks (as @ bs) p = Inr q \<longleftrightarrow> (\<exists>p'. runBlocks as p = Inr p' \<and> runBlocks bs p' = Inr q)"
  by (induction as arbitrary: p) (auto split: sum.splits)

lemma runBlocks_Inl_source:
  "runBlocks bs p = Inl e \<Longrightarrow> \<exists>b \<in> set bs. \<exists>p'. b p' = Inl e"
  by (induction bs arbitrary: p) (auto split: sum.splits)

text \<open>A block keeps a field when it returns the struct with the field as it was.\<close>

definition keeps :: "(connectParams \<Rightarrow> 'a) \<Rightarrow> block \<Rightarrow> bool" where
  "keeps f b = (\<forall>p p'. b p = Inr p' \<longrightarrow> f p' = f p)"

lemma runBlocks_keeps:
  "list_all (keeps f) bs \<Longrightarrow> runBlocks bs p = Inr q \<Longrightarrow> f q = f p"
  by (induction bs arbitrary: p) (auto simp: keeps_def split: sum.splits)

subsection \<open>ParseUint stays below its bit size\<close>

lemma parseUintLoop_le:
  "parseUintLoop b b0 cutoff maxVal s u n = Inr (r, u') \<Longrightarrow> n \<le> maxVal \<Longrightarrow> r \<le> maxVal"
  by (induction s arbitrary: u n) (auto split: if_splits option.splits simp: Let_def)

lemma ParseUint_le: "ParseUint s base bitSize = Inr n \<Longrightarrow> n \<le> 2 ^ bitSize - 1"
  by (auto simp: ParseUint_def Let_def split: if_splits sum.splits prod.splits
      dest: parseUintLoop_le)

subsection \<open>C1: the packet size\<close>

lemma clamp16:
  assumes "n \<le> 65535"
  shows "unat (if (word_of_nat n :: 16 word) < 512 then 512
               else if (word_of_nat n :: 16 word) > 32767 then 32767
               else (word_of_nat n :: 16 word)) = max 512 (min 32767 n)"
proof -
  have u: "unat (word_of_nat n :: 16 word) = n"
    using assms by (simp add: unat_of_nat)
  show ?thesis
    using u by (auto simp: word_less_nat_alt)
qed

lemma blockPacketSize_parsed:
  assumes "m ''packet size'' = Some s" and "ParseUint s 0 16 = Inr n"
  shows "\<exists>p'. blockPacketSize m p = Inr p' \<and> unat (packetSize p') = max 512 (min 32767 n)"
proof -
  have "n \<le> 65535"
    using ParseUint_le [OF assms(2)] by simp
  from clamp16 [OF this] show ?thesis
    using assms by (auto simp: blockPacketSize_def Let_def)
qed

lemma keeps_packetSize_after:
  "list_all (keeps packetSize)
     [blockConnTimeout m, blockDialTimeout m, blockKeepAlive m, blockEncrypt m,
      blockColumnEncryption m, blockKeyStoreAuthentication m, blockKeyStoreLocation E m,
      blockKeyStoreSecret m, blockTrust m, blockCertificate m, blockServerSPN m,
      blockWorkstation E m, blockAppname m, blockAppIntent E m, blockFailOver m]"
  by (auto simp: keeps_def block_defs Let_def split: option.splits sum.splits if_splits)

lemma resolveBlocks_split_packetSize:
  "resolveBlocks E m =
     [blockLog m, blockServer m, blockPort m] @ blockPacketSize m #
     [blockConnTimeout m, blockDialTimeout m, blockKeepAlive m, blockEncrypt m,
      blockColumnEncryption m, blockKeyStoreAuthentication m, blockKeyStoreLocation E m,
      blockKeyStoreSecret m, blockTrust m, blockCertificate m, blockServerSPN m,
      blockWorkstation E m, blockAppname m, blockAppIntent E m, blockFailOver m]"
  by (simp add: resolveBlocks_def)

lemma packet_error_source:
  assumes "b \<in> set (resolveBlocks E m)" and "b p = Inl (InvalidPacketSize s e)"
  shows "b = blockPacketSize m"
  using assms
  by (auto simp: resolveBlocks_def block_defs Let_def
      split: option.splits sum.splits if_splits list.splits)

text \<open>
  C1, as the code has it. When the map has the key \<open>packet size\<close> and its value parses
  with \<open>ParseUint(value, 0, 16)\<close>, that is as an unsigned integer below \<open>65536\<close> in Go's
  literal syntax, the block for the packet size does not fail, a successful resolution
  has the packet size clamped into \<open>[512, 32767]\<close>, and no resolution fails with the error
  for the packet size. (A value from \<open>65536\<close> on is an error: see the counterexample.)
\<close>

theorem C1_packet_size_clamped:
  assumes "m ''packet size'' = Some s" and "ParseUint s 0 16 = Inr n"
  shows "(\<exists>p'. blockPacketSize m p = Inr p' \<and> unat (packetSize p') = max 512 (min 32767 n))
       \<and> (case resolveParams E m of
            Inr q \<Rightarrow> unat (packetSize q) = max 512 (min 32767 n)
          | Inl err \<Rightarrow> \<forall>s' e. err \<noteq> InvalidPacketSize s' e)"
proof (intro conjI)
  show "\<exists>p'. blockPacketSize m p = Inr p' \<and> unat (packetSize p') = max 512 (min 32767 n)"
    by (rule blockPacketSize_parsed [where m = m and s = s and n = n, OF assms])
next
  show "case resolveParams E m of
          Inr q \<Rightarrow> unat (packetSize q) = max 512 (min 32767 n)
        | Inl err \<Rightarrow> \<forall>s' e. err \<noteq> InvalidPacketSize s' e"
  proof (cases "resolveParams E m")
    case (Inr q)
    then obtain p1 p2 where
      p2: "blockPacketSize m p1 = Inr p2" and
      rest: "runBlocks [blockConnTimeout m, blockDialTimeout m, blockKeepAlive m, blockEncrypt m,
        blockColumnEncryption m, blockKeyStoreAuthentication m, blockKeyStoreLocation E m,
        blockKeyStoreSecret m, blockTrust m, blockCertificate m, blockServerSPN m,
        blockWorkstation E m, blockAppname m, blockAppIntent E m, blockFailOver m] p2 = Inr q"
      unfolding resolveParams_def resolveBlocks_split_packetSize runBlocks_append_Inr
        runBlocks_Cons_Inr by blast
    have "packetSize q = packetSize p2"
      by (rule runBlocks_keeps [OF keeps_packetSize_after rest])
    moreover have "unat (packetSize p2) = max 512 (min 32767 n)"
      using blockPacketSize_parsed [where m = m and s = s and n = n and p = p1, OF assms] p2 by simp
    ultimately show ?thesis
      using Inr by simp
  next
    case (Inl err)
    have "err \<noteq> InvalidPacketSize s' e" for s' e
    proof
      assume eq: "err = InvalidPacketSize s' e"
      from Inl obtain b p' where b: "b \<in> set (resolveBlocks E m)" and bp: "b p' = Inl err"
        unfolding resolveParams_def by (blast dest: runBlocks_Inl_source)
      have "b = blockPacketSize m"
        using packet_error_source [OF b] bp eq by simp
      then show False
        using blockPacketSize_parsed [where m = m and s = s and n = n and p = p', OF assms] bp by auto
    qed
    then show ?thesis
      using Inl by simp
  qed
qed

text \<open>The spec's example \<open>packet size=100\<close>: the value parses as \<open>100\<close> and resolves to \<open>512\<close>.\<close>

theorem C1_packet_size_clamped_witness:
  "splitConnectionString ''packet size=100'' ''packet size'' = Some ''100''
   \<and> ParseUint ''100'' 0 16 = Inr 100
   \<and> map_sum id (\<lambda>q. unat (packetSize q)) (parseConnectParams exampleEnv ''packet size=100'')
       = Inr 512"
proof -
  have m: "splitConnectionString ''packet size=100'' ''packet size'' = Some ''100''"
    by (simp add: tokenizer_defs eval_defs)
  have n: "ParseUint ''100'' 0 16 = Inr 100"
    by (simp add: eval_defs)
  have dsn: "parseConnectParams exampleEnv ''packet size=100''
             = resolveParams exampleEnv (splitConnectionString ''packet size=100'')"
    by (simp add: parseConnectParams_def HasPrefix_def)
  from C1_packet_size_clamped
        [where m = "splitConnectionString ''packet size=100''" and s = "''100''" and n = 100
           and E = exampleEnv and p = "initialParams exampleEnv", OF m n]
  have "case resolveParams exampleEnv (splitConnectionString ''packet size=100'') of
          Inr q \<Rightarrow> unat (packetSize q) = 512
        | Inl err \<Rightarrow> \<forall>s' e. err \<noteq> InvalidPacketSize s' e"
    by (auto split: sum.splits)
  moreover have "\<exists>q. resolveParams exampleEnv (splitConnectionString ''packet size=100'') = Inr q"
    by (simp add: tokenizer_defs eval_defs resolve_defs block_defs)
  ultimately show ?thesis
    using m n dsn by (auto split: sum.splits)
qed

text \<open>
  C1 as stated fails: \<open>999999\<close> is an unsigned integer, and \<open>packet size=999999\<close> does not
  resolve to \<open>32767\<close> but is refused, because \<open>ParseUint\<close> is called with the bit size 16.
\<close>

theorem C1_counterexample:
  "ParseUint ''999999'' 10 64 = Inr 999999
   \<and> parseConnectParams exampleEnv ''packet size=999999''
       = Inl (InvalidPacketSize ''999999'' ErrRange)"
  by (simp add: tokenizer_defs eval_defs resolve_defs block_defs)

subsection \<open>The blocks of a successful resolution\<close>

text \<open>
  A successful resolution ran block number \<open>k\<close> of the list between the blocks before it
  and the blocks after it.
\<close>

lemma length_resolveBlocks: "length (resolveBlocks E m) = 19"
  by (simp add: resolveBlocks_def)

lemma resolve_at:
  assumes "resolveParams E m = Inr q" and "k < 19"
  shows "\<exists>p p'. runBlocks (take k (resolveBlocks E m)) (initialParams E) = Inr p
           \<and> (resolveBlocks E m ! k) p = Inr p'
           \<and> runBlocks (drop (Suc k) (resolveBlocks E m)) p' = Inr q"
proof -
  have "resolveBlocks E m
        = take k (resolveBlocks E m) @ (resolveBlocks E m ! k) # drop (Suc k) (resolveBlocks E m)"
    using assms(2) by (simp add: id_take_nth_drop length_resolveBlocks)
  then have "runBlocks (take k (resolveBlocks E m) @ (resolveBlocks E m ! k)
               # drop (Suc k) (resolveBlocks E m)) (initialParams E) = Inr q"
    using assms(1) by (simp add: resolveParams_def)
  then show ?thesis
    unfolding runBlocks_append_Inr runBlocks_Cons_Inr by blast
qed

text \<open>A block that returns an error makes the resolution return an error.\<close>

lemma runBlocks_fails:
  assumes "b \<in> set bs" and "\<And>p. \<exists>e. b p = Inl e"
  shows "\<exists>e. runBlocks bs p = Inl e"
  using assms(1)
proof (induction bs arbitrary: p)
  case Nil
  then show ?case by simp
next
  case (Cons a bs)
  show ?case
  proof (cases "a p")
    case (Inl e)
    then show ?thesis by simp
  next
    case (Inr p')
    show ?thesis
    proof (cases "a = b")
      case True
      then show ?thesis using assms(2) [of p] Inr by simp
    next
      case False
      then have "b \<in> set bs" using Cons.prems by simp
      from Cons.IH [OF this, of p'] show ?thesis using Inr by simp
    qed
  qed
qed

subsection \<open>strings.Cut splits at the first separator\<close>

lemma Cut_None_iff: "Cut c s = None \<longleftrightarrow> c \<notin> set s"
  by (induction s) (auto split: option.splits)

lemma Cut_append: "c \<notin> set a \<Longrightarrow> Cut c (a @ c # b) = Some (a, b)"
  by (induction a) auto

lemma Cut_SomeD: "Cut c s = Some (a, b) \<Longrightarrow> s = a @ c # b \<and> c \<notin> set a"
  by (induction s arbitrary: a) (auto split: if_splits option.splits)

subsection \<open>C8: host and instance\<close>

lemma keeps_host_after:
  "list_all (keeps host) (drop 2 (resolveBlocks E m))"
  by (auto simp: resolveBlocks_def keeps_def block_defs Let_def
      split: option.splits sum.splits if_splits)

lemma keeps_instance_after:
  "list_all (keeps instance) (drop 2 (resolveBlocks E m))"
  by (auto simp: resolveBlocks_def keeps_def block_defs Let_def
      split: option.splits sum.splits if_splits)

lemma keeps_database_after:
  "list_all (keeps database) (drop 2 (resolveBlocks E m))"
  by (auto simp: resolveBlocks_def keeps_def block_defs Let_def
      split: option.splits sum.splits if_splits)

lemma blockLog_instance:
  "runBlocks (take 1 (resolveBlocks E m)) (initialParams E) = Inr p \<Longrightarrow> instance p = []"
  by (auto simp: resolveBlocks_def blockLog_def initialParams_def split: option.splits sum.splits)

text \<open>What the block for the server leaves in \<open>host\<close>, \<open>instance\<close> and \<open>database\<close>.\<close>

lemma blockServer_Inr:
  assumes "blockServer m p = Inr p'"
  shows "host p' \<noteq> []"
    and "database p' = index m ''database''"
    and "\<And>a b. index m ''server'' = a @ [CHR 0x5C] @ b \<Longrightarrow> CHR 0x5C \<notin> set a \<Longrightarrow>
           instance p' = b
           \<and> host p' = (if a = ''.'' \<or> ToUpper a = ''(LOCAL)'' \<or> a = [] then ''localhost'' else a)"
    and "CHR 0x5C \<notin> set (index m ''server'') \<Longrightarrow>
           instance p' = instance p
           \<and> host p' = (if index m ''server'' = ''.'' \<or> ToUpper (index m ''server'') = ''(LOCAL)''
                           \<or> index m ''server'' = [] then ''localhost'' else index m ''server'')"
proof -
  show "host p' \<noteq> []"
    using assms by (auto simp: blockServer_def SplitN2_def Let_def split: option.splits if_splits)
  show "database p' = index m ''database''"
    using assms by (auto simp: blockServer_def SplitN2_def Let_def split: option.splits if_splits)
  show "instance p' = b
        \<and> host p' = (if a = ''.'' \<or> ToUpper a = ''(LOCAL)'' \<or> a = [] then ''localhost'' else a)"
    if "index m ''server'' = a @ [CHR 0x5C] @ b" and "CHR 0x5C \<notin> set a" for a b
  proof -
    have "Cut (CHR 0x5C) (index m ''server'') = Some (a, b)"
      using that Cut_append [of "CHR 0x5C" a b] by simp
    then show ?thesis
      using assms by (auto simp: blockServer_def SplitN2_def Let_def)
  qed
  show "instance p' = instance p
        \<and> host p' = (if index m ''server'' = ''.'' \<or> ToUpper (index m ''server'') = ''(LOCAL)''
                        \<or> index m ''server'' = [] then ''localhost'' else index m ''server'')"
    if "CHR 0x5C \<notin> set (index m ''server'')"
  proof -
    have "Cut (CHR 0x5C) (index m ''server'') = None"
      using that by (simp add: Cut_None_iff)
    then show ?thesis
      using assms by (auto simp: blockServer_def SplitN2_def Let_def)
  qed
qed

text \<open>The fields \<open>host\<close>, \<open>instance\<close> and \<open>database\<close> of a resolution are those the block for the server left.\<close>

lemma resolve_server:
  assumes "resolveParams E m = Inr q"
  obtains p p' where "instance p = []" and "blockServer m p = Inr p'"
    and "host q = host p'" and "instance q = instance p'" and "database q = database p'"
proof -
  from resolve_at [OF assms, of 1] obtain p p' where
    pre: "runBlocks (take 1 (resolveBlocks E m)) (initialParams E) = Inr p" and
    b: "(resolveBlocks E m ! 1) p = Inr p'" and
    post: "runBlocks (drop 2 (resolveBlocks E m)) p' = Inr q"
    by (auto simp: numeral_2_eq_2)
  have 1: "instance p = []"
    by (rule blockLog_instance [OF pre])
  have 2: "blockServer m p = Inr p'"
    using b by (simp add: resolveBlocks_def)
  have 3: "host q = host p'"
    by (rule runBlocks_keeps [OF keeps_host_after post])
  have 4: "instance q = instance p'"
    by (rule runBlocks_keeps [OF keeps_instance_after post])
  have 5: "database q = database p'"
    by (rule runBlocks_keeps [OF keeps_database_after post])
  from 1 2 3 4 5 show thesis
    by (rule that)
qed

text \<open>
  C8. In a successful resolution the host is never empty. When the value of \<open>server\<close> is \<open>a\<close>,
  a backslash and \<open>b\<close>, with no backslash in \<open>a\<close> (the split at the first backslash), the instance is \<open>b\<close> and
  the host is \<open>a\<close>, normalized; with no backslash at all there is no instance and the
  host is the whole value, normalized. Normalizing turns \<open>.\<close>, the empty string and every
  string whose upper case is \<open>(LOCAL)\<close> into \<open>localhost\<close>.
\<close>

theorem C8_host_and_instance:
  assumes "resolveParams E m = Inr q"
  shows "host q \<noteq> []
       \<and> (\<forall>a b. index m ''server'' = a @ [CHR 0x5C] @ b \<and> CHR 0x5C \<notin> set a \<longrightarrow>
             instance q = b
             \<and> host q = (if a = ''.'' \<or> ToUpper a = ''(LOCAL)'' \<or> a = [] then ''localhost'' else a))
       \<and> (CHR 0x5C \<notin> set (index m ''server'') \<longrightarrow>
             instance q = []
             \<and> host q = (if index m ''server'' = ''.'' \<or> ToUpper (index m ''server'') = ''(LOCAL)''
                            \<or> index m ''server'' = [] then ''localhost'' else index m ''server''))"
proof -
  from resolve_server [OF assms] obtain p p' where
    p: "instance p = []" and b: "blockServer m p = Inr p'" and
    h: "host q = host p'" and i: "instance q = instance p'"
    by blast
  show ?thesis
    using blockServer_Inr(1) [OF b] blockServer_Inr(3) [OF b] blockServer_Inr(4) [OF b] p h i
    by simp
qed

text \<open>
  The spec's examples: \<open>myhost\<close>, a backslash and \<open>inst1\<close> resolve to the host \<open>myhost\<close> and
  the instance \<open>inst1\<close>; \<open>.\<close>, \<open>(LOCAL)\<close>, \<open>(local)\<close> and no server at all resolve to
  \<open>localhost\<close>.
\<close>

theorem C8_host_and_instance_witness:
  "map_sum id (\<lambda>q. (host q, instance q))
     (parseConnectParams exampleEnv (''server=myhost'' @ [CHR 0x5C] @ ''inst1''))
     = Inr (''myhost'', ''inst1'')
   \<and> map_sum id host (parseConnectParams exampleEnv ''server=.'') = Inr ''localhost''
   \<and> map_sum id host (parseConnectParams exampleEnv ''server=(LOCAL)'') = Inr ''localhost''
   \<and> map_sum id host (parseConnectParams exampleEnv ''server=(local)'') = Inr ''localhost''
   \<and> map_sum id host (parseConnectParams exampleEnv ''server='') = Inr ''localhost''
   \<and> map_sum id host (parseConnectParams exampleEnv ''database=foo'') = Inr ''localhost''"
proof -
  define m where "m = splitConnectionString (''server=myhost'' @ [CHR 0x5C] @ ''inst1'')"
  have m: "m = [''server'' \<mapsto> ''myhost'' @ [CHR 0x5C] @ ''inst1'']"
    by (simp add: m_def tokenizer_defs eval_defs)
  have dsn: "parseConnectParams exampleEnv (''server=myhost'' @ [CHR 0x5C] @ ''inst1'')
             = resolveParams exampleEnv m"
    by (simp add: parseConnectParams_def HasPrefix_def m_def)
  have "\<exists>q. resolveParams exampleEnv m = Inr q"
    by (simp add: m eval_defs resolve_defs block_defs)
  then obtain q where q: "resolveParams exampleEnv m = Inr q" ..
  have s: "index m ''server'' = ''myhost'' @ [CHR 0x5C] @ ''inst1''"
    by (simp add: m index_def)
  have "instance q = ''inst1''
        \<and> host q = (if ''myhost'' = ''.'' \<or> ToUpper ''myhost'' = ''(LOCAL)'' \<or> ''myhost'' = []
                      then ''localhost'' else ''myhost'')"
    by (rule C8_host_and_instance [OF q, THEN conjunct2, THEN conjunct1, rule_format,
          of "''myhost''" "''inst1''"]) (simp add: s)
  then have "instance q = ''inst1'' \<and> host q = ''myhost''"
    by (simp add: eval_defs)
  then have 1: "map_sum id (\<lambda>q. (host q, instance q))
     (parseConnectParams exampleEnv (''server=myhost'' @ [CHR 0x5C] @ ''inst1''))
     = Inr (''myhost'', ''inst1'')"
    using dsn q by simp
  have 2: "map_sum id host (parseConnectParams exampleEnv ''server=.'') = Inr ''localhost''"
    by (simp add: tokenizer_defs eval_defs resolve_defs block_defs)
  have 3: "map_sum id host (parseConnectParams exampleEnv ''server=(LOCAL)'') = Inr ''localhost''"
    by (simp add: tokenizer_defs eval_defs resolve_defs block_defs)
  have 4: "map_sum id host (parseConnectParams exampleEnv ''server=(local)'') = Inr ''localhost''"
    by (simp add: tokenizer_defs eval_defs resolve_defs block_defs)
  have 5: "map_sum id host (parseConnectParams exampleEnv ''server='') = Inr ''localhost''"
    by (simp add: tokenizer_defs eval_defs resolve_defs block_defs)
  have 6: "map_sum id host (parseConnectParams exampleEnv ''database=foo'') = Inr ''localhost''"
    by (simp add: tokenizer_defs eval_defs resolve_defs block_defs)
  from 1 2 3 4 5 6 show ?thesis
    by simp
qed

subsection \<open>C3: the host name in the certificate\<close>

lemma keeps_certificate_after:
  "list_all (keeps hostInCertificate) (drop 14 (resolveBlocks E m))"
  "list_all (keeps hostInCertificateProvided) (drop 14 (resolveBlocks E m))"
  "list_all (keeps host) (drop 14 (resolveBlocks E m))"
  by (auto simp: resolveBlocks_def keeps_def block_defs Let_def
      split: option.splits sum.splits if_splits)

lemma blockCertificate_Inr:
  assumes "blockCertificate m p = Inr p'"
  shows "host p' = host p"
    and "m ''hostnameincertificate'' = None \<Longrightarrow>
           hostInCertificate p' = host p \<and> \<not> hostInCertificateProvided p'"
    and "m ''hostnameincertificate'' = Some v \<Longrightarrow>
           hostInCertificate p' = v \<and> hostInCertificateProvided p'"
  using assms by (auto simp: blockCertificate_def Let_def split: option.splits)

text \<open>
  C3, as the code has it. In a successful resolution (of the map of any DSN): without the
  key \<open>hostnameincertificate\<close> the field \<open>hostInCertificate\<close> is the resolved host, which
  is not empty, and the flag is false; with the key it is the key's value, whatever it
  is, and the flag is true.
\<close>

theorem C3_host_in_certificate:
  assumes "resolveParams E m = Inr q"
  shows "(m ''hostnameincertificate'' = None \<longrightarrow>
            hostInCertificate q = host q \<and> hostInCertificate q \<noteq> []
            \<and> \<not> hostInCertificateProvided q)
       \<and> (\<forall>v. m ''hostnameincertificate'' = Some v \<longrightarrow>
            hostInCertificate q = v \<and> hostInCertificateProvided q)"
proof -
  from resolve_at [OF assms, of 13] obtain p p' where
    b: "(resolveBlocks E m ! 13) p = Inr p'" and
    post: "runBlocks (drop 14 (resolveBlocks E m)) p' = Inr q"
    by auto
  have b': "blockCertificate m p = Inr p'"
    using b by (simp add: resolveBlocks_def)
  have hc: "hostInCertificate q = hostInCertificate p'"
    by (rule runBlocks_keeps [OF keeps_certificate_after(1) post])
  have hp: "hostInCertificateProvided q = hostInCertificateProvided p'"
    by (rule runBlocks_keeps [OF keeps_certificate_after(2) post])
  have h: "host q = host p"
    using runBlocks_keeps [OF keeps_certificate_after(3) post] blockCertificate_Inr(1) [OF b']
    by simp
  have ne: "host q \<noteq> []"
    using resolve_server [OF assms] blockServer_Inr(1) by metis
  show ?thesis
    using blockCertificate_Inr(2) [OF b'] blockCertificate_Inr(3) [OF b'] hc hp h ne by auto
qed

text \<open>Without the key the certificate's host is the resolved host; with it, the value given.\<close>

theorem C3_host_in_certificate_witness:
  "map_sum id (\<lambda>q. (host q, hostInCertificate q, hostInCertificateProvided q))
     (parseConnectParams exampleEnv ''server=(local);database=foo'')
     = Inr (''localhost'', ''localhost'', False)
   \<and> map_sum id (\<lambda>q. (host q, hostInCertificate q, hostInCertificateProvided q))
       (parseConnectParams exampleEnv ''server=db1;hostnameincertificate=db.example.com'')
       = Inr (''db1'', ''db.example.com'', True)"
proof -
  define m where "m = splitConnectionString ''server=(local);database=foo''"
  have m: "m = [''server'' \<mapsto> ''(local)'', ''database'' \<mapsto> ''foo'']"
    by (simp add: m_def tokenizer_defs eval_defs)
  have dsn: "parseConnectParams exampleEnv ''server=(local);database=foo''
             = resolveParams exampleEnv m"
    by (simp add: parseConnectParams_def HasPrefix_def m_def)
  have "\<exists>q. resolveParams exampleEnv m = Inr q \<and> host q = ''localhost''"
    by (simp add: m eval_defs resolve_defs block_defs)
  then obtain q where q: "resolveParams exampleEnv m = Inr q" and h: "host q = ''localhost''"
    by blast
  have "m ''hostnameincertificate'' = None"
    by (simp add: m)
  with C3_host_in_certificate [OF q]
  have "hostInCertificate q = host q \<and> \<not> hostInCertificateProvided q"
    by simp
  then have 1: "map_sum id (\<lambda>q. (host q, hostInCertificate q, hostInCertificateProvided q))
     (parseConnectParams exampleEnv ''server=(local);database=foo'')
     = Inr (''localhost'', ''localhost'', False)"
    using dsn q h by simp
  have 2: "map_sum id (\<lambda>q. (host q, hostInCertificate q, hostInCertificateProvided q))
       (parseConnectParams exampleEnv ''server=db1;hostnameincertificate=db.example.com'')
       = Inr (''db1'', ''db.example.com'', True)"
    by (simp add: tokenizer_defs eval_defs resolve_defs block_defs)
  from 1 2 show ?thesis
    by simp
qed

text \<open>
  C3 as stated fails: the DSN \<open>server=db1;hostnameincertificate=\<close> resolves, and its
  \<open>hostInCertificate\<close> is the empty string (with the flag true).
\<close>

theorem C3_counterexample:
  "map_sum id (\<lambda>q. (hostInCertificate q, hostInCertificateProvided q))
     (parseConnectParams exampleEnv ''server=db1;hostnameincertificate='')
     = Inr ([], True)"
  by (simp add: tokenizer_defs eval_defs resolve_defs block_defs)

subsection \<open>C6: encrypt and trustServerCertificate\<close>

lemma keeps_encrypt_before:
  "list_all (keeps encrypt) (take 7 (resolveBlocks E m))"
  "list_all (keeps disableEncryption) (take 7 (resolveBlocks E m))"
  by (auto simp: resolveBlocks_def keeps_def block_defs Let_def
      split: option.splits sum.splits if_splits list.splits)

lemma keeps_encrypt_after:
  "list_all (keeps encrypt) (drop 8 (resolveBlocks E m))"
  "list_all (keeps disableEncryption) (drop 8 (resolveBlocks E m))"
  by (auto simp: resolveBlocks_def keeps_def block_defs Let_def
      split: option.splits sum.splits if_splits)

lemma keeps_trust_between:
  "list_all (keeps trustServerCertificate) (take 4 (drop 8 (resolveBlocks E m)))"
  by (auto simp: resolveBlocks_def keeps_def block_defs Let_def
      split: option.splits sum.splits if_splits)

lemma keeps_trust_after:
  "list_all (keeps trustServerCertificate) (drop 13 (resolveBlocks E m))"
  by (auto simp: resolveBlocks_def keeps_def block_defs Let_def
      split: option.splits sum.splits if_splits)

lemma blockEncrypt_Inr:
  assumes "blockEncrypt m p = Inr p'"
  shows "m ''encrypt'' = None \<Longrightarrow>
           encrypt p' = encrypt p \<and> disableEncryption p' = disableEncryption p
           \<and> trustServerCertificate p'"
    and "m ''encrypt'' = Some v \<Longrightarrow> EqualFold v ''DISABLE'' \<Longrightarrow>
           encrypt p' = encrypt p \<and> disableEncryption p'
           \<and> trustServerCertificate p' = trustServerCertificate p"
    and "m ''encrypt'' = Some v \<Longrightarrow> \<not> EqualFold v ''DISABLE'' \<Longrightarrow>
           ParseBool v = Inr (encrypt p') \<and> disableEncryption p' = disableEncryption p
           \<and> trustServerCertificate p' = trustServerCertificate p"
  using assms by (auto simp: blockEncrypt_def split: option.splits sum.splits if_splits)

lemma blockTrust_Inr:
  assumes "blockTrust m p = Inr p'"
  shows "m ''trustservercertificate'' = None \<Longrightarrow>
           trustServerCertificate p' = trustServerCertificate p"
    and "m ''trustservercertificate'' = Some t \<Longrightarrow> ParseBool t = Inr (trustServerCertificate p')"
  using assms by (auto simp: blockTrust_def split: option.splits sum.splits)

text \<open>
  The struct before the block for \<open>encrypt\<close> and after it, and before the block for
  \<open>trustservercertificate\<close> and after it, in a successful resolution.
\<close>

lemma resolve_encrypt:
  assumes "resolveParams E m = Inr q"
  obtains p p' r r' where
    "\<not> encrypt p" "\<not> disableEncryption p" "\<not> trustServerCertificate p"
    "blockEncrypt m p = Inr p'" "encrypt q = encrypt p'"
    "disableEncryption q = disableEncryption p'"
    "trustServerCertificate r = trustServerCertificate p'"
    "blockTrust m r = Inr r'" "trustServerCertificate q = trustServerCertificate r'"
proof -
  from resolve_at [OF assms, of 7] obtain p p' where
    pre: "runBlocks (take 7 (resolveBlocks E m)) (initialParams E) = Inr p" and
    b: "(resolveBlocks E m ! 7) p = Inr p'" and
    post: "runBlocks (drop 8 (resolveBlocks E m)) p' = Inr q"
    by auto
  have "drop 8 (resolveBlocks E m)
        = take 4 (drop 8 (resolveBlocks E m)) @ blockTrust m # drop 13 (resolveBlocks E m)"
    by (simp add: resolveBlocks_def)
  with post have "runBlocks (take 4 (drop 8 (resolveBlocks E m)) @ blockTrust m
                      # drop 13 (resolveBlocks E m)) p' = Inr q"
    by simp
  then obtain r r' where
    mid: "runBlocks (take 4 (drop 8 (resolveBlocks E m))) p' = Inr r" and
    t: "blockTrust m r = Inr r'" and
    post': "runBlocks (drop 13 (resolveBlocks E m)) r' = Inr q"
    unfolding runBlocks_append_Inr runBlocks_Cons_Inr by blast
  have 1: "\<not> encrypt p"
    using runBlocks_keeps [OF keeps_encrypt_before(1) pre] by (simp add: initialParams_def)
  have 2: "\<not> disableEncryption p"
    using runBlocks_keeps [OF keeps_encrypt_before(2) pre] by (simp add: initialParams_def)
  have "list_all (keeps trustServerCertificate) (take 7 (resolveBlocks E m))"
    by (auto simp: resolveBlocks_def keeps_def block_defs Let_def
        split: option.splits sum.splits if_splits list.splits)
  from runBlocks_keeps [OF this pre] have 3: "\<not> trustServerCertificate p"
    by (simp add: initialParams_def)
  have 4: "blockEncrypt m p = Inr p'"
    using b by (simp add: resolveBlocks_def)
  have 5: "encrypt q = encrypt p'"
    by (rule runBlocks_keeps [OF keeps_encrypt_after(1) post])
  have 6: "disableEncryption q = disableEncryption p'"
    by (rule runBlocks_keeps [OF keeps_encrypt_after(2) post])
  have 7: "trustServerCertificate r = trustServerCertificate p'"
    by (rule runBlocks_keeps [OF keeps_trust_between mid])
  have 8: "trustServerCertificate q = trustServerCertificate r'"
    by (rule runBlocks_keeps [OF keeps_trust_after post'])
  from 1 2 3 4 5 6 7 t 8 show thesis
    by (rule that)
qed

text \<open>
  C6. Without the key \<open>encrypt\<close> a resolution has \<open>encrypt\<close> false, and
  \<open>trustServerCertificate\<close> true unless the key \<open>trustservercertificate\<close> says otherwise.
  With a value that \<open>EqualFold\<close> equates with \<open>DISABLE\<close>, \<open>disableEncryption\<close> is true and
  \<open>encrypt\<close> false. With any other value, \<open>encrypt\<close> is what \<open>ParseBool\<close> returns for it, and
  the resolution fails when \<open>ParseBool\<close> fails. The key \<open>trustservercertificate\<close>, when
  present, decides \<open>trustServerCertificate\<close> by \<open>ParseBool\<close>, whatever \<open>encrypt\<close> was, and
  the resolution fails when \<open>ParseBool\<close> fails on it.
\<close>

theorem C6_encrypt_and_trust:
  "(\<forall>q. resolveParams E m = Inr q \<longrightarrow>
      (m ''encrypt'' = None \<longrightarrow>
         \<not> encrypt q \<and> \<not> disableEncryption q
         \<and> (m ''trustservercertificate'' = None \<longrightarrow> trustServerCertificate q))
    \<and> (\<forall>v. m ''encrypt'' = Some v \<and> EqualFold v ''DISABLE'' \<longrightarrow>
         disableEncryption q \<and> \<not> encrypt q)
    \<and> (\<forall>v. m ''encrypt'' = Some v \<and> \<not> EqualFold v ''DISABLE'' \<longrightarrow>
         ParseBool v = Inr (encrypt q) \<and> \<not> disableEncryption q)
    \<and> (\<forall>t. m ''trustservercertificate'' = Some t \<longrightarrow>
         ParseBool t = Inr (trustServerCertificate q)))
   \<and> (\<forall>v e. m ''encrypt'' = Some v \<and> \<not> EqualFold v ''DISABLE'' \<and> ParseBool v = Inl e \<longrightarrow>
         (\<exists>err. resolveParams E m = Inl err))
   \<and> (\<forall>t e. m ''trustservercertificate'' = Some t \<and> ParseBool t = Inl e \<longrightarrow>
         (\<exists>err. resolveParams E m = Inl err))"
proof -
  have ok: "(m ''encrypt'' = None \<longrightarrow>
         \<not> encrypt q \<and> \<not> disableEncryption q
         \<and> (m ''trustservercertificate'' = None \<longrightarrow> trustServerCertificate q))
    \<and> (\<forall>v. m ''encrypt'' = Some v \<and> EqualFold v ''DISABLE'' \<longrightarrow>
         disableEncryption q \<and> \<not> encrypt q)
    \<and> (\<forall>v. m ''encrypt'' = Some v \<and> \<not> EqualFold v ''DISABLE'' \<longrightarrow>
         ParseBool v = Inr (encrypt q) \<and> \<not> disableEncryption q)
    \<and> (\<forall>t. m ''trustservercertificate'' = Some t \<longrightarrow>
         ParseBool t = Inr (trustServerCertificate q))"
    if r: "resolveParams E m = Inr q" for q
  proof -
    from resolve_encrypt [OF r] obtain p p' r r' where
      p: "\<not> encrypt p" "\<not> disableEncryption p" "\<not> trustServerCertificate p" and
      b: "blockEncrypt m p = Inr p'" and
      e: "encrypt q = encrypt p'" "disableEncryption q = disableEncryption p'" and
      tr: "trustServerCertificate r = trustServerCertificate p'" and
      t: "blockTrust m r = Inr r'" and
      tq: "trustServerCertificate q = trustServerCertificate r'"
      by blast
    have a: "m ''encrypt'' = None \<longrightarrow>
         \<not> encrypt q \<and> \<not> disableEncryption q
         \<and> (m ''trustservercertificate'' = None \<longrightarrow> trustServerCertificate q)"
      using blockEncrypt_Inr(1) [OF b] blockTrust_Inr(1) [OF t] p e tr tq by simp
    have c: "\<forall>v. m ''encrypt'' = Some v \<and> EqualFold v ''DISABLE'' \<longrightarrow>
         disableEncryption q \<and> \<not> encrypt q"
      using blockEncrypt_Inr(2) [OF b] p e by simp
    have d: "\<forall>v. m ''encrypt'' = Some v \<and> \<not> EqualFold v ''DISABLE'' \<longrightarrow>
         ParseBool v = Inr (encrypt q) \<and> \<not> disableEncryption q"
      using blockEncrypt_Inr(3) [OF b] p e by simp
    have f: "\<forall>t. m ''trustservercertificate'' = Some t \<longrightarrow>
         ParseBool t = Inr (trustServerCertificate q)"
      using blockTrust_Inr(2) [OF t] tq by simp
    from a c d f show ?thesis
      by blast
  qed
  have bad_encrypt: "\<exists>err. resolveParams E m = Inl err"
    if "m ''encrypt'' = Some v" "\<not> EqualFold v ''DISABLE''" "ParseBool v = Inl e" for v e
  proof (cases "resolveParams E m")
    case (Inl err)
    then show ?thesis by simp
  next
    case (Inr q)
    from ok [OF Inr] that show ?thesis by simp
  qed
  have bad_trust: "\<exists>err. resolveParams E m = Inl err"
    if "m ''trustservercertificate'' = Some t" "ParseBool t = Inl e" for t e
  proof (cases "resolveParams E m")
    case (Inl err)
    then show ?thesis by simp
  next
    case (Inr q)
    from ok [OF Inr] that show ?thesis by simp
  qed
  from ok bad_encrypt bad_trust show ?thesis
    by blast
qed

text \<open>
  The spec's examples: no \<open>encrypt\<close> gives \<open>trustServerCertificate\<close> true; \<open>encrypt=Disable\<close>
  gives \<open>disableEncryption\<close> true and \<open>encrypt\<close> false; an explicit
  \<open>trustservercertificate\<close> wins; text that is no boolean is an error.
\<close>

theorem C6_encrypt_and_trust_witness:
  "map_sum id (\<lambda>q. (encrypt q, disableEncryption q, trustServerCertificate q))
     (parseConnectParams exampleEnv ''server=db1'') = Inr (False, False, True)
   \<and> map_sum id (\<lambda>q. (encrypt q, disableEncryption q, trustServerCertificate q))
       (parseConnectParams exampleEnv ''encrypt=Disable'') = Inr (False, True, False)
   \<and> map_sum id (\<lambda>q. (encrypt q, disableEncryption q, trustServerCertificate q))
       (parseConnectParams exampleEnv ''encrypt=true'') = Inr (True, False, False)
   \<and> map_sum id (\<lambda>q. (encrypt q, disableEncryption q, trustServerCertificate q))
       (parseConnectParams exampleEnv ''trustservercertificate=false'') = Inr (False, False, False)
   \<and> map_sum id (\<lambda>q. (encrypt q, disableEncryption q, trustServerCertificate q))
       (parseConnectParams exampleEnv ''encrypt=false;trustservercertificate=1'')
       = Inr (False, False, True)
   \<and> parseConnectParams exampleEnv ''encrypt=maybe'' = Inl (InvalidEncrypt ''maybe'' ErrSyntax)
   \<and> parseConnectParams exampleEnv ''trustservercertificate=maybe''
       = Inl (InvalidTrustServerCertificate ''maybe'' ErrSyntax)"
proof -
  define m where "m = splitConnectionString ''encrypt=Disable''"
  have m: "m = [''encrypt'' \<mapsto> ''Disable'']"
    by (simp add: m_def tokenizer_defs eval_defs)
  have dsn: "parseConnectParams exampleEnv ''encrypt=Disable'' = resolveParams exampleEnv m"
    by (simp add: parseConnectParams_def HasPrefix_def m_def)
  have "\<exists>q. resolveParams exampleEnv m = Inr q \<and> \<not> trustServerCertificate q"
    by (simp add: m eval_defs resolve_defs block_defs)
  then obtain q where q: "resolveParams exampleEnv m = Inr q" and t: "\<not> trustServerCertificate q"
    by blast
  have e: "m ''encrypt'' = Some ''Disable'' \<and> EqualFold ''Disable'' ''DISABLE''"
    by (simp add: m eval_defs)
  from C6_encrypt_and_trust [of exampleEnv m] q e
  have "disableEncryption q \<and> \<not> encrypt q"
    by blast
  then have 2: "map_sum id (\<lambda>q. (encrypt q, disableEncryption q, trustServerCertificate q))
       (parseConnectParams exampleEnv ''encrypt=Disable'') = Inr (False, True, False)"
    using dsn q t by simp
  have 1: "map_sum id (\<lambda>q. (encrypt q, disableEncryption q, trustServerCertificate q))
     (parseConnectParams exampleEnv ''server=db1'') = Inr (False, False, True)"
    by (simp add: tokenizer_defs eval_defs resolve_defs block_defs)
  have 3: "map_sum id (\<lambda>q. (encrypt q, disableEncryption q, trustServerCertificate q))
       (parseConnectParams exampleEnv ''encrypt=true'') = Inr (True, False, False)"
    by (simp add: tokenizer_defs eval_defs resolve_defs block_defs)
  have 4: "map_sum id (\<lambda>q. (encrypt q, disableEncryption q, trustServerCertificate q))
       (parseConnectParams exampleEnv ''trustservercertificate=false'') = Inr (False, False, False)"
    by (simp add: tokenizer_defs eval_defs resolve_defs block_defs)
  have 5: "map_sum id (\<lambda>q. (encrypt q, disableEncryption q, trustServerCertificate q))
       (parseConnectParams exampleEnv ''encrypt=false;trustservercertificate=1'')
       = Inr (False, False, True)"
    by (simp add: tokenizer_defs eval_defs resolve_defs block_defs)
  have 6: "parseConnectParams exampleEnv ''encrypt=maybe'' = Inl (InvalidEncrypt ''maybe'' ErrSyntax)"
    by (simp add: tokenizer_defs eval_defs resolve_defs block_defs)
  have 7: "parseConnectParams exampleEnv ''trustservercertificate=maybe''
       = Inl (InvalidTrustServerCertificate ''maybe'' ErrSyntax)"
    by (simp add: tokenizer_defs eval_defs resolve_defs block_defs)
  from 1 2 3 4 5 6 7 show ?thesis
    by simp
qed

text \<open>
  The comparison with \<open>DISABLE\<close> is that of \<open>EqualFold\<close> on all of Unicode: the long s
  \<open>U+017F\<close> folds with \<open>S\<close>, so \<open>encrypt=di\<close>\<open>U+017F\<close>\<open>able\<close> disables the encryption too.
\<close>

lemma encrypt_long_s:
  "map_sum id (\<lambda>q. (encrypt q, disableEncryption q))
     (parseConnectParams exampleEnv (''encrypt=di'' @ [chr 0xC5, chr 0xBF] @ ''able''))
   = Inr (False, True)"
  by (simp add: tokenizer_defs eval_defs resolve_defs block_defs equalRunes_def foldRunes_def
      while_option_unfold SimpleFold_S)

subsection \<open>C7 and C10: the application intent\<close>

lemma keeps_typeFlags_before:
  "list_all (keeps typeFlags) (take 17 (resolveBlocks E m))"
  by (auto simp: resolveBlocks_def keeps_def block_defs Let_def
      split: option.splits sum.splits if_splits list.splits)

lemma keeps_typeFlags_after:
  "list_all (keeps typeFlags) (drop 18 (resolveBlocks E m))"
  by (auto simp: resolveBlocks_def keeps_def block_defs Let_def
      split: option.splits sum.splits if_splits)

lemma keeps_database_between:
  "list_all (keeps database) (take 15 (drop 2 (resolveBlocks E m)))"
  by (auto simp: resolveBlocks_def keeps_def block_defs Let_def
      split: option.splits sum.splits if_splits)

lemma database_before_intent:
  assumes "runBlocks (take 17 (resolveBlocks E m)) (initialParams E) = Inr p"
  shows "database p = index m ''database''"
proof -
  have "take 17 (resolveBlocks E m)
        = [blockLog m] @ blockServer m # take 15 (drop 2 (resolveBlocks E m))"
    by (simp add: resolveBlocks_def)
  with assms have "runBlocks ([blockLog m] @ blockServer m
                      # take 15 (drop 2 (resolveBlocks E m))) (initialParams E) = Inr p"
    by simp
  then obtain p0 p1 where
    s: "blockServer m p0 = Inr p1" and
    rest: "runBlocks (take 15 (drop 2 (resolveBlocks E m))) p1 = Inr p"
    unfolding runBlocks_append_Inr runBlocks_Cons_Inr by blast
  show ?thesis
    using runBlocks_keeps [OF keeps_database_between rest] blockServer_Inr(2) [OF s] by simp
qed

text \<open>The struct before the block for the application intent and after it.\<close>

lemma resolve_intent:
  assumes "resolveParams E m = Inr q"
  shows "\<exists>p p'. database p = index m ''database'' \<and> typeFlags p = 0
           \<and> blockAppIntent E m p = Inr p' \<and> typeFlags q = typeFlags p'"
proof -
  from resolve_at [OF assms, of 17] obtain p p' where
    pre: "runBlocks (take 17 (resolveBlocks E m)) (initialParams E) = Inr p" and
    b: "(resolveBlocks E m ! 17) p = Inr p'" and
    post: "runBlocks (drop 18 (resolveBlocks E m)) p' = Inr q"
    by auto
  have 1: "database p = index m ''database''"
    by (rule database_before_intent [OF pre])
  have 2: "typeFlags p = 0"
    using runBlocks_keeps [OF keeps_typeFlags_before pre] by (simp add: initialParams_def)
  have 3: "blockAppIntent E m p = Inr p'"
    using b by (simp add: resolveBlocks_def)
  have 4: "typeFlags q = typeFlags p'"
    by (rule runBlocks_keeps [OF keeps_typeFlags_after post])
  from 1 2 3 4 show ?thesis
    by blast
qed

text \<open>
  C7. With \<open>applicationintent\<close> equal to \<open>ReadOnly\<close>: the block for it returns the error
  when the database of the struct is empty and sets the bit \<open>fReadOnlyIntent\<close> otherwise;
  so a resolution with no database in the map fails, and a successful resolution with
  one has the bit set (and no other bit of \<open>typeFlags\<close>).
\<close>

theorem C7_read_only_intent:
  assumes "m ''applicationintent'' = Some ''ReadOnly''"
  shows "(index m ''database'' = [] \<longrightarrow> (\<exists>err. resolveParams E m = Inl err))
       \<and> (index m ''database'' \<noteq> [] \<longrightarrow>
            (\<forall>q. resolveParams E m = Inr q \<longrightarrow>
               typeFlags q = fReadOnlyIntent E
               \<and> typeFlags q AND fReadOnlyIntent E = fReadOnlyIntent E))
       \<and> blockAppIntent E m p =
            (if database p = [] then Inl DatabaseMustBeSpecified
             else Inr (p\<lparr>typeFlags := typeFlags p OR fReadOnlyIntent E\<rparr>))"
proof (intro conjI impI allI)
  assume empty: "index m ''database'' = []"
  show "\<exists>err. resolveParams E m = Inl err"
  proof (cases "resolveParams E m")
    case (Inl err)
    then show ?thesis by simp
  next
    case (Inr q)
    from resolve_intent [OF Inr] obtain p p' where
      "database p = index m ''database''" and "blockAppIntent E m p = Inr p'"
      by blast
    then show ?thesis
      using assms empty by (simp add: blockAppIntent_def)
  qed
next
  fix q
  assume db: "index m ''database'' \<noteq> []" and r: "resolveParams E m = Inr q"
  from resolve_intent [OF r] obtain p p' where
    p: "database p = index m ''database''" "typeFlags p = 0" and
    b: "blockAppIntent E m p = Inr p'" and
    t: "typeFlags q = typeFlags p'"
    by blast
  from b p db assms have "typeFlags p' = fReadOnlyIntent E"
    by (auto simp: blockAppIntent_def)
  with t show "typeFlags q = fReadOnlyIntent E"
    by simp
  then show "typeFlags q AND fReadOnlyIntent E = fReadOnlyIntent E"
    by simp
next
  show "blockAppIntent E m p =
          (if database p = [] then Inl DatabaseMustBeSpecified
           else Inr (p\<lparr>typeFlags := typeFlags p OR fReadOnlyIntent E\<rparr>))"
    using assms by (simp add: blockAppIntent_def)
qed

text \<open>
  The spec's examples: \<open>applicationintent=ReadOnly\<close> alone is the error, and with
  \<open>database=foo\<close> it sets the flag.
\<close>

theorem C7_read_only_intent_witness:
  "parseConnectParams exampleEnv ''applicationintent=ReadOnly'' = Inl DatabaseMustBeSpecified
   \<and> map_sum id typeFlags (parseConnectParams exampleEnv ''applicationintent=ReadOnly;database=foo'')
       = Inr (fReadOnlyIntent exampleEnv)"
proof -
  define m where "m = splitConnectionString ''applicationintent=ReadOnly;database=foo''"
  have m: "m = [''applicationintent'' \<mapsto> ''ReadOnly'', ''database'' \<mapsto> ''foo'']"
    by (simp add: m_def tokenizer_defs eval_defs)
  have dsn: "parseConnectParams exampleEnv ''applicationintent=ReadOnly;database=foo''
             = resolveParams exampleEnv m"
    by (simp add: parseConnectParams_def HasPrefix_def m_def)
  have "\<exists>q. resolveParams exampleEnv m = Inr q"
    by (simp add: m eval_defs resolve_defs block_defs)
  then obtain q where q: "resolveParams exampleEnv m = Inr q" ..
  have a: "m ''applicationintent'' = Some ''ReadOnly''"
    by (simp add: m)
  have d: "index m ''database'' \<noteq> []"
    by (simp add: m index_def)
  from C7_read_only_intent [where m = m and E = exampleEnv and p = "initialParams exampleEnv", OF a]
    d q
  have "typeFlags q = fReadOnlyIntent exampleEnv"
    by blast
  then have 2: "map_sum id typeFlags
      (parseConnectParams exampleEnv ''applicationintent=ReadOnly;database=foo'')
       = Inr (fReadOnlyIntent exampleEnv)"
    using dsn q by simp
  have 1: "parseConnectParams exampleEnv ''applicationintent=ReadOnly''
           = Inl DatabaseMustBeSpecified"
    by (simp add: tokenizer_defs eval_defs resolve_defs block_defs)
  from 1 2 show ?thesis
    by simp
qed

lemma intent_error_source:
  assumes "b \<in> set (resolveBlocks E m)" and "b p = Inl DatabaseMustBeSpecified"
  shows "b = blockAppIntent E m"
  using assms
  by (auto simp: resolveBlocks_def block_defs Let_def
      split: option.splits sum.splits if_splits list.splits)

text \<open>
  C10. With \<open>applicationintent\<close> equal to anything but the exact text \<open>ReadOnly\<close>, the
  block for it returns the struct as it is; a successful resolution has \<open>typeFlags\<close> as
  it was at the start, zero; and no resolution fails with the error of the application
  intent.
\<close>

theorem C10_other_intent_ignored:
  assumes "m ''applicationintent'' = Some v" and "v \<noteq> ''ReadOnly''"
  shows "blockAppIntent E m p = Inr p
       \<and> typeFlags (initialParams E) = 0
       \<and> (case resolveParams E m of
            Inr q \<Rightarrow> typeFlags q = typeFlags (initialParams E)
          | Inl err \<Rightarrow> err \<noteq> DatabaseMustBeSpecified)"
proof (intro conjI)
  show same: "blockAppIntent E m p = Inr p" for p
    using assms by (simp add: blockAppIntent_def)
  show zero: "typeFlags (initialParams E) = 0"
    by (simp add: initialParams_def)
  show "case resolveParams E m of
          Inr q \<Rightarrow> typeFlags q = typeFlags (initialParams E)
        | Inl err \<Rightarrow> err \<noteq> DatabaseMustBeSpecified"
  proof (cases "resolveParams E m")
    case (Inr q)
    from resolve_intent [OF Inr] obtain p p' where
      "typeFlags p = 0" and "blockAppIntent E m p = Inr p'" and "typeFlags q = typeFlags p'"
      by blast
    then have "typeFlags q = 0"
      using same [of p] by simp
    then show ?thesis
      using Inr zero by simp
  next
    case (Inl err)
    have "err \<noteq> DatabaseMustBeSpecified"
    proof
      assume eq: "err = DatabaseMustBeSpecified"
      from Inl obtain b p' where b: "b \<in> set (resolveBlocks E m)" and bp: "b p' = Inl err"
        unfolding resolveParams_def by (blast dest: runBlocks_Inl_source)
      have "b = blockAppIntent E m"
        using intent_error_source [OF b] bp eq by simp
      then show False
        using same [of p'] bp by simp
    qed
    then show ?thesis
      using Inl by simp
  qed
qed

text \<open>\<open>applicationintent=readonly\<close> and \<open>READONLY\<close> resolve, without a database, to no flag.\<close>

theorem C10_other_intent_ignored_witness:
  "map_sum id typeFlags (parseConnectParams exampleEnv ''applicationintent=readonly'') = Inr 0
   \<and> map_sum id typeFlags (parseConnectParams exampleEnv ''applicationintent=READONLY'') = Inr 0"
proof -
  define m where "m = splitConnectionString ''applicationintent=readonly''"
  have m: "m = [''applicationintent'' \<mapsto> ''readonly'']"
    by (simp add: m_def tokenizer_defs eval_defs)
  have dsn: "parseConnectParams exampleEnv ''applicationintent=readonly''
             = resolveParams exampleEnv m"
    by (simp add: parseConnectParams_def HasPrefix_def m_def)
  have "\<exists>q. resolveParams exampleEnv m = Inr q"
    by (simp add: m eval_defs resolve_defs block_defs)
  then obtain q where q: "resolveParams exampleEnv m = Inr q" ..
  have a: "m ''applicationintent'' = Some ''readonly''"
    by (simp add: m)
  have "typeFlags q = 0"
    using C10_other_intent_ignored
      [where m = m and v = "''readonly''" and E = exampleEnv and p = "initialParams exampleEnv", OF a]
      q
    by simp
  then have 1: "map_sum id typeFlags (parseConnectParams exampleEnv ''applicationintent=readonly'')
                = Inr 0"
    using dsn q by simp
  have 2: "map_sum id typeFlags (parseConnectParams exampleEnv ''applicationintent=READONLY'')
           = Inr 0"
    by (simp add: tokenizer_defs eval_defs resolve_defs block_defs)
  from 1 2 show ?thesis
    by simp
qed

subsection \<open>C2: braced values of the ODBC syntax\<close>

lemma odbcLoop_append:
  "odbcLoop (xs @ ys) P = (case odbcLoop xs P of Inl e \<Rightarrow> Inl e | Inr P' \<Rightarrow> odbcLoop ys P')"
  by (induction xs arbitrary: P) (auto split: sum.splits)

lemma IsSpace_punct [simp]: "\<not> IsSpace 59" "\<not> IsSpace 125" "\<not> IsSpace 61" "\<not> IsSpace 123"
  by (simp_all add: IsSpace_def)

text \<open>Inside a braced value the loop appends every rune, and one \<open>}\<close> for every two.\<close>

lemma braced_content:
  assumes "state P = parserStateBracedValue" and "map snd ics = doubleBraces v"
  shows "odbcLoop ics P = Inr (P\<lparr>value := value P @ concat (map encodeRune v)\<rparr>)"
  using assms
proof (induction v arbitrary: ics P)
  case Nil
  then show ?case
    by (simp add: doubleBraces_def)
next
  case (Cons c v)
  show ?case
  proof (cases "c = 125")
    case True
    with Cons.prems(2) obtain i1 i2 ics' where
      ics: "ics = (i1, 125) # (i2, 125) # ics'" and rest: "map snd ics' = doubleBraces v"
      by (auto simp: doubleBraces_def map_eq_Cons_conv)
    define P1 where "P1 = P\<lparr>value := value P @ encodeRune 125\<rparr>"
    have s1: "odbcStep P (i1, 125) = Inr (P\<lparr>state := parserStateBracedValueClosingBrace\<rparr>)"
      using Cons.prems(1) by (simp add: odbcStep_def)
    have s2: "odbcStep (P\<lparr>state := parserStateBracedValueClosingBrace\<rparr>) (i2, 125) = Inr P1"
      using Cons.prems(1) by (simp add: odbcStep_def P1_def)
    have "state P1 = parserStateBracedValue"
      using Cons.prems(1) by (simp add: P1_def)
    from Cons.IH [OF this rest]
    have "odbcLoop ics' P1 = Inr (P1\<lparr>value := value P1 @ concat (map encodeRune v)\<rparr>)" .
    then show ?thesis
      using s1 s2 True by (simp add: ics P1_def)
  next
    case False
    with Cons.prems(2) obtain i ics' where
      ics: "ics = (i, c) # ics'" and rest: "map snd ics' = doubleBraces v"
      by (auto simp: doubleBraces_def map_eq_Cons_conv)
    define P1 where "P1 = P\<lparr>value := value P @ encodeRune c\<rparr>"
    have s1: "odbcStep P (i, c) = Inr P1"
      using Cons.prems(1) False by (simp add: odbcStep_def P1_def)
    have "state P1 = parserStateBracedValue"
      using Cons.prems(1) by (simp add: P1_def)
    from Cons.IH [OF this rest]
    have "odbcLoop ics' P1 = Inr (P1\<lparr>value := value P1 @ concat (map encodeRune v)\<rparr>)" .
    then show ?thesis
      using s1 by (simp add: ics P1_def)
  qed
qed

text \<open>
  C2. Let the loop be inside a braced value (state \<open>BracedValue\<close>) and let the next
  runes be a value \<open>v\<close> with every \<open>}\<close> doubled; \<open>v\<close> is any list of runes, with \<open>{\<close>,
  \<open>=\<close>, \<open>;\<close> and spaces among them. Then the loop appends \<open>v\<close> to the value, rune for
  rune, one \<open>}\<close> for each pair. A single \<open>}\<close> after it closes the value: at the end of
  the input the value is stored as it is; a \<open>;\<close> stores it and goes back to the start of
  a key; a space stores it and waits for a separator; any other rune is the error
  \<open>UnexpectedCharacter\<close>. After the value (state \<open>EndValue\<close>) any rune but \<open>;\<close> and space is
  that error too.
\<close>

theorem C2_braced_value:
  assumes "state P = parserStateBracedValue" and "map snd ics = doubleBraces v"
  shows "odbcLoop ics P = Inr (P\<lparr>value := value P @ concat (map encodeRune v)\<rparr>)
       \<and> odbcLoop (ics @ [(i, 125)]) P
           = Inr (P\<lparr>value := value P @ concat (map encodeRune v),
                     state := parserStateBracedValueClosingBrace\<rparr>)
       \<and> (case odbcLoop (ics @ [(i, 125)]) P of
            Inl e \<Rightarrow> False
          | Inr P' \<Rightarrow> odbcFinish n P'
                     = Inr ((res P)(key P \<mapsto> value P @ concat (map encodeRune v))))
       \<and> odbcLoop (ics @ [(i, 125), (j, 59)]) P
           = Inr (P\<lparr>res := (res P)(key P \<mapsto> value P @ concat (map encodeRune v)),
                     key := [], value := [], state := parserStateBeforeKey\<rparr>)
       \<and> (IsSpace c \<longrightarrow>
            odbcLoop (ics @ [(i, 125), (j, c)]) P
            = Inr (P\<lparr>res := (res P)(key P \<mapsto> value P @ concat (map encodeRune v)),
                      key := [], value := [], state := parserStateEndValue\<rparr>))
       \<and> (c \<noteq> 125 \<and> c \<noteq> 59 \<and> \<not> IsSpace c \<longrightarrow>
            odbcLoop (ics @ (i, 125) # (j, c) # rest) P = Inl (UnexpectedCharacter c j))
       \<and> (state Q = parserStateEndValue \<and> c \<noteq> 59 \<and> \<not> IsSpace c \<longrightarrow>
            odbcLoop ((j, c) # rest) Q = Inl (UnexpectedCharacter c j))"
proof -
  define P1 where "P1 = P\<lparr>value := value P @ concat (map encodeRune v)\<rparr>"
  have content: "odbcLoop ics P = Inr P1"
    unfolding P1_def by (rule braced_content [OF assms])
  have st: "state P1 = parserStateBracedValue"
    using assms(1) by (simp add: P1_def)
  have close: "odbcStep P1 (i, 125) = Inr (P1\<lparr>state := parserStateBracedValueClosingBrace\<rparr>)"
    using st by (simp add: odbcStep_def)
  have 2: "odbcLoop (ics @ [(i, 125)]) P
           = Inr (P\<lparr>value := value P @ concat (map encodeRune v),
                     state := parserStateBracedValueClosingBrace\<rparr>)"
    using content close by (simp add: odbcLoop_append P1_def)
  have 3: "case odbcLoop (ics @ [(i, 125)]) P of
            Inl e \<Rightarrow> False
          | Inr P' \<Rightarrow> odbcFinish n P'
                     = Inr ((res P)(key P \<mapsto> value P @ concat (map encodeRune v)))"
    by (simp add: 2 odbcFinish_def)
  have 4: "odbcLoop (ics @ [(i, 125), (j, 59)]) P
           = Inr (P\<lparr>res := (res P)(key P \<mapsto> value P @ concat (map encodeRune v)),
                     key := [], value := [], state := parserStateBeforeKey\<rparr>)"
    using content close by (simp add: odbcLoop_append P1_def odbcStep_def)
  have 5: "odbcLoop (ics @ [(i, 125), (j, c)]) P
            = Inr (P\<lparr>res := (res P)(key P \<mapsto> value P @ concat (map encodeRune v)),
                      key := [], value := [], state := parserStateEndValue\<rparr>)"
    if "IsSpace c"
  proof -
    from that have "c \<noteq> 125" "c \<noteq> 59"
      by auto
    with that show ?thesis
      using content close by (simp add: odbcLoop_append P1_def odbcStep_def)
  qed
  have 6: "odbcLoop (ics @ (i, 125) # (j, c) # rest) P = Inl (UnexpectedCharacter c j)"
    if "c \<noteq> 125" "c \<noteq> 59" "\<not> IsSpace c"
    using that content close by (simp add: odbcLoop_append P1_def odbcStep_def)
  have 7: "odbcLoop ((j, c) # rest) Q = Inl (UnexpectedCharacter c j)"
    if "state Q = parserStateEndValue" "c \<noteq> 59" "\<not> IsSpace c"
    using that by (simp add: odbcStep_def)
  from content 2 3 4 5 6 7 show ?thesis
    unfolding P1_def by blast
qed

text \<open>
  The spec's example: the ODBC value \<open>{a}}b}\<close> is the value \<open>a}b\<close>, also with a
  separator after it; a letter after the closing brace is the error. Braces, \<open>=\<close>, \<open>;\<close>
  and spaces inside the braces are part of the value.
\<close>

theorem C2_braced_value_witness:
  "splitConnectionStringOdbc ''password={a}}b}'' = Inr [''password'' \<mapsto> ''a}b'']
   \<and> splitConnectionStringOdbc ''password={a}}b} ; '' = Inr [''password'' \<mapsto> ''a}b'']
   \<and> splitConnectionStringOdbc ''password={a}}b}x'' = Inl (UnexpectedCharacter 120 15)
   \<and> splitConnectionStringOdbc ''password={ {a=b; }}c }'' = Inr [''password'' \<mapsto> '' {a=b; }c '']
   \<and> map_sum id password (parseConnectParams exampleEnv ''odbc:password={a}}b}'') = Inr ''a}b''"
proof -
  define P where "P = \<lparr> state = parserStateBracedValue, key = ''password'', value = [],
                         res = Map.empty \<rparr>"
  define ics :: "(nat \<times> rune) list" where "ics = [(10, 97), (11, 125), (12, 125), (13, 98)]"
  have r: "rangeString ''password={a}}b}'' = rangeString ''password={'' @ ics @ [(14, 125)]"
    by (simp add: eval_defs ics_def)
  have pre: "odbcLoop (rangeString ''password={'') odbcStart = Inr P"
    by (simp add: eval_defs tokenizer_defs P_def)
  have st: "state P = parserStateBracedValue"
    by (simp add: P_def)
  have v: "map snd ics = doubleBraces [97, 125, 98]"
    by (simp add: ics_def doubleBraces_def)
  from C2_braced_value [OF st v, of 14 15]
  have "case odbcLoop (ics @ [(14, 125)]) P of
          Inl e \<Rightarrow> False
        | Inr P' \<Rightarrow> odbcFinish 15 P'
                   = Inr ((res P)(key P \<mapsto> value P @ concat (map encodeRune [97, 125, 98])))"
    by blast
  moreover have len: "length ''password={a}}b}'' = 15"
    by simp
  ultimately have 1: "splitConnectionStringOdbc ''password={a}}b}'' = Inr [''password'' \<mapsto> ''a}b'']"
    unfolding splitConnectionStringOdbc_def r odbcLoop_append pre len
    by (auto simp: P_def eval_defs split: sum.splits)
  have 2: "splitConnectionStringOdbc ''password={a}}b} ; '' = Inr [''password'' \<mapsto> ''a}b'']"
    by (simp add: eval_defs tokenizer_defs)
  have 3: "splitConnectionStringOdbc ''password={a}}b}x'' = Inl (UnexpectedCharacter 120 15)"
    by (simp add: eval_defs tokenizer_defs)
  have 4: "splitConnectionStringOdbc ''password={ {a=b; }}c }''
           = Inr [''password'' \<mapsto> '' {a=b; }c '']"
    by (simp add: eval_defs tokenizer_defs)
  have 5: "map_sum id password (parseConnectParams exampleEnv ''odbc:password={a}}b}'')
           = Inr ''a}b''"
    by (simp add: eval_defs tokenizer_defs resolve_defs block_defs)
  from 1 2 3 4 5 show ?thesis
    by simp
qed

subsection \<open>The parsed URL of a DSN that starts with sqlserver://\<close>

lemma unescape_slash:
  "unescape (CHR ''/'' # b) encodePath = Inr p \<Longrightarrow> p \<noteq> [] \<and> hd p = CHR ''/''"
  by (auto split: sum.splits)

lemma setPath_fields:
  assumes "setPath u p = Inr u'"
  shows "Scheme u' = Scheme u" and "RawQuery u' = RawQuery u" and "Host u' = Host u"
    and "User u' = User u"
    and "p = [] \<Longrightarrow> Path u' = []"
    and "p = CHR ''/'' # b \<Longrightarrow> Path u' \<noteq> [] \<and> hd (Path u') = CHR ''/''"
  using assms unescape_slash [of b]
  by (auto simp: setPath_def split: sum.splits)

lemma setFragment_fields:
  assumes "setFragment u f = Inr u'"
  shows "Scheme u' = Scheme u" and "RawQuery u' = RawQuery u" and "Host u' = Host u"
    and "User u' = User u" and "Path u' = Path u"
  using assms by (auto simp: setFragment_def split: sum.splits)

lemma getScheme_sqlserver:
  "getScheme (''sqlserver://'' @ t) = Inr (''sqlserver'', ''//'' @ t)"
  by (simp add: getScheme_def isAlpha_def isDigit_def byte_def)

text \<open>The text between the authority and the query: empty, or a path from a slash on.\<close>

lemma drop_authority:
  "drop (length (case Cut (CHR ''/'') a of None \<Rightarrow> a | Some (before, _) \<Rightarrow> before)) a = []
   \<or> (\<exists>b. drop (length (case Cut (CHR ''/'') a of None \<Rightarrow> a | Some (before, _) \<Rightarrow> before)) a
           = CHR ''/'' # b)"
proof (cases "Cut (CHR ''/'') a")
  case None
  then show ?thesis by simp
next
  case (Some ab)
  obtain x y where ab: "ab = (x, y)" by (cases ab)
  from Cut_SomeD [of "CHR ''/''" a x y] Some ab show ?thesis
    by simp
qed

lemma cutQuery_slashes:
  assumes "cutQuery (''//'' @ t) u = (rest, u2)"
  shows "\<exists>a. rest = ''//'' @ a" and "Scheme u2 = Scheme u"
proof -
  show "\<exists>a. rest = ''//'' @ a"
  proof (cases "t = []")
    case True
    with assms show ?thesis
      by (simp add: cutQuery_def)
  next
    case False
    with assms show ?thesis
      by (auto simp: cutQuery_def butlast_append split: if_splits option.splits)
  qed
  show "Scheme u2 = Scheme u"
    using assms by (auto simp: cutQuery_def split: if_splits option.splits)
qed

lemma parseHier_authority:
  assumes "Scheme u \<noteq> []"
  shows "parseHier u (CHR ''/'' # CHR ''/'' # a)
         = (case parseAuthority (case Cut (CHR ''/'') a of None \<Rightarrow> a | Some (before, _) \<Rightarrow> before) of
              Inl e \<Rightarrow> Inl e
            | Inr (user', host') \<Rightarrow>
                setPath (u\<lparr>User := user', Host := host'\<rparr>)
                  (drop (length (case Cut (CHR ''/'') a of None \<Rightarrow> a | Some (before, _) \<Rightarrow> before)) a))"
  using assms by (simp add: parseHier_def HasPrefix_def Let_def)

text \<open>The steps of \<open>parse\<close> on a text that starts with \<open>sqlserver://\<close>.\<close>

lemma parse_sqlserver_steps:
  assumes "parse (''sqlserver://'' @ t) = Inr u"
    and "cutQuery (''//'' @ t) (emptyURL\<lparr>Scheme := ''sqlserver''\<rparr>) = (rest, u2)"
  shows "parseHier u2 rest = Inr u"
proof -
  have "ToLower ''sqlserver'' = ''sqlserver''"
    by (simp add: eval_defs)
  then show ?thesis
    using assms unfolding parse_def getScheme_sqlserver
    by (auto split: if_splits)
qed

lemma parse_sqlserver:
  assumes "parse (''sqlserver://'' @ t) = Inr u"
  shows "Scheme u = ''sqlserver'' \<and> (Path u = [] \<or> hd (Path u) = CHR ''/'')"
proof -
  obtain rest u2 where
    cq: "cutQuery (''//'' @ t) (emptyURL\<lparr>Scheme := ''sqlserver''\<rparr>) = (rest, u2)"
    by (cases "cutQuery (''//'' @ t) (emptyURL\<lparr>Scheme := ''sqlserver''\<rparr>)")
  from cutQuery_slashes [OF cq] obtain a where
    rest: "rest = ''//'' @ a" and sch: "Scheme u2 = ''sqlserver''"
    by auto
  define authority where
    "authority = (case Cut (CHR ''/'') a of None \<Rightarrow> a | Some (before, _) \<Rightarrow> before)"
  have ph: "parseHier u2 (CHR ''/'' # CHR ''/'' # a) = Inr u"
    using parse_sqlserver_steps [OF assms cq] rest by simp
  have "Scheme u2 \<noteq> []"
    using sch by simp
  from ph [unfolded parseHier_authority [OF this]] obtain user' host' where
    sp: "setPath (u2\<lparr>User := user', Host := host'\<rparr>) (drop (length authority) a) = Inr u"
    unfolding authority_def by (auto split: sum.splits)
  from drop_authority [of a]
  have "drop (length authority) a = [] \<or> (\<exists>b. drop (length authority) a = CHR ''/'' # b)"
    by (simp add: authority_def)
  then show ?thesis
    using setPath_fields(1) [OF sp] setPath_fields(5) [OF sp] setPath_fields(6) [OF sp] sch
    by auto
qed

lemma Cut_literal_prefix:
  "Cut (CHR ''#'') (''sqlserver://'' @ t)
   = (case Cut (CHR ''#'') t of None \<Rightarrow> None | Some (a, b) \<Rightarrow> Some (''sqlserver://'' @ a, b))"
  by (simp split: option.splits)

lemma Parse_sqlserver:
  assumes "HasPrefix dsn ''sqlserver://''" and "Parse dsn = Inr u"
  shows "Scheme u = ''sqlserver''" and "Path u = [] \<or> hd (Path u) = CHR ''/''"
proof -
  from assms(1) obtain t where dsn: "dsn = ''sqlserver://'' @ t"
    by (metis HasPrefix_def append_take_drop_id)
  define t0 where "t0 = (case Cut (CHR ''#'') t of None \<Rightarrow> t | Some (a, _) \<Rightarrow> a)"
  have before: "(case Cut (CHR ''#'') dsn of None \<Rightarrow> dsn | Some (before, _) \<Rightarrow> before)
                = ''sqlserver://'' @ t0"
    unfolding dsn Cut_literal_prefix t0_def by (simp split: option.splits)
  from assms(2) obtain u0 where
    p: "parse (''sqlserver://'' @ t0) = Inr u0" and
    f: "u = u0 \<or> (\<exists>frag. setFragment u0 frag = Inr u)"
    unfolding Parse_def Let_def before by (auto split: sum.splits if_splits)
  from parse_sqlserver [OF p] f show "Scheme u = ''sqlserver''"
    by (auto dest: setFragment_fields(1))
  from parse_sqlserver [OF p] f show "Path u = [] \<or> hd (Path u) = CHR ''/''"
    by (auto dest: setFragment_fields(5))
qed

subsection \<open>The query of the URL\<close>

lemma map_of_Add:
  "map_of (Add m k v) k'
   = (if k' = k then Some ((case map_of m k of None \<Rightarrow> [] | Some vs \<Rightarrow> vs) @ [v])
      else map_of m k')"
  by (induction m) auto

lemma keys_Add: "fst ` set (Add m k v) = insert k (fst ` set m)"
proof (induction m)
  case Nil
  then show ?case by simp
next
  case (Cons a m)
  obtain k' vs where a: "a = (k', vs)" by (cases a)
  show ?case
  proof (cases "k' = k")
    case True
    with a show ?thesis by simp
  next
    case False
    with a Cons.IH show ?thesis by (simp add: insert_commute)
  qed
qed

lemma distinct_Add: "distinct (map fst m) \<Longrightarrow> distinct (map fst (Add m k v))"
proof (induction m)
  case Nil
  then show ?case by simp
next
  case (Cons a m)
  obtain k' vs where a: "a = (k', vs)" by (cases a)
  show ?case
  proof (cases "k' = k")
    case True
    with Cons.prems a show ?thesis by simp
  next
    case False
    have "k' \<notin> fst ` set (Add m k v)"
      using Cons.prems a False by (simp add: keys_Add)
    with Cons a False show ?thesis by simp
  qed
qed

lemma distinct_parsePairs:
  "distinct (map fst m) \<Longrightarrow> distinct (map fst (parsePairs pairs m))"
  by (induction pairs arbitrary: m) (auto simp: parsePair_def distinct_Add split: option.splits)

text \<open>The values of a key in the parsed query are its occurrences in the accepted pairs.\<close>

lemma map_of_parsePairs:
  "map_of (parsePairs pairs m) k
   = (let occ = map snd (filter (\<lambda>kv. fst kv = k) (List.map_filter acceptedPair pairs))
      in if occ = [] then map_of m k
         else Some ((case map_of m k of None \<Rightarrow> [] | Some vs \<Rightarrow> vs) @ occ))"
proof (induction pairs arbitrary: m)
  case Nil
  then show ?case by (simp add: List.map_filter_simps)
next
  case (Cons pair pairs)
  show ?case
  proof (cases "acceptedPair pair")
    case None
    then show ?thesis
      using Cons.IH [of m] by (simp add: parsePair_def List.map_filter_simps)
  next
    case (Some kv)
    obtain k' v' where kv: "kv = (k', v')" by (cases kv)
    show ?thesis
      using Cons.IH [of "Add m k' v'"] Some kv
      by (auto simp: parsePair_def List.map_filter_simps map_of_Add Let_def split: option.splits)
  qed
qed

lemma Query_occurrences:
  "(k, vs) \<in> set (Query u) \<longleftrightarrow> vs = queryOccurrences u k \<and> vs \<noteq> []"
proof (cases "RawQuery u = []")
  case True
  then show ?thesis
    by (auto simp: Query_def queryOccurrences_def List.map_filter_simps acceptedPair_def)
next
  case False
  have d: "distinct (map fst (Query u))"
    using False by (simp add: Query_def distinct_parsePairs)
  have "(k, vs) \<in> set (Query u) \<longleftrightarrow> map_of (Query u) k = Some vs"
    using d by simp
  also have "\<dots> \<longleftrightarrow> vs = queryOccurrences u k \<and> vs \<noteq> []"
    using False by (auto simp: Query_def map_of_parsePairs queryOccurrences_def Let_def)
  finally show ?thesis .
qed

subsection \<open>The loop over the query\<close>

lemma queryLoop_other_key:
  assumes "queryLoop q r0 = Inr r" and "\<forall>kv \<in> set q. ToLower (fst kv) \<noteq> k"
  shows "r k = r0 k"
  using assms
proof (induction q arbitrary: r0)
  case Nil
  then show ?case by simp
next
  case (Cons a q)
  obtain k' vs where a: "a = (k', vs)" by (cases a)
  from Cons.prems(1) a obtain v0 where
    rest: "queryLoop q (r0(ToLower k' \<mapsto> v0)) = Inr r"
    by (auto split: if_splits list.splits)
  have "\<forall>kv \<in> set q. ToLower (fst kv) \<noteq> k" and "ToLower k' \<noteq> k"
    using Cons.prems(2) a by simp_all
  with Cons.IH [OF rest] show ?case
    by auto
qed


subsection \<open>C4: the server of a URL\<close>

text \<open>
  C4, as the code has it. For a DSN that starts with \<open>sqlserver://\<close> and parses as a
  URL, whose query has no key that is \<open>server\<close> in lower case: the path of the URL is
  empty or starts with a slash, and the entry \<open>server\<close> is the host when the path is
  empty, and otherwise the host, a backslash and the whole path after its first
  character, further segments and their slashes included. The host is that of
  \<open>SplitHostPort\<close>, or the whole \<open>Host\<close> of the URL when that has no port.
\<close>

theorem C4_server_of_url:
  assumes "HasPrefix dsn ''sqlserver://''" and "Parse dsn = Inr u"
    and "splitConnectionStringURL E dsn = Inr ps"
    and "\<forall>kv \<in> set (mapOrder E (Query u)). ToLower (fst kv) \<noteq> ''server''"
  shows "(Path u = [] \<or> hd (Path u) = CHR ''/'')
       \<and> ps ''server''
           = Some (if Path u = []
                   then (case SplitHostPort (Host u) of None \<Rightarrow> Host u | Some (h, _) \<Rightarrow> h)
                   else (case SplitHostPort (Host u) of None \<Rightarrow> Host u | Some (h, _) \<Rightarrow> h)
                        @ [CHR 0x5C] @ tl (Path u))"
proof -
  define host' where
    "host' = (case SplitHostPort (Host u) of None \<Rightarrow> Host u | Some (h, _) \<Rightarrow> h)"
  from assms(2,3) obtain r0 where
    loop: "queryLoop (mapOrder E (Query u)) r0 = Inr ps" and
    r0: "r0 ''server'' = Some (if Path u = [] then host' else host' @ [CHR 0x5C] @ tl (Path u))"
    by (auto simp: splitConnectionStringURL_def urlParams_def Let_def host'_def
        split: if_splits)
  from queryLoop_other_key [OF loop assms(4)] r0
  have "ps ''server'' = Some (if Path u = [] then host' else host' @ [CHR 0x5C] @ tl (Path u))"
    by simp
  with Parse_sqlserver(2) [OF assms(1,2)] show ?thesis
    by (simp add: host'_def)
qed

text \<open>A URL with a port, a path of two segments and a query; and one with no path.\<close>

theorem C4_server_of_url_witness:
  "map_sum id (\<lambda>ps. ps ''server'')
     (splitConnectionStringURL exampleEnv ''sqlserver://sa:pw@db1:1433/inst1/extra?database=foo'')
     = Inr (Some (''db1'' @ [CHR 0x5C] @ ''inst1/extra''))
   \<and> map_sum id (\<lambda>ps. ps ''server'')
       (splitConnectionStringURL exampleEnv ''sqlserver://db1?database=foo'') = Inr (Some ''db1'')"
proof -
  define dsn where "dsn = ''sqlserver://sa:pw@db1:1433/inst1/extra?database=foo''"
  define u where
    "u = emptyURL\<lparr>Scheme := ''sqlserver'', User := Some (''sa'', Some ''pw''),
                  Host := ''db1:1433'', Path := ''/inst1/extra'', RawQuery := ''database=foo''\<rparr>"
  have pre: "HasPrefix dsn ''sqlserver://''"
    by (simp add: dsn_def HasPrefix_def)
  have p: "Parse dsn = Inr u"
    by (simp add: dsn_def u_def url_defs eval_defs)
  have q: "Query u = [(''database'', [''foo''])]"
    by (simp add: u_def url_defs eval_defs)
  have "\<exists>ps. splitConnectionStringURL exampleEnv dsn = Inr ps"
    by (simp add: dsn_def url_defs eval_defs exampleEnv_def)
  then obtain ps where ps: "splitConnectionStringURL exampleEnv dsn = Inr ps" ..
  have k: "\<forall>kv \<in> set (mapOrder exampleEnv (Query u)). ToLower (fst kv) \<noteq> ''server''"
    by (simp add: q exampleEnv_def eval_defs)
  from C4_server_of_url [OF pre p ps k]
  have "ps ''server'' = Some (''db1'' @ [CHR 0x5C] @ ''inst1/extra'')"
    by (simp add: u_def emptyURL_def SplitHostPort_def LastIndex_def)
  then have 1: "map_sum id (\<lambda>ps. ps ''server'') (splitConnectionStringURL exampleEnv dsn)
                = Inr (Some (''db1'' @ [CHR 0x5C] @ ''inst1/extra''))"
    using ps by simp
  have 2: "map_sum id (\<lambda>ps. ps ''server'')
       (splitConnectionStringURL exampleEnv ''sqlserver://db1?database=foo'') = Inr (Some ''db1'')"
    by (simp add: url_defs eval_defs exampleEnv_def)
  from 1 2 show ?thesis
    by (simp add: dsn_def)
qed

text \<open>
  C4 as stated fails: with the path \<open>/inst1/extra\<close> the entry \<open>server\<close> holds both
  segments after the backslash, and so does the resolved instance.
\<close>

theorem C4_counterexample:
  "map_sum id (\<lambda>ps. ps ''server'') (splitConnectionStringURL exampleEnv ''sqlserver://db1/inst1/extra'')
     = Inr (Some (''db1'' @ [CHR 0x5C] @ ''inst1/extra''))
   \<and> map_sum id instance (parseConnectParams exampleEnv ''sqlserver://db1/inst1/extra'')
       = Inr ''inst1/extra''"
  by (simp add: url_defs eval_defs tokenizer_defs resolve_defs block_defs)

subsection \<open>C5: a query key given more than once\<close>




subsection \<open>Escaping a query component and unescaping it\<close>

lemma chr_byte [simp]: "chr (byte c) = c"
  by (simp add: chr_def byte_def)

lemma byte_less [simp]: "byte c < 256"
  by (simp add: byte_def)

lemma less_16_cases:
  assumes "n < (16::nat)"
  shows "n \<in> set [0, 1, 2, 3, 4, 5, 6, 7, 8, 9, 10, 11, 12, 13, 14, 15]"
  using assms by (auto simp: eval_nat_numeral less_Suc_eq)

lemma byte_div_16 [simp]: "byte c div 16 < 16"
  by (rule less_mult_imp_div_less) simp

lemma upperhex_props:
  assumes "n < 16"
  shows "unhex (upperhex n) = n" and "ishex (upperhex n)"
    and "upperhex n \<in> set ''0123456789ABCDEF''"
  using less_16_cases [OF assms]
  by (auto simp: upperhex_def unhex_def ishex_def isDigit_def byte_def)

lemma hex_of_byte:
  "unhex (upperhex (byte c div 16)) * 16 + unhex (upperhex (byte c mod 16)) = byte c"
  by (simp add: upperhex_props(1))

lemma shouldEscape_query_special:
  "shouldEscape (CHR ''%'') encodeQueryComponent" "shouldEscape (CHR ''+'') encodeQueryComponent"
  by (simp_all add: shouldEscape_def isAlpha_def isDigit_def byte_def)

lemma unescape_escapeByte:
  "unescape (escapeByte encodeQueryComponent c @ rest) encodeQueryComponent
   = (case unescape rest encodeQueryComponent of Inl e \<Rightarrow> Inl e | Inr t \<Rightarrow> Inr (c # t))"
proof (cases "shouldEscape c encodeQueryComponent")
  case False
  then have "c \<noteq> CHR ''%''" and "c \<noteq> CHR ''+''"
    using shouldEscape_query_special by auto
  with False show ?thesis
    by (simp add: escapeByte_def)
next
  case True
  show ?thesis
  proof (cases "c = CHR '' ''")
    case space: True
    have "unescape (escapeByte encodeQueryComponent (CHR '' '') @ rest) encodeQueryComponent
          = (case unescape rest encodeQueryComponent of
               Inl e \<Rightarrow> Inl e
             | Inr t \<Rightarrow> Inr (CHR '' '' # t))"
      by (simp add: escapeByte_def shouldEscape_def isAlpha_def isDigit_def byte_def)
    then show ?thesis
      unfolding space .
  next
    case False
    have d: "byte c div 16 < 16"
      by simp
    have m: "byte c mod 16 < 16"
      by simp
    from True False show ?thesis
      by (simp add: escapeByte_def upperhex_props(2) [OF d] upperhex_props(2) [OF m] hex_of_byte
          split: sum.splits)
  qed
qed

lemma QueryUnescape_QueryEscape: "QueryUnescape (QueryEscape s) = Inr s"
proof -
  have "unescape (concat (map (escapeByte encodeQueryComponent) s)) encodeQueryComponent = Inr s"
    by (induction s) (simp_all add: unescape_escapeByte)
  then show ?thesis
    by (simp add: QueryUnescape_def QueryEscape_def escape_def)
qed

text \<open>A byte that is escaped, and is none of the bytes an escape is written with, is gone.\<close>

lemma escape_removes:
  assumes "shouldEscape x mode" and "x \<notin> set ''%+0123456789ABCDEF''"
  shows "x \<notin> set (escape s mode)"
proof -
  have "x \<notin> set (escapeByte mode c)" for c
  proof -
    have "upperhex (byte c div 16) \<in> set ''0123456789ABCDEF''"
      by (intro upperhex_props(3)) simp
    moreover have "upperhex (byte c mod 16) \<in> set ''0123456789ABCDEF''"
      by (intro upperhex_props(3)) simp
    ultimately show ?thesis
      using assms by (auto simp: escapeByte_def)
  qed
  then show ?thesis
    by (auto simp: escape_def)
qed

lemma escape_no_query_mark:
  "mode \<in> {encodeUserPassword, encodeHost, encodePath, encodeQueryComponent} \<Longrightarrow>
     CHR ''?'' \<notin> set (escape s mode)"
  by (rule escape_removes) (auto simp: shouldEscape_def isAlpha_def isDigit_def byte_def)

lemma escape_no_hash: "CHR ''#'' \<notin> set (escape s mode)"
  by (rule escape_removes) (auto simp: shouldEscape_def isAlpha_def isDigit_def byte_def)

lemma QueryEscape_no_separator:
  "CHR ''&'' \<notin> set (QueryEscape s)" "CHR '';'' \<notin> set (QueryEscape s)"
  "CHR ''='' \<notin> set (QueryEscape s)" "CHR ''?'' \<notin> set (QueryEscape s)"
  "CHR ''#'' \<notin> set (QueryEscape s)"
  unfolding QueryEscape_def
  by (rule escape_removes; simp add: shouldEscape_def isAlpha_def isDigit_def byte_def)+

subsection \<open>Encoding the values and parsing the query\<close>

lemma Split_no_separator: "c \<notin> set x \<Longrightarrow> Split c x = [x]"
  by (induction x) auto

lemma Split_append: "c \<notin> set x \<Longrightarrow> Split c (x @ c # rest) = x # Split c rest"
  by (induction x) (auto split: list.splits)

lemma Split_joinAmp:
  assumes "xs \<noteq> []" and "\<forall>x \<in> set xs. CHR ''&'' \<notin> set x"
  shows "Split (CHR ''&'') (joinAmp xs) = xs"
  using assms
proof (induction xs rule: joinAmp.induct)
  case 1
  then show ?case by simp
next
  case (2 x)
  then show ?case by (simp add: Split_no_separator)
next
  case (3 x y rest)
  then show ?case by (simp add: Split_append)
qed

text \<open>The pair that \<open>Encode\<close> writes for a key and a value is accepted as that key and value.\<close>

lemma acceptedPair_encoded:
  "acceptedPair (QueryEscape k @ CHR ''='' # QueryEscape v) = Some (k, v)"
proof -
  have "Cut (CHR ''='') (QueryEscape k @ CHR ''='' # QueryEscape v)
        = Some (QueryEscape k, QueryEscape v)"
    by (rule Cut_append) (rule QueryEscape_no_separator(3))
  then show ?thesis
    by (simp add: acceptedPair_def QueryEscape_no_separator QueryUnescape_QueryEscape)
qed

lemma joinAmp_no_mark:
  assumes "\<forall>x \<in> set xs. c \<notin> set x" and "c \<noteq> CHR ''&''"
  shows "c \<notin> set (joinAmp xs)"
  using assms by (induction xs rule: joinAmp.induct) auto

lemma joinAmp_not_Nil: "xs \<noteq> [] \<Longrightarrow> hd xs \<noteq> [] \<Longrightarrow> joinAmp xs \<noteq> []"
  by (induction xs rule: joinAmp.induct) auto

text \<open>The pairs of key and value of a \<open>Values\<close>, in the order of its entries.\<close>

lemma encoded_pairs:
  "concat (map encodeEntry es)
   = map (\<lambda>kv. QueryEscape (fst kv) @ CHR ''='' # QueryEscape (snd kv))
       (concat (map (\<lambda>e. map (Pair (fst e)) (snd e)) es))"
  by (induction es) (simp_all add: encodeEntry_def comp_def)

lemma accepted_encoded_pairs:
  "List.map_filter acceptedPair
     (map (\<lambda>kv. QueryEscape (fst kv) @ CHR ''='' # QueryEscape (snd kv)) ps) = ps"
  by (induction ps) (simp_all add: List.map_filter_simps acceptedPair_encoded)

lemma occurrences_of_entries:
  "map snd (filter (\<lambda>kv. fst kv = k) (concat (map (\<lambda>e. map (Pair (fst e)) (snd e)) es)))
   = concat (map snd (filter (\<lambda>e. fst e = k) es))"
  by (induction es) (auto simp: comp_def filter_map)

lemma filter_key_distinct:
  assumes "distinct (map fst es)"
  shows "filter (\<lambda>e. fst e = k) es = (case map_of es k of None \<Rightarrow> [] | Some vs \<Rightarrow> [(k, vs)])"
  using assms
proof (induction es)
  case Nil
  then show ?case by simp
next
  case (Cons e es)
  obtain k' vs where e: "e = (k', vs)" by (cases e)
  show ?case
  proof (cases "k' = k")
    case True
    then have "k \<notin> fst ` set es"
      using Cons.prems e by auto
    then have "filter (\<lambda>e. fst e = k) es = []"
      by (auto simp: filter_empty_conv)
    with True e show ?thesis by simp
  next
    case False
    with Cons e show ?thesis by simp
  qed
qed

text \<open>
  The query that \<open>Encode\<close> writes has, for every key, the values the \<open>Values\<close> had for it,
  when its keys are distinct.
\<close>

lemma occurrences_Encode:
  assumes "distinct (map fst q)" and "RawQuery u = Encode q"
  shows "queryOccurrences u k = (case map_of q k of None \<Rightarrow> [] | Some vs \<Rightarrow> vs)"
proof -
  define ps where "ps = concat (map (\<lambda>e. map (Pair (fst e)) (snd e)) (sort_key fst q))"
  define xs where "xs = map (\<lambda>kv. QueryEscape (fst kv) @ CHR ''='' # QueryEscape (snd kv)) ps"
  have enc: "Encode q = joinAmp xs"
    by (simp add: Encode_def encoded_pairs xs_def ps_def)
  have acc: "List.map_filter acceptedPair (Split (CHR ''&'') (joinAmp xs)) = ps"
  proof (cases "xs = []")
    case True
    then show ?thesis
      by (simp add: xs_def List.map_filter_simps acceptedPair_def)
  next
    case False
    have "\<forall>x \<in> set xs. CHR ''&'' \<notin> set x"
      by (auto simp: xs_def QueryEscape_no_separator)
    from Split_joinAmp [OF False this] show ?thesis
      by (simp add: xs_def accepted_encoded_pairs)
  qed
  have d: "distinct (map fst (filter (\<lambda>e. fst e = k) q))"
    using assms(1) by (simp add: distinct_map_filter)
  have "filter (\<lambda>e. fst e = k) (sort_key fst q) = sort_key fst (filter (\<lambda>e. fst e = k) q)"
    by (rule filter_sort)
  also have "\<dots> = filter (\<lambda>e. fst e = k) q"
    by (simp add: filter_key_distinct [OF assms(1)] split: option.splits)
  finally have "concat (map snd (filter (\<lambda>e. fst e = k) (sort_key fst q)))
                = (case map_of q k of None \<Rightarrow> [] | Some vs \<Rightarrow> vs)"
    by (simp add: filter_key_distinct [OF assms(1)] split: option.splits)
  then show ?thesis
    by (simp add: queryOccurrences_def assms(2) enc acc ps_def occurrences_of_entries)
qed

subsection \<open>Parsing the decimal form of a number\<close>

lemma parseUintLoop_append:
  "parseUintLoop b b0 c mv (xs @ ys) u a
   = (case parseUintLoop b b0 c mv xs u a of
        Inl e \<Rightarrow> Inl e
      | Inr (a', u') \<Rightarrow> parseUintLoop b b0 c mv ys u' a')"
  by (induction xs arbitrary: u a) (auto simp: Let_def split: option.splits)

lemma digitVal_digitChar: "d < 10 \<Longrightarrow> digitVal (digitChar d) = Some d"
proof -
  assume "d < 10"
  then have "d < 16"
    by simp
  from less_16_cases [OF this] \<open>d < 10\<close> show ?thesis
    by (auto simp: digitVal_def digitChar_def byte_def lower_def)
qed

lemma FormatUint_not_Nil: "FormatUint n \<noteq> []"
  by (subst FormatUint.simps) simp

text \<open>
  One digit more: the value times ten plus the digit, when nothing overflows. The number
  \<open>1844674407370955162\<close> is the cutoff of base ten, \<open>(2 ^ 64 - 1) div 10 + 1\<close>.
\<close>

lemma parseUintLoop_digit:
  assumes "d < 10"
    and "parseUintLoop 10 False 1844674407370955162 mv [digitChar d] u a = Inr (r, u')"
  shows "r = a * 10 + d"
proof -
  from assms have a: "a < 1844674407370955162"
    by (auto simp: digitVal_digitChar Let_def split: if_splits)
  then have small: "a * 10 < 2 ^ 64"
    by simp
  from assms a have r: "r = (a * 10 + d) mod 2 ^ 64" and no: "\<not> (a * 10 + d) mod 2 ^ 64 < a * 10"
    using small by (auto simp: digitVal_digitChar Let_def split: if_splits)
  have "a * 10 + d < 2 ^ 64"
  proof (rule ccontr)
    assume "\<not> a * 10 + d < 2 ^ 64"
    then have ge: "a * 10 + d \<ge> 2 ^ 64"
      by simp
    have "a * 10 + d < 2 * 2 ^ 64"
      using small assms(1) by simp
    then have "(a * 10 + d) mod 2 ^ 64 = a * 10 + d - 2 ^ 64"
      using ge by (simp add: mod_if)
    with no ge assms(1) show False
      by simp
  qed
  with r show ?thesis
    by simp
qed

lemma parse_FormatUint:
  "parseUintLoop 10 False 1844674407370955162 mv (FormatUint n) u 0 = Inr (r, u')
   \<Longrightarrow> r = n"
proof (induction n arbitrary: r u' rule: FormatUint.induct)
  case (1 n)
  show ?case
  proof (cases "n < 10")
    case True
    with "1.prems" have
      "parseUintLoop 10 False 1844674407370955162 mv [digitChar n] u 0 = Inr (r, u')"
      by (subst (asm) FormatUint.simps) simp
    from parseUintLoop_digit [OF True this] show ?thesis
      by simp
  next
    case False
    from "1.prems" False have
      "parseUintLoop 10 False 1844674407370955162 mv
         (FormatUint (n div 10) @ [digitChar (n mod 10)]) u 0 = Inr (r, u')"
      by (subst (asm) FormatUint.simps) simp
    then obtain r1 u1 where
      first: "parseUintLoop 10 False 1844674407370955162 mv (FormatUint (n div 10)) u 0
              = Inr (r1, u1)" and
      last: "parseUintLoop 10 False 1844674407370955162 mv [digitChar (n mod 10)] u1 r1
             = Inr (r, u')"
      unfolding parseUintLoop_append by (auto split: sum.splits)
    from "1.IH" [OF False first] have "r1 = n div 10" .
    moreover have "n mod 10 < 10"
      by simp
    from parseUintLoop_digit [OF this last] have "r = r1 * 10 + n mod 10" .
    ultimately show ?thesis
      by simp
  qed
qed

lemma ParseUint_FormatUint: "ParseUint (FormatUint n) 10 64 = Inr r \<Longrightarrow> r = n"
  by (auto simp: ParseUint_def FormatUint_not_Nil Let_def split: sum.splits if_splits
      dest: parse_FormatUint)

subsection \<open>The fields that toUrl writes, in a successful resolution\<close>

lemma resolve_field:
  assumes "resolveParams E m = Inr q" and "k < 19"
    and "list_all (keeps f) (take k (resolveBlocks E m))"
    and "list_all (keeps f) (drop (Suc k) (resolveBlocks E m))"
  shows "\<exists>p p'. f p = f (initialParams E) \<and> (resolveBlocks E m ! k) p = Inr p' \<and> f q = f p'"
proof -
  from resolve_at [OF assms(1,2)] obtain p p' where
    pre: "runBlocks (take k (resolveBlocks E m)) (initialParams E) = Inr p" and
    b: "(resolveBlocks E m ! k) p = Inr p'" and
    post: "runBlocks (drop (Suc k) (resolveBlocks E m)) p' = Inr q"
    by blast
  from runBlocks_keeps [OF assms(3) pre] runBlocks_keeps [OF assms(4) post] b show ?thesis
    by blast
qed

lemma resolve_logFlags:
  assumes "resolveParams E m = Inr q"
  shows "(m ''log'' = None \<longrightarrow> logFlags q = 0)
       \<and> (\<forall>s. m ''log'' = Some s \<longrightarrow> ParseUint s 10 64 = Inr (logFlags q))"
proof -
  have 1: "list_all (keeps logFlags) (take 0 (resolveBlocks E m))"
    by simp
  have 2: "list_all (keeps logFlags) (drop (Suc 0) (resolveBlocks E m))"
    by (auto simp: resolveBlocks_def keeps_def block_defs Let_def
        split: option.splits sum.splits if_splits list.splits)
  from resolve_field [OF assms _ 1 2] obtain p p' where
    "logFlags p = 0" and "blockLog m p = Inr p'" and "logFlags q = logFlags p'"
    by (auto simp: resolveBlocks_def initialParams_def)
  then show ?thesis
    by (auto simp: blockLog_def split: option.splits sum.splits)
qed

lemma resolve_database:
  assumes "resolveParams E m = Inr q"
  shows "database q = index m ''database''"
  using resolve_server [OF assms] blockServer_Inr(2) by metis

lemma resolve_columnEncryption:
  assumes "resolveParams E m = Inr q"
  shows "(m ''columnencryption'' = None \<longrightarrow> \<not> columnEncryption q)
       \<and> (\<forall>v. m ''columnencryption'' = Some v \<and> EqualFold v ''true'' \<longrightarrow> columnEncryption q)"
proof -
  have 1: "list_all (keeps columnEncryption) (take 8 (resolveBlocks E m))"
    by (auto simp: resolveBlocks_def keeps_def block_defs Let_def
        split: option.splits sum.splits if_splits list.splits)
  have 2: "list_all (keeps columnEncryption) (drop (Suc 8) (resolveBlocks E m))"
    by (auto simp: resolveBlocks_def keeps_def block_defs Let_def
        split: option.splits sum.splits if_splits)
  from resolve_field [OF assms _ 1 2] obtain p p' where
    "blockColumnEncryption m p = Inr p'" and "columnEncryption q = columnEncryption p'"
    by (auto simp: resolveBlocks_def)
  then show ?thesis
    by (auto simp: blockColumnEncryption_def split: option.splits sum.splits if_splits)
qed

lemma resolve_keyStoreAuthentication:
  assumes "resolveParams E m = Inr q"
  shows "(m ''keystoreauthentication'' = None \<longrightarrow> keyStoreAuthentication q = [])
       \<and> (\<forall>v. m ''keystoreauthentication'' = Some v \<longrightarrow>
             ToLower v = ''pfx'' \<and> keyStoreAuthentication q = ''pfx'')"
proof -
  have 1: "list_all (keeps keyStoreAuthentication) (take 9 (resolveBlocks E m))"
    by (auto simp: resolveBlocks_def keeps_def block_defs Let_def
        split: option.splits sum.splits if_splits list.splits)
  have 2: "list_all (keeps keyStoreAuthentication) (drop (Suc 9) (resolveBlocks E m))"
    by (auto simp: resolveBlocks_def keeps_def block_defs Let_def
        split: option.splits sum.splits if_splits)
  from resolve_field [OF assms _ 1 2] obtain p p' where
    "keyStoreAuthentication p = []" and "blockKeyStoreAuthentication m p = Inr p'" and
    "keyStoreAuthentication q = keyStoreAuthentication p'"
    by (auto simp: resolveBlocks_def initialParams_def)
  then show ?thesis
    by (auto simp: blockKeyStoreAuthentication_def PFXKeystoreAuth_def
        split: option.splits if_splits)
qed

lemma resolve_keyStoreLocation:
  assumes "resolveParams E m = Inr q"
  shows "(m ''keystorelocation'' = None \<longrightarrow> keyStoreLocation q = [])
       \<and> (\<forall>v. m ''keystorelocation'' = Some v \<longrightarrow> keyStoreLocation q = v)"
proof -
  have 1: "list_all (keeps keyStoreLocation) (take 10 (resolveBlocks E m))"
    by (auto simp: resolveBlocks_def keeps_def block_defs Let_def
        split: option.splits sum.splits if_splits list.splits)
  have 2: "list_all (keeps keyStoreLocation) (drop (Suc 10) (resolveBlocks E m))"
    by (auto simp: resolveBlocks_def keeps_def block_defs Let_def
        split: option.splits sum.splits if_splits)
  from resolve_field [OF assms _ 1 2] obtain p p' where
    "keyStoreLocation p = []" and "blockKeyStoreLocation E m p = Inr p'" and
    "keyStoreLocation q = keyStoreLocation p'"
    by (auto simp: resolveBlocks_def initialParams_def)
  then show ?thesis
    by (auto simp: blockKeyStoreLocation_def split: option.splits if_splits)
qed

lemma resolve_keyStoreSecret:
  assumes "resolveParams E m = Inr q"
  shows "(m ''keystoresecret'' = None \<longrightarrow> keyStoreSecret q = [])
       \<and> (\<forall>v. m ''keystoresecret'' = Some v \<longrightarrow> keyStoreSecret q = v)"
proof -
  have 1: "list_all (keeps keyStoreSecret) (take 11 (resolveBlocks E m))"
    by (auto simp: resolveBlocks_def keeps_def block_defs Let_def
        split: option.splits sum.splits if_splits list.splits)
  have 2: "list_all (keeps keyStoreSecret) (drop (Suc 11) (resolveBlocks E m))"
    by (auto simp: resolveBlocks_def keeps_def block_defs Let_def
        split: option.splits sum.splits if_splits)
  from resolve_field [OF assms _ 1 2] obtain p p' where
    "keyStoreSecret p = []" and "blockKeyStoreSecret m p = Inr p'" and
    "keyStoreSecret q = keyStoreSecret p'"
    by (auto simp: resolveBlocks_def initialParams_def)
  then show ?thesis
    by (auto simp: blockKeyStoreSecret_def split: option.splits)
qed

subsection \<open>The URL that toUrl writes\<close>

lemma toUrlValues_eq:
  "toUrlValues p
   = (if database p \<noteq> [] then [(''database'', [database p])] else [])
     @ (if logFlags p \<noteq> 0 then [(''log'', [FormatUint (logFlags p)])] else [])
     @ (if columnEncryption p then [(''columnEncryption'', [''true''])] else [])
     @ (if keyStoreAuthentication p \<noteq> []
        then [(''keyStoreAuthentication'', [keyStoreAuthentication p])] else [])
     @ (if keyStoreLocation p \<noteq> [] then [(''keyStoreLocation'', [keyStoreLocation p])] else [])
     @ (if keyStoreSecret p \<noteq> [] then [(''keyStoreSecret'', [keyStoreSecret p])] else [])"
  by (simp add: toUrlValues_def Let_def)

lemma toUrlValues_distinct: "distinct (map fst (toUrlValues p))"
  by (simp add: toUrlValues_eq)

lemma toUrlValues_entries:
  "(k, vs) \<in> set (toUrlValues p) \<longleftrightarrow>
     (k = ''database'' \<and> database p \<noteq> [] \<and> vs = [database p])
   \<or> (k = ''log'' \<and> logFlags p \<noteq> 0 \<and> vs = [FormatUint (logFlags p)])
   \<or> (k = ''columnEncryption'' \<and> columnEncryption p \<and> vs = [''true''])
   \<or> (k = ''keyStoreAuthentication'' \<and> keyStoreAuthentication p \<noteq> []
       \<and> vs = [keyStoreAuthentication p])
   \<or> (k = ''keyStoreLocation'' \<and> keyStoreLocation p \<noteq> [] \<and> vs = [keyStoreLocation p])
   \<or> (k = ''keyStoreSecret'' \<and> keyStoreSecret p \<noteq> [] \<and> vs = [keyStoreSecret p])"
  by (auto simp: toUrlValues_eq)

lemma toUrlValues_not_empty: "\<forall>e \<in> set (toUrlValues p). snd e \<noteq> []"
  using toUrlValues_entries [of _ _ p] by fastforce

lemma Encode_not_Nil:
  assumes "q \<noteq> []" and "\<forall>e \<in> set q. snd e \<noteq> []"
  shows "Encode q \<noteq> []"
proof -
  define xs where "xs = concat (map encodeEntry (sort_key fst q))"
  have el: "x \<noteq> []" if "x \<in> set xs" for x
    using that by (auto simp: xs_def encodeEntry_def)
  obtain e where e: "e \<in> set q"
    using assms(1) by (cases q) auto
  then have "e \<in> set (sort_key fst q)" and "encodeEntry e \<noteq> []"
    using assms(2) by (auto simp: encodeEntry_def)
  then have ne: "xs \<noteq> []"
    by (auto simp: xs_def)
  then have "hd xs \<noteq> []"
    using el by simp
  from joinAmp_not_Nil [OF ne this] show ?thesis
    by (simp add: Encode_def xs_def)
qed

lemma Encode_no_mark:
  "CHR ''?'' \<notin> set (Encode q)" "CHR ''#'' \<notin> set (Encode q)"
proof -
  have "c \<notin> set (Encode q)" if "c = CHR ''?'' \<or> c = CHR ''#''" for c
    unfolding Encode_def
  proof (rule joinAmp_no_mark)
    show "\<forall>x \<in> set (concat (map encodeEntry (sort_key fst q))). c \<notin> set x"
      using that by (auto simp: encodeEntry_def QueryEscape_no_separator)
    show "c \<noteq> CHR ''&''"
      using that by auto
  qed
  then show "CHR ''?'' \<notin> set (Encode q)" "CHR ''#'' \<notin> set (Encode q)"
    by simp_all
qed

text \<open>The queries of the two URLs have the same entries.\<close>

lemma Query_of_Encode:
  assumes "distinct (map fst q)" and "\<forall>e \<in> set q. snd e \<noteq> []" and "RawQuery u = Encode q"
  shows "set (Query u) = set q"
proof -
  have "(k, vs) \<in> set (Query u) \<longleftrightarrow> (k, vs) \<in> set q" for k vs
  proof -
    have "(k, vs) \<in> set (Query u)
          \<longleftrightarrow> vs = (case map_of q k of None \<Rightarrow> [] | Some vs \<Rightarrow> vs) \<and> vs \<noteq> []"
      by (simp add: Query_occurrences occurrences_Encode [OF assms(1,3)])
    also have "\<dots> \<longleftrightarrow> map_of q k = Some vs \<and> vs \<noteq> []"
      by (auto split: option.splits)
    also have "\<dots> \<longleftrightarrow> (k, vs) \<in> set q"
      using assms(1,2) by auto
    finally show ?thesis .
  qed
  then show ?thesis
    by auto
qed

text \<open>
  The text of the URL: the scheme, then the user, the host and the path, with no \<open>?\<close>
  and no \<open>#\<close> among them, then the query if there is one.
\<close>

lemma URLString_toUrl:
  assumes "host p \<noteq> []"
  shows "\<exists>A. CHR ''?'' \<notin> set A \<and> CHR ''#'' \<notin> set A
           \<and> URLString (toUrl p)
               = ''sqlserver://'' @ A
                 @ (if Encode (toUrlValues p) = [] then []
                    else CHR ''?'' # Encode (toUrlValues p))
           \<and> RawQuery (toUrl p) = Encode (toUrlValues p)"
proof -
  define path where
    "path = (if instance p = ''*'' then ''*'' else escape (instance p) encodePath)"
  define A where
    "A = escape (user p) encodeUserPassword @ '':'' @ escape (password p) encodeUserPassword
         @ ''@'' @ escape (host p) encodeHost
         @ (if path \<noteq> [] \<and> hd path \<noteq> CHR ''/'' then ''/'' else []) @ path"
  have q: "RawQuery (toUrl p) = Encode (toUrlValues p)"
    by (auto simp: toUrl_def Let_def emptyURL_def Encode_def)
  have path_no: "CHR ''?'' \<notin> set path" "CHR ''#'' \<notin> set path"
    by (auto simp: path_def escape_no_query_mark escape_no_hash)
  have 1: "CHR ''?'' \<notin> set A"
    using path_no by (auto simp: A_def escape_no_query_mark)
  have 2: "CHR ''#'' \<notin> set A"
    using path_no by (auto simp: A_def escape_no_hash)
  have ep: "EscapedPath (toUrl p) = path"
    by (auto simp: EscapedPath_def toUrl_def Let_def emptyURL_def path_def escape_def)
  have 3: "URLString (toUrl p)
           = ''sqlserver://'' @ A
             @ (if Encode (toUrlValues p) = [] then [] else CHR ''?'' # Encode (toUrlValues p))"
    unfolding URLString_def ep q
    using assms by (simp add: toUrl_def Let_def emptyURL_def A_def UserinfoString_def)
  from 1 2 3 q show ?thesis
    by blast
qed

subsection \<open>Parsing the URL that toUrl writes\<close>

lemma cutQuery_serialized:
  assumes "CHR ''?'' \<notin> set A" and "CHR ''?'' \<notin> set enc"
  shows "cutQuery (''//'' @ A @ (if enc = [] then [] else CHR ''?'' # enc)) u
         = (''//'' @ A, if enc = [] then u else u\<lparr>RawQuery := enc\<rparr>)"
proof (cases "enc = []")
  case True
  have "CHR ''?'' \<notin> set (''//'' @ A)"
    using assms(1) by simp
  then have "Cut (CHR ''?'') (''//'' @ A) = None" and "count_list (''//'' @ A) (CHR ''?'') = 0"
    by (simp_all only: Cut_None_iff count_list_0_iff not_False_eq_True)
  with True show ?thesis
    by (simp add: cutQuery_def)
next
  case False
  have no: "CHR ''?'' \<notin> set (''//'' @ A)"
    using assms(1) by simp
  have cut: "Cut (CHR ''?'') ((''//'' @ A) @ CHR ''?'' # enc) = Some (''//'' @ A, enc)"
    by (rule Cut_append [OF no])
  have "last ((''//'' @ A) @ CHR ''?'' # enc) = last enc"
    using False by simp
  moreover have "last enc \<noteq> CHR ''?''"
    using False assms(2) last_in_set by metis
  ultimately have "last ((''//'' @ A) @ CHR ''?'' # enc) \<noteq> CHR ''?''"
    by simp
  with cut False show ?thesis
    unfolding cutQuery_def by (simp del: last_appendR last.simps)
qed

lemma parse_serialized:
  assumes "CHR ''?'' \<notin> set A" and "CHR ''?'' \<notin> set enc"
    and "parse (''sqlserver://'' @ A @ (if enc = [] then [] else CHR ''?'' # enc)) = Inr u"
  shows "RawQuery u = enc"
proof -
  define u1 where "u1 = emptyURL\<lparr>Scheme := ''sqlserver''\<rparr>"
  define u2 where "u2 = (if enc = [] then u1 else u1\<lparr>RawQuery := enc\<rparr>)"
  define Q where "Q = (if enc = [] then [] else CHR ''?'' # enc)"
  have cq: "cutQuery (''//'' @ A @ Q) u1 = (''//'' @ A, u2)"
    unfolding u2_def Q_def by (rule cutQuery_serialized [OF assms(1,2)])
  have sch: "Scheme u2 \<noteq> []" and rq: "RawQuery u2 = enc"
    by (auto simp: u2_def u1_def emptyURL_def)
  have "parse (''sqlserver://'' @ A @ Q) = Inr u"
    using assms(3) by (simp only: Q_def)
  from parse_sqlserver_steps [OF this cq [unfolded u1_def]]
  have "parseHier u2 (CHR ''/'' # CHR ''/'' # A) = Inr u"
    by simp
  then obtain user' host' rest' where
    "setPath (u2\<lparr>User := user', Host := host'\<rparr>) rest' = Inr u"
    unfolding parseHier_authority [OF sch] by (auto split: sum.splits)
  from setPath_fields(2) [OF this] rq show ?thesis
    by simp
qed

lemma Parse_no_fragment: "CHR ''#'' \<notin> set s \<Longrightarrow> Parse s = parse s"
  by (simp add: Parse_def Cut_None_iff [THEN iffD2] split: sum.splits)

subsection \<open>The map of the URL that toUrl writes\<close>

lemma queryLoop_lookup:
  assumes "queryLoop es r0 = Inr r"
    and "\<forall>kv \<in> set es. ToLower (fst kv) = k' \<longrightarrow> snd kv = [v]"
  shows "r k' = (if \<exists>kv \<in> set es. ToLower (fst kv) = k' then Some v else r0 k')"
  using assms
proof (induction es arbitrary: r0)
  case Nil
  then show ?case by simp
next
  case (Cons e es)
  obtain k vs where e: "e = (k, vs)" by (cases e)
  from Cons.prems(1) e obtain v0 where
    vs: "vs = [v0]" and rest: "queryLoop es (r0(ToLower k \<mapsto> v0)) = Inr r"
    by (cases vs) (auto split: if_splits)
  have all: "\<forall>kv \<in> set es. ToLower (fst kv) = k' \<longrightarrow> snd kv = [v]"
    using Cons.prems(2) by simp
  have hd: "ToLower k = k' \<longrightarrow> v0 = v"
    using Cons.prems(2) e vs by simp
  from Cons.IH [OF rest all] hd e show ?case
    by auto
qed

text \<open>
  What the tokenizer reads back from the URL: for each of the six keys of the query, the
  value that \<open>toUrl\<close> wrote, and nothing when it wrote none.
\<close>

lemma serialized_map:
  assumes "host p \<noteq> []"
    and "splitConnectionStringURL E (URLString (toUrl p)) = Inr m'"
    and "\<forall>entries. set (mapOrder E entries) = set entries"
  shows "m' ''database'' = (if database p = [] then None else Some (database p))"
    and "m' ''log'' = (if logFlags p = 0 then None else Some (FormatUint (logFlags p)))"
    and "m' ''columnencryption'' = (if columnEncryption p then Some ''true'' else None)"
    and "m' ''keystoreauthentication''
         = (if keyStoreAuthentication p = [] then None else Some (keyStoreAuthentication p))"
    and "m' ''keystorelocation''
         = (if keyStoreLocation p = [] then None else Some (keyStoreLocation p))"
    and "m' ''keystoresecret''
         = (if keyStoreSecret p = [] then None else Some (keyStoreSecret p))"
proof -
  define q where "q = toUrlValues p"
  from URLString_toUrl [OF assms(1)] obtain A where
    A: "CHR ''?'' \<notin> set A" "CHR ''#'' \<notin> set A" and
    s: "URLString (toUrl p)
        = ''sqlserver://'' @ A @ (if Encode q = [] then [] else CHR ''?'' # Encode q)"
    unfolding q_def by blast
  have "CHR ''#'' \<notin> set (URLString (toUrl p))"
    unfolding s using A(2) Encode_no_mark(2) [of q] by auto
  from Parse_no_fragment [OF this] assms(2) obtain u where
    p: "parse (''sqlserver://'' @ A @ (if Encode q = [] then [] else CHR ''?'' # Encode q)) = Inr u"
    and up: "urlParams E u = Inr m'"
    unfolding splitConnectionStringURL_def s by (auto split: sum.splits)
  have rq: "RawQuery u = Encode q"
    by (rule parse_serialized [OF A(1) Encode_no_mark(1) p])
  have sq: "set (mapOrder E (Query u)) = set q"
    using Query_of_Encode [OF _ _ rq] toUrlValues_distinct [of p] toUrlValues_not_empty [of p]
      assms(3)
    by (simp add: q_def)
  from up obtain r0 where
    loop: "queryLoop (mapOrder E (Query u)) r0 = Inr m'" and
    r0: "r0 ''database'' = None" "r0 ''log'' = None" "r0 ''columnencryption'' = None"
        "r0 ''keystoreauthentication'' = None" "r0 ''keystorelocation'' = None"
        "r0 ''keystoresecret'' = None"
    by (auto simp: urlParams_def Let_def split: if_splits option.splits prod.splits)
  have sq': "set (mapOrder E (Query u)) = set (toUrlValues p)"
    using sq by (simp add: q_def)
  note keys = sq' toUrlValues_eq ToLower_def toLowerByte_def isASCII_def hasUpper_def RuneSelf_def
    byte_def chr_def char_of_def
    bit_Suc_0_iff
  have "m' ''database'' = (if \<exists>kv \<in> set (mapOrder E (Query u)). ToLower (fst kv) = ''database''
                           then Some (database p) else r0 ''database'')"
    by (rule queryLoop_lookup [OF loop]) (auto simp: keys)
  then show "m' ''database'' = (if database p = [] then None else Some (database p))"
    by (auto simp: r0 keys)
  have "m' ''log'' = (if \<exists>kv \<in> set (mapOrder E (Query u)). ToLower (fst kv) = ''log''
                      then Some (FormatUint (logFlags p)) else r0 ''log'')"
    by (rule queryLoop_lookup [OF loop]) (auto simp: keys)
  then show "m' ''log'' = (if logFlags p = 0 then None else Some (FormatUint (logFlags p)))"
    by (auto simp: r0 keys)
  have "m' ''columnencryption''
        = (if \<exists>kv \<in> set (mapOrder E (Query u)). ToLower (fst kv) = ''columnencryption''
           then Some ''true'' else r0 ''columnencryption'')"
    by (rule queryLoop_lookup [OF loop]) (auto simp: keys)
  then show "m' ''columnencryption'' = (if columnEncryption p then Some ''true'' else None)"
    by (auto simp: r0 keys)
  have "m' ''keystoreauthentication''
        = (if \<exists>kv \<in> set (mapOrder E (Query u)). ToLower (fst kv) = ''keystoreauthentication''
           then Some (keyStoreAuthentication p) else r0 ''keystoreauthentication'')"
    by (rule queryLoop_lookup [OF loop]) (auto simp: keys)
  then show "m' ''keystoreauthentication''
         = (if keyStoreAuthentication p = [] then None else Some (keyStoreAuthentication p))"
    by (auto simp: r0 keys)
  have "m' ''keystorelocation''
        = (if \<exists>kv \<in> set (mapOrder E (Query u)). ToLower (fst kv) = ''keystorelocation''
           then Some (keyStoreLocation p) else r0 ''keystorelocation'')"
    by (rule queryLoop_lookup [OF loop]) (auto simp: keys)
  then show "m' ''keystorelocation''
         = (if keyStoreLocation p = [] then None else Some (keyStoreLocation p))"
    by (auto simp: r0 keys)
  have "m' ''keystoresecret''
        = (if \<exists>kv \<in> set (mapOrder E (Query u)). ToLower (fst kv) = ''keystoresecret''
           then Some (keyStoreSecret p) else r0 ''keystoresecret'')"
    by (rule queryLoop_lookup [OF loop]) (auto simp: keys)
  then show "m' ''keystoresecret''
         = (if keyStoreSecret p = [] then None else Some (keyStoreSecret p))"
    by (auto simp: r0 keys)
qed

subsection \<open>C9: resolving again what toUrl wrote\<close>

lemma URLString_toUrl_prefix:
  assumes "host p \<noteq> []"
  shows "\<not> HasPrefix (URLString (toUrl p)) ''odbc:''"
    and "HasPrefix (URLString (toUrl p)) ''sqlserver://''"
proof -
  from URLString_toUrl [OF assms] obtain t where "URLString (toUrl p) = ''sqlserver://'' @ t"
    by auto
  then show "\<not> HasPrefix (URLString (toUrl p)) ''odbc:''"
    and "HasPrefix (URLString (toUrl p)) ''sqlserver://''"
    by (simp_all add: HasPrefix_def)
qed

text \<open>
  C9, as the code has it. Let \<open>p\<close> be a successfully resolved configuration, and let the
  text of its URL resolve again, to \<open>p'\<close>, the \<open>range\<close> over the query visiting the entries
  of the map. Then \<open>p'\<close> has the database, the log flags, the column encryption and the
  three key store fields of \<open>p\<close>. (The URL need not resolve again: see the
  counterexample.)
\<close>

theorem C9_round_trip:
  assumes "resolveParams E m = Inr p"
    and "parseConnectParams E (URLString (toUrl p)) = Inr p'"
    and "\<forall>entries. set (mapOrder E entries) = set entries"
  shows "database p' = database p \<and> logFlags p' = logFlags p
       \<and> columnEncryption p' = columnEncryption p
       \<and> keyStoreAuthentication p' = keyStoreAuthentication p
       \<and> keyStoreLocation p' = keyStoreLocation p
       \<and> keyStoreSecret p' = keyStoreSecret p"
proof -
  have h: "host p \<noteq> []"
    using resolve_server [OF assms(1)] blockServer_Inr(1) by metis
  from assms(2) URLString_toUrl_prefix [OF h] obtain m' where
    sp: "splitConnectionStringURL E (URLString (toUrl p)) = Inr m'" and
    r': "resolveParams E m' = Inr p'"
    by (auto simp: parseConnectParams_def split: sum.splits)
  note m' = serialized_map [OF h sp assms(3)]
  have 1: "database p' = database p"
    using resolve_database [OF r'] m'(1) by (simp add: index_def)
  have 2: "logFlags p' = logFlags p"
  proof (cases "logFlags p = 0")
    case True
    with resolve_logFlags [OF r'] m'(2) show ?thesis
      by simp
  next
    case False
    with resolve_logFlags [OF r'] m'(2)
    have "ParseUint (FormatUint (logFlags p)) 10 64 = Inr (logFlags p')"
      by simp
    from ParseUint_FormatUint [OF this] show ?thesis .
  qed
  have "EqualFold ''true'' ''true''"
    by (simp add: EqualFold_def byte_def RuneSelf_def)
  then have 3: "columnEncryption p' = columnEncryption p"
    using resolve_columnEncryption [OF r'] m'(3) by (cases "columnEncryption p") simp_all
  have pfx: "keyStoreAuthentication p = [] \<or> keyStoreAuthentication p = ''pfx''"
    using resolve_keyStoreAuthentication [OF assms(1)]
    by (cases "m ''keystoreauthentication''") simp_all
  have 4: "keyStoreAuthentication p' = keyStoreAuthentication p"
    using resolve_keyStoreAuthentication [OF r'] m'(4) pfx
    by (cases "keyStoreAuthentication p = []") auto
  have 5: "keyStoreLocation p' = keyStoreLocation p"
    using resolve_keyStoreLocation [OF r'] m'(5)
    by (cases "keyStoreLocation p = []") simp_all
  have 6: "keyStoreSecret p' = keyStoreSecret p"
    using resolve_keyStoreSecret [OF r'] m'(6)
    by (cases "keyStoreSecret p = []") simp_all
  from 1 2 3 4 5 6 show ?thesis
    by simp
qed

text \<open>
  A DSN with all six fields: it resolves, the text of its URL resolves again, and the
  six fields are the same.
\<close>

theorem C9_round_trip_witness:
  "map_sum id
     (\<lambda>p. map_sum id
        (\<lambda>p'. (database p', logFlags p', columnEncryption p', keyStoreAuthentication p',
               keyStoreLocation p', keyStoreSecret p')
              = (database p, logFlags p, columnEncryption p, keyStoreAuthentication p,
                 keyStoreLocation p, keyStoreSecret p)
              \<and> database p = ''master'' \<and> logFlags p = 127)
        (parseConnectParams exampleEnv (URLString (toUrl p))))
     (parseConnectParams exampleEnv
        ''server=localhost;user id=sa;database=master;log=127;columnencryption=1;keystoreauthentication=PFX;keystorelocation=/etc/keys/store.pfx;keystoresecret=s3cr t'')
   = Inr (Inr True)"
proof -
  define dsn where
    "dsn = ''server=localhost;user id=sa;database=master;log=127;columnencryption=1;keystoreauthentication=PFX;keystorelocation=/etc/keys/store.pfx;keystoresecret=s3cr t''"
  define m where "m = splitConnectionString dsn"
  have m: "m = [''server'' \<mapsto> ''localhost'', ''user id'' \<mapsto> ''sa'', ''database'' \<mapsto> ''master'',
          ''log'' \<mapsto> ''127'', ''columnencryption'' \<mapsto> ''1'', ''keystoreauthentication'' \<mapsto> ''PFX'',
          ''keystorelocation'' \<mapsto> ''/etc/keys/store.pfx'', ''keystoresecret'' \<mapsto> ''s3cr t'']"
    by (simp add: m_def dsn_def tokenizer_defs eval_defs)
  have dsn: "parseConnectParams exampleEnv dsn = resolveParams exampleEnv m"
    by (simp add: parseConnectParams_def m_def) (simp add: dsn_def HasPrefix_def)
  have "\<exists>p. resolveParams exampleEnv m = Inr p
          \<and> host p = ''localhost'' \<and> user p = ''sa'' \<and> password p = [] \<and> instance p = []
          \<and> database p = ''master'' \<and> logFlags p = 127 \<and> columnEncryption p
          \<and> keyStoreAuthentication p = ''pfx'' \<and> keyStoreLocation p = ''/etc/keys/store.pfx''
          \<and> keyStoreSecret p = ''s3cr t''"
    by (simp add: m eval_defs resolve_defs block_defs)
  then obtain p where
    p: "resolveParams exampleEnv m = Inr p" and
    f: "host p = ''localhost''" "user p = ''sa''" "password p = []" "instance p = []"
       "database p = ''master''" "logFlags p = 127" "columnEncryption p"
       "keyStoreAuthentication p = ''pfx''" "keyStoreLocation p = ''/etc/keys/store.pfx''"
       "keyStoreSecret p = ''s3cr t''"
    by blast
  have q: "toUrlValues p
           = [(''database'', [''master'']), (''log'', [''127'']), (''columnEncryption'', [''true'']),
              (''keyStoreAuthentication'', [''pfx'']),
              (''keyStoreLocation'', [''/etc/keys/store.pfx'']), (''keyStoreSecret'', [''s3cr t''])]"
    by (simp add: toUrlValues_eq f FormatUint.simps digitChar_def)
  have e: "Encode (toUrlValues p)
           = ''columnEncryption=true&database=master&keyStoreAuthentication=pfx&keyStoreLocation=%2Fetc%2Fkeys%2Fstore.pfx&keyStoreSecret=s3cr+t&log=127''"
    by (simp add: q Encode_def encodeEntry_def QueryEscape_def escape_def escapeByte_def
        shouldEscape_def isAlpha_def isDigit_def byte_def upperhex_def)
  have u: "toUrl p = emptyURL\<lparr>Scheme := ''sqlserver'', Host := ''localhost'',
             User := Some (''sa'', Some []),
             RawQuery := ''columnEncryption=true&database=master&keyStoreAuthentication=pfx&keyStoreLocation=%2Fetc%2Fkeys%2Fstore.pfx&keyStoreSecret=s3cr+t&log=127''\<rparr>"
    by (simp add: toUrl_def Let_def f q e [unfolded q])
  have s: "URLString (toUrl p)
           = ''sqlserver://sa:@localhost?columnEncryption=true&database=master&keyStoreAuthentication=pfx&keyStoreLocation=%2Fetc%2Fkeys%2Fstore.pfx&keyStoreSecret=s3cr+t&log=127''"
    unfolding u
    by (simp add: URLString_def emptyURL_def EscapedPath_def UserinfoString_def escape_def
        escapeByte_def shouldEscape_def isAlpha_def isDigit_def byte_def)
  have tok: "splitConnectionStringURL exampleEnv (URLString (toUrl p))
             = Inr [''user id'' \<mapsto> ''sa'', ''password'' \<mapsto> [], ''server'' \<mapsto> ''localhost'',
                    ''columnencryption'' \<mapsto> ''true'', ''database'' \<mapsto> ''master'',
                    ''keystoreauthentication'' \<mapsto> ''pfx'',
                    ''keystorelocation'' \<mapsto> ''/etc/keys/store.pfx'',
                    ''keystoresecret'' \<mapsto> ''s3cr t'', ''log'' \<mapsto> ''127'']"
    unfolding s by (simp add: url_defs eval_defs exampleEnv_def)
  have "\<exists>p'. parseConnectParams exampleEnv (URLString (toUrl p)) = Inr p'"
    unfolding parseConnectParams_def tok
    by (simp add: s HasPrefix_def) (simp add: eval_defs resolve_defs block_defs)
  then obtain p' where p': "parseConnectParams exampleEnv (URLString (toUrl p)) = Inr p'" ..
  have ord: "\<forall>entries. set (mapOrder exampleEnv entries) = set entries"
    by (simp add: exampleEnv_def)
  from C9_round_trip [OF p p' ord] f(5,6) show ?thesis
    unfolding dsn_def [symmetric] by (simp add: dsn p p')
qed
text \<open>
  C9 as stated fails: \<open>server=tcp:db1;database=foo\<close> resolves, to the host \<open>tcp:db1\<close>;
  the text of its URL is \<open>sqlserver://:@tcp:db1?database=foo\<close>, which \<open>url.Parse\<close>
  refuses for the port \<open>:db1\<close>, so the second resolution is an error and yields no
  configuration.
\<close>

theorem C9_counterexample:
  "map_sum id (\<lambda>p. (URLString (toUrl p), parseConnectParams exampleEnv (URLString (toUrl p))))
     (parseConnectParams exampleEnv ''server=tcp:db1;database=foo'')
   = Inr (''sqlserver://:@tcp:db1?database=foo'',
          Inl (UrlParseError (UrlError ''invalid port after host: :db1'')))"
proof -
  have "\<exists>p. parseConnectParams exampleEnv ''server=tcp:db1;database=foo'' = Inr p
          \<and> host p = ''tcp:db1'' \<and> user p = [] \<and> password p = [] \<and> instance p = []
          \<and> database p = ''foo'' \<and> logFlags p = 0 \<and> \<not> columnEncryption p
          \<and> keyStoreAuthentication p = [] \<and> keyStoreLocation p = [] \<and> keyStoreSecret p = []"
    by (simp add: eval_defs resolve_defs block_defs tokenizer_defs)
  then obtain p where
    p: "parseConnectParams exampleEnv ''server=tcp:db1;database=foo'' = Inr p" and
    f: "host p = ''tcp:db1''" "user p = []" "password p = []" "instance p = []"
       "database p = ''foo''" "logFlags p = 0" "\<not> columnEncryption p"
       "keyStoreAuthentication p = []" "keyStoreLocation p = []" "keyStoreSecret p = []"
    by blast
  have q: "toUrlValues p = [(''database'', [''foo''])]"
    by (simp add: toUrlValues_eq f)
  have e: "Encode (toUrlValues p) = ''database=foo''"
    by (simp add: q Encode_def encodeEntry_def QueryEscape_def escape_def escapeByte_def
        shouldEscape_def isAlpha_def isDigit_def byte_def)
  have u: "toUrl p = emptyURL\<lparr>Scheme := ''sqlserver'', Host := ''tcp:db1'',
                              User := Some ([], Some []), RawQuery := ''database=foo''\<rparr>"
    by (simp add: toUrl_def Let_def f q e [unfolded q])
  have s: "URLString (toUrl p) = ''sqlserver://:@tcp:db1?database=foo''"
    unfolding u
    by (simp add: URLString_def emptyURL_def EscapedPath_def UserinfoString_def escape_def
        escapeByte_def shouldEscape_def isAlpha_def isDigit_def byte_def)
  have r: "parseConnectParams exampleEnv ''sqlserver://:@tcp:db1?database=foo''
           = Inl (UrlParseError (UrlError ''invalid port after host: :db1''))"
    by (simp add: parseConnectParams_def HasPrefix_def url_defs eval_defs)
  from p s r show ?thesis
    by simp
qed

end
